theory Spec2Isabelle
  imports Complex_Main
begin

section \<open>The lane-runner engine of components/GameEngine.tsx\<close>

text \<open>
  The engine keeps its simulation state in React refs and advances it once per animation
  frame in \<^verbatim>\<open>updateGameLogic\<close>. The embedding passes one record of all refs (and of the
  React state \<^verbatim>\<open>gameState\<close>) through every operation. JavaScript numbers are modelled
  as exact reals (times, positions, speeds) and as integers (score, lives, lanes, which
  the code only ever changes by whole steps); rounding of IEEE doubles is not modelled.
  Every \<^verbatim>\<open>Math.random()\<close> draw and every clock reading is a parameter of the operation
  that makes it.
\<close>

subsection \<open>constants.ts\<close>

definition LANE_WIDTH :: real where "LANE_WIDTH = 3.5"
definition JUMP_HEIGHT :: real where "JUMP_HEIGHT = 3.5"
definition JUMP_DURATION :: real where "JUMP_DURATION = 0.7"
definition START_SPEED :: real where "START_SPEED = 15"
definition MAX_SPEED :: real where "MAX_SPEED = 40"
definition SPAWN_DISTANCE :: real where "SPAWN_DISTANCE = - 60"
definition SPAWN_INTERVAL_BASE :: real where "SPAWN_INTERVAL_BASE = 1.5"
definition INVINCIBILITY_DURATION :: real where "INVINCIBILITY_DURATION = 2000"

subsection \<open>Data\<close>

text \<open>
  An id is \<^verbatim>\<open>Math.random().toString()\<close>. The decimal rendering of a double is
  injective on the values \<^verbatim>\<open>Math.random()\<close> returns, so an id is represented by the
  number drawn.
\<close>

type_synonym ident = real

text \<open>\<^verbatim>\<open>Player3D\<close>, as initialised at \<^verbatim>\<open>playerStateRef\<close>.\<close>

record Player3D =
  lane :: int
  isJumping :: bool
  jumpStartTime :: real
  yPosition :: real

text \<open>\<^verbatim>\<open>Obstacle3D\<close>, as pushed by \<^verbatim>\<open>spawnObstacle\<close>.\<close>

record Obstacle3D =
  o_id :: ident
  o_lane :: int
  o_z :: real
  o_type :: string
  o_passed :: bool

datatype decoKind = Tree | Grass | Flower

text \<open>\<^verbatim>\<open>Decoration3D\<close>, as pushed by \<^verbatim>\<open>spawnDecoration\<close>.\<close>

record Decoration3D =
  d_id :: ident
  d_x :: real
  d_z :: real
  d_type :: decoKind
  d_rotation :: real

text \<open>The React state \<^verbatim>\<open>GameState\<close> owned by App.tsx.\<close>

record GameState =
  isPlaying :: bool
  isPaused :: bool
  score :: int
  gameOver :: bool
  speed :: real
  cameraReady :: bool
  lastLaneChange :: real
  lives :: int

text \<open>
  A renderer object (a \<^verbatim>\<open>THREE.Mesh\<close> or \<^verbatim>\<open>THREE.Group\<close>): its identity is the
  allocation number \<open>handle\<close>, its transform the three coordinates.
\<close>

record mesh =
  handle :: nat
  m_x :: real
  m_y :: real
  m_z :: real

text \<open>The player's \<^verbatim>\<open>THREE.Group\<close>: the fields the update logic writes.\<close>

record playerGroup =
  pos_x :: real
  pos_y :: real
  visible :: bool

text \<open>
  The refs of the component, with \<^verbatim>\<open>gameState\<close>. A ref that can be \<^verbatim>\<open>null\<close> is an
  option or a flag; \<open>sceneRef\<close> lists the handles of the entity meshes added to the
  scene (static scenery is left out), \<open>lavaMaterial\<close> holds the texture offset the
  update logic animates. \<open>nextHandle\<close> numbers the objects allocated with
  \<^verbatim>\<open>new\<close>, \<open>damageSounds\<close> counts the calls of \<^verbatim>\<open>playDamageSound\<close>. Clouds and
  limb rotations are cosmetic and left out.
\<close>

record engine =
  gameState :: GameState
  playerState :: Player3D
  lastHitTime :: real
  obstacles :: "Obstacle3D list"
  obstacleMeshes :: "ident \<rightharpoonup> mesh"
  decorations :: "Decoration3D list"
  decorationMeshes :: "ident \<rightharpoonup> mesh"
  speedRef :: real
  scoreRef :: int
  lastTime :: real
  lastSpawnTime :: real
  lastDecorSpawnTime :: real
  isPlayingRef :: bool
  isPausedRef :: bool
  containerRef :: bool
  rendererRef :: bool
  cameraRef :: bool
  sceneRef :: "nat list option"
  lavaMaterial :: "real option"
  playerGroupRef :: "playerGroup option"
  nextHandle :: nat
  damageSounds :: nat

text \<open>The symbol \<^verbatim>\<open>detectGesture\<close> returns (utils/gameUtils, an external collaborator).\<close>

datatype gesture = JUMP | LEFT | RIGHT | NONE

text \<open>The \<^verbatim>\<open>Math.random()\<close> draws of one \<^verbatim>\<open>spawnDecoration\<close> call and of one frame.\<close>

record decoDraws =
  r_jitter :: real
  r_side :: real
  r_offset :: real
  r_kind :: real
  r_did :: real
  r_rotation :: real

record draws =
  r_lane :: real
  r_oid :: real
  r_decor0 :: decoDraws
  r_decor1 :: decoDraws

subsection \<open>Difficulty and materials (updateGameLogic, steps 1 and 2)\<close>

definition difficulty :: "engine \<Rightarrow> engine" where
  "difficulty s =
     s\<lparr>speedRef := min MAX_SPEED (START_SPEED + real_of_int (scoreRef s) / 50)\<rparr>"

definition animateMaterials :: "real \<Rightarrow> engine \<Rightarrow> engine" where
  "animateMaterials dt s =
     (case lavaMaterial s of
        None \<Rightarrow> s
      | Some off \<Rightarrow> s\<lparr>lavaMaterial := Some (off - dt * 0.2)\<rparr>)"

subsection \<open>Player movement (updateGameLogic, step 3)\<close>

definition jumpCurve :: "real \<Rightarrow> real" where
  "jumpCurve t = JUMP_HEIGHT * 4 * t * (1 - t)"

definition jumpPhysics :: "real \<Rightarrow> Player3D \<Rightarrow> Player3D" where
  "jumpPhysics time p =
     (if isJumping p then
        (let jumpProgress = (time - jumpStartTime p) / 1000 in
         if jumpProgress < JUMP_DURATION then
           (let t = jumpProgress / JUMP_DURATION in p\<lparr>yPosition := jumpCurve t\<rparr>)
         else p\<lparr>isJumping := False, yPosition := 0\<rparr>)
      else p)"

definition playerLogic :: "real \<Rightarrow> real \<Rightarrow> engine \<Rightarrow> engine" where
  "playerLogic dt time s =
     (case playerGroupRef s of
        None \<Rightarrow> s
      | Some g \<Rightarrow>
          (let targetX = (real_of_int (lane (playerState s)) - 1) * LANE_WIDTH;
               p = jumpPhysics time (playerState s);
               blink = (if time - lastHitTime s < INVINCIBILITY_DURATION
                        then \<lfloor>time / 100\<rfloor> mod 2 = 0 else True)
           in s\<lparr>playerState := p,
                playerGroupRef :=
                  Some (g\<lparr>pos_x := pos_x g + (targetX - pos_x g) * 10 * dt,
                           pos_y := yPosition p,
                           visible := blink\<rparr>)\<rparr>))"

subsection \<open>Spawning\<close>

text \<open>
  The spawn gates divide by \<^verbatim>\<open>speedRef.current / 15\<close>. In JavaScript a positive number
  divided by zero is \<^verbatim>\<open>Infinity\<close> and no number exceeds it, so at speed 0 nothing
  spawns; HOL's \<open>x / 0 = 0\<close> is kept out by the explicit test.
\<close>

definition spawnDue :: "real \<Rightarrow> real \<Rightarrow> real \<Rightarrow> bool" where
  "spawnDue time lastT spd =
     (spd / 15 \<noteq> 0 \<and> time - lastT > (SPAWN_INTERVAL_BASE * 1000) / (spd / 15))"

definition decorSpawnDue :: "real \<Rightarrow> real \<Rightarrow> real \<Rightarrow> bool" where
  "decorSpawnDue time lastT spd =
     (spd / 15 \<noteq> 0 \<and> time - lastT > (SPAWN_INTERVAL_BASE * 1000) / (spd / 15) / 8)"

definition spawnObstacle :: "real \<Rightarrow> real \<Rightarrow> real \<Rightarrow> engine \<Rightarrow> engine" where
  "spawnObstacle z rl rid s =
     (case sceneRef s of
        None \<Rightarrow> s
      | Some sc \<Rightarrow>
          (case lavaMaterial s of
             None \<Rightarrow> s
           | Some off \<Rightarrow>
               (let ln = \<lfloor>rl * 3\<rfloor>;
                    m = \<lparr>handle = nextHandle s,
                         m_x = (real_of_int ln - 1) * LANE_WIDTH, m_y = 0.5, m_z = z\<rparr>
                in s\<lparr>obstacles := obstacles s @
                        [\<lparr>o_id = rid, o_lane = ln, o_z = z,
                          o_type = ''lava_block'', o_passed = False\<rparr>],
                     sceneRef := Some (sc @ [handle m]),
                     obstacleMeshes := (obstacleMeshes s)(rid \<mapsto> m),
                     nextHandle := Suc (nextHandle s)\<rparr>)))"

definition decoKindOf :: "real \<Rightarrow> decoKind" where
  "decoKindOf rand = (if rand > 0.75 then Tree else if rand > 0.4 then Flower else Grass)"

definition spawnDecoration :: "real \<Rightarrow> decoDraws \<Rightarrow> engine \<Rightarrow> engine" where
  "spawnDecoration z r s =
     (case sceneRef s of
        None \<Rightarrow> s
      | Some sc \<Rightarrow>
          (let isLeft = (r_side r > 0.5);
               baseOffset = 8;
               randomOffset = r_offset r * 50;
               x = (if isLeft then - (baseOffset + randomOffset) else baseOffset + randomOffset);
               m = \<lparr>handle = nextHandle s, m_x = x, m_y = 0, m_z = z\<rparr>
           in s\<lparr>decorations := decorations s @
                   [\<lparr>d_id = r_did r, d_x = x, d_z = z, d_type = decoKindOf (r_kind r),
                     d_rotation = r_rotation r * pi * 2\<rparr>],
                sceneRef := Some (sc @ [handle m]),
                decorationMeshes := (decorationMeshes s)(r_did r \<mapsto> m),
                nextHandle := Suc (nextHandle s)\<rparr>))"

subsection \<open>Decorations (updateGameLogic, step 4)\<close>

text \<open>One iteration of \<^verbatim>\<open>decorationsRef.current.forEach\<close>, and the whole loop.\<close>

definition decorStep ::
  "real \<Rightarrow> Decoration3D \<Rightarrow> engine \<times> ident list \<Rightarrow> Decoration3D \<times> engine \<times> ident list" where
  "decorStep dt dec sr =
     (case sr of (s, rem) \<Rightarrow>
       (let dec' = dec\<lparr>d_z := d_z dec + speedRef s * dt\<rparr>;
            s' = (case decorationMeshes s (d_id dec') of
                    None \<Rightarrow> s
                  | Some m \<Rightarrow>
                      s\<lparr>decorationMeshes :=
                          (decorationMeshes s)(d_id dec' \<mapsto> m\<lparr>m_z := d_z dec'\<rparr>)\<rparr>)
        in (dec', s', if d_z dec' > 20 then rem @ [d_id dec'] else rem)))"

fun decorLoop ::
  "real \<Rightarrow> Decoration3D list \<Rightarrow> engine \<times> ident list \<Rightarrow>
   Decoration3D list \<times> engine \<times> ident list" where
  "decorLoop dt [] sr = ([], sr)"
| "decorLoop dt (dec # rest) sr =
     (case decorStep dt dec sr of
        (dec', sr') \<Rightarrow>
          (case decorLoop dt rest sr' of
             (rest', sr'') \<Rightarrow> (dec' # rest', sr'')))"

fun removeDecorationMeshes :: "ident list \<Rightarrow> engine \<Rightarrow> engine" where
  "removeDecorationMeshes [] s = s"
| "removeDecorationMeshes (i # ids) s =
     removeDecorationMeshes ids
       ((case (decorationMeshes s i, sceneRef s) of
           (Some m, Some sc) \<Rightarrow> s\<lparr>sceneRef := Some (removeAll (handle m) sc)\<rparr>
         | _ \<Rightarrow> s)
        \<lparr>decorationMeshes := (decorationMeshes s)(i := None)\<rparr>)"

definition decorLogic :: "real \<Rightarrow> real \<Rightarrow> draws \<Rightarrow> engine \<Rightarrow> engine" where
  "decorLogic dt time rnd s =
     (let s1 = (if decorSpawnDue time (lastDecorSpawnTime s) (speedRef s)
                then (spawnDecoration (SPAWN_DISTANCE - r_jitter (r_decor1 rnd) * 20) (r_decor1 rnd)
                       (spawnDecoration (SPAWN_DISTANCE - r_jitter (r_decor0 rnd) * 20)
                          (r_decor0 rnd) s))
                     \<lparr>lastDecorSpawnTime := time\<rparr>
                else s)
      in case decorLoop dt (decorations s1) (s1, []) of
           (decs, s2, rem) \<Rightarrow>
             (removeDecorationMeshes rem s2)
               \<lparr>decorations := filter (\<lambda>d. d_id d \<notin> set rem) decs\<rparr>)"

subsection \<open>Obstacles, collision and scoring (updateGameLogic, step 5)\<close>

text \<open>
  The updater passed to \<^verbatim>\<open>setGameState\<close>; \<open>sc\<close> is \<^verbatim>\<open>scoreRef.current\<close> as the updater
  reads it. The model applies the updater at the call.
\<close>

definition loseLife :: "int \<Rightarrow> GameState \<Rightarrow> GameState" where
  "loseLife sc prev =
     (let newLives = lives prev - 1 in
      if newLives \<le> 0 then prev\<lparr>lives := 0, gameOver := True, score := sc\<rparr>
      else prev\<lparr>lives := newLives\<rparr>)"

text \<open>The collision block of the loop body; \<open>now\<close> is the \<^verbatim>\<open>performance.now()\<close> it reads.\<close>

definition collision :: "real \<Rightarrow> Obstacle3D \<Rightarrow> engine \<Rightarrow> engine" where
  "collision now obs s =
     (if o_z obs > - 1 \<and> o_z obs < 1 then
        if o_lane obs = lane (playerState s) then
          if yPosition (playerState s) < 1.1 then
            if now - lastHitTime s > INVINCIBILITY_DURATION then
              s\<lparr>damageSounds := Suc (damageSounds s),
                lastHitTime := now,
                gameState := loseLife (scoreRef s) (gameState s)\<rparr>
            else s
          else s
        else s
      else s)"

text \<open>
  One iteration of \<^verbatim>\<open>obstaclesRef.current.forEach\<close>: the obstacle as mutated, the refs
  and the ids collected in \<^verbatim>\<open>obstaclesToRemove\<close>.
\<close>

definition obstacleStep ::
  "real \<Rightarrow> real \<Rightarrow> Obstacle3D \<Rightarrow> engine \<times> ident list \<Rightarrow>
   Obstacle3D \<times> engine \<times> ident list" where
  "obstacleStep dt now obs sr =
     (case sr of (s, rem) \<Rightarrow>
       (let obs1 = obs\<lparr>o_z := o_z obs + speedRef s * dt\<rparr>;
            s1 = (case obstacleMeshes s (o_id obs1) of
                    None \<Rightarrow> s
                  | Some m \<Rightarrow>
                      s\<lparr>obstacleMeshes :=
                          (obstacleMeshes s)(o_id obs1 \<mapsto> m\<lparr>m_z := o_z obs1\<rparr>)\<rparr>);
            s2 = collision now obs1 s1
        in if o_z obs1 > 5 then
             (if \<not> o_passed obs1
              then (obs1\<lparr>o_passed := True\<rparr>, s2\<lparr>scoreRef := scoreRef s2 + 10\<rparr>,
                    rem @ [o_id obs1])
              else (obs1, s2, rem @ [o_id obs1]))
           else (obs1, s2, rem)))"

text \<open>
  The whole \<^verbatim>\<open>forEach\<close>; \<open>clock k\<close> is what \<^verbatim>\<open>performance.now()\<close> returns while the
  obstacle at index \<open>k\<close> is visited.
\<close>

fun obstacleLoop ::
  "real \<Rightarrow> (nat \<Rightarrow> real) \<Rightarrow> nat \<Rightarrow> Obstacle3D list \<Rightarrow> engine \<times> ident list \<Rightarrow>
   Obstacle3D list \<times> engine \<times> ident list" where
  "obstacleLoop dt clock k [] sr = ([], sr)"
| "obstacleLoop dt clock k (obs # rest) sr =
     (case obstacleStep dt (clock k) obs sr of
        (obs', sr') \<Rightarrow>
          (case obstacleLoop dt clock (Suc k) rest sr' of
             (rest', sr'') \<Rightarrow> (obs' # rest', sr'')))"

fun removeObstacleMeshes :: "ident list \<Rightarrow> engine \<Rightarrow> engine" where
  "removeObstacleMeshes [] s = s"
| "removeObstacleMeshes (i # ids) s =
     removeObstacleMeshes ids
       ((case (obstacleMeshes s i, sceneRef s) of
           (Some m, Some sc) \<Rightarrow> s\<lparr>sceneRef := Some (removeAll (handle m) sc)\<rparr>
         | _ \<Rightarrow> s)
        \<lparr>obstacleMeshes := (obstacleMeshes s)(i := None)\<rparr>)"

definition obstacleSpawn :: "real \<Rightarrow> draws \<Rightarrow> engine \<Rightarrow> engine" where
  "obstacleSpawn time rnd s =
     (if spawnDue time (lastSpawnTime s) (speedRef s)
      then (spawnObstacle SPAWN_DISTANCE (r_lane rnd) (r_oid rnd) s)\<lparr>lastSpawnTime := time\<rparr>
      else s)"

definition obstacleSweep :: "real \<Rightarrow> (nat \<Rightarrow> real) \<Rightarrow> engine \<Rightarrow> engine" where
  "obstacleSweep dt clock s =
     (case obstacleLoop dt clock 0 (obstacles s) (s, []) of
        (obs, s2, rem) \<Rightarrow>
          (removeObstacleMeshes rem s2)
            \<lparr>obstacles := filter (\<lambda>ob. o_id ob \<notin> set rem) obs\<rparr>)"

definition obstacleLogic :: "real \<Rightarrow> real \<Rightarrow> (nat \<Rightarrow> real) \<Rightarrow> draws \<Rightarrow> engine \<Rightarrow> engine" where
  "obstacleLogic dt time clock rnd s = obstacleSweep dt clock (obstacleSpawn time rnd s)"

subsection \<open>updateGameLogic and the animation loop\<close>

text \<open>
  \<^verbatim>\<open>updateGameLogic(dt, time)\<close> runs its five steps in order; \<open>beforeObstacles\<close> is the
  frame up to and including the obstacle spawn, \<open>obstacleSweep\<close> the obstacle loop with the
  removal that follows it. \<open>time\<close> is the timestamp the animation frame is called with,
  \<open>clock\<close> what \<^verbatim>\<open>performance.now()\<close> returns inside the obstacle loop.
\<close>

definition beforeObstacles :: "real \<Rightarrow> real \<Rightarrow> draws \<Rightarrow> engine \<Rightarrow> engine" where
  "beforeObstacles dt time rnd s =
     obstacleSpawn time rnd
       (decorLogic dt time rnd (playerLogic dt time (animateMaterials dt (difficulty s))))"

definition updateGameLogic ::
  "real \<Rightarrow> real \<Rightarrow> (nat \<Rightarrow> real) \<Rightarrow> draws \<Rightarrow> engine \<Rightarrow> engine" where
  "updateGameLogic dt time clock rnd s =
     obstacleSweep dt clock (beforeObstacles dt time rnd s)"

text \<open>The callback \<^verbatim>\<open>animate\<close> of the animation-loop effect (rendering left out).\<close>

definition animate :: "real \<Rightarrow> (nat \<Rightarrow> real) \<Rightarrow> draws \<Rightarrow> engine \<Rightarrow> engine" where
  "animate time clock rnd s =
     (if \<not> isPlayingRef s then s
      else if isPausedRef s then s\<lparr>lastTime := time\<rparr>
      else (let delta = (time - lastTime s) / 1000
            in updateGameLogic delta time clock rnd (s\<lparr>lastTime := time\<rparr>)))"

subsection \<open>Gesture input\<close>

definition applyGesture :: "gesture \<Rightarrow> real \<Rightarrow> Player3D \<Rightarrow> Player3D" where
  "applyGesture g now p =
     (if g = JUMP \<and> \<not> isJumping p then p\<lparr>isJumping := True, jumpStartTime := now\<rparr>
      else if g = LEFT then (if lane p > 0 then p\<lparr>lane := lane p - 1\<rparr> else p)
      else if g = RIGHT then (if lane p < 2 then p\<lparr>lane := lane p + 1\<rparr> else p)
      else p)"

text \<open>
  The input effect; \<open>pose\<close> tells whether \<^verbatim>\<open>poseData\<close> is set, \<open>g\<close> is what
  \<^verbatim>\<open>detectGesture\<close> returns for it at \<open>now\<close>.
\<close>

definition inputEffect :: "bool \<Rightarrow> gesture \<Rightarrow> real \<Rightarrow> engine \<Rightarrow> engine" where
  "inputEffect pose g now s =
     (if \<not> isPlaying (gameState s) \<or> gameOver (gameState s) \<or> isPaused (gameState s) \<or> \<not> pose
      then s
      else s\<lparr>playerState := applyGesture g now (playerState s)\<rparr>)"

subsection \<open>The effects around the loop, and App.tsx\<close>

text \<open>
  The first effect builds a new scene and resets the refs of a game; \<open>now\<close> is its clock
  reading. It resets neither the two mesh maps nor the two spawn times. The cleanup of
  the animation-loop effect exists only after a run that passed both guards of the
  effect; after any other run \<open>isPlayingRef\<close> is false already, so \<open>loopCleanup\<close> may
  write it in every case.
\<close>

definition initEffect :: "real \<Rightarrow> engine \<Rightarrow> engine" where
  "initEffect now s =
     (if \<not> containerRef s then s
      else s\<lparr>sceneRef := Some [], cameraRef := True, rendererRef := True,
             lavaMaterial := Some 0,
             playerGroupRef := Some \<lparr>pos_x = 0, pos_y = 0, visible = True\<rparr>,
             lastTime := now,
             playerState := \<lparr>lane = 1, isJumping = False, jumpStartTime = 0, yPosition = 0\<rparr>,
             obstacles := [], decorations := [], scoreRef := 0,
             speedRef := START_SPEED, lastHitTime := 0\<rparr>)"

definition loopCleanup :: "engine \<Rightarrow> engine" where
  "loopCleanup s = s\<lparr>isPlayingRef := False\<rparr>"

definition loopEffect :: "real \<Rightarrow> engine \<Rightarrow> engine" where
  "loopEffect now s =
     (if \<not> isPlaying (gameState s) \<or> gameOver (gameState s) then s
      else if \<not> rendererRef s \<or> sceneRef s = None \<or> \<not> cameraRef s then s
      else s\<lparr>isPlayingRef := True, isPausedRef := isPaused (gameState s), lastTime := now\<rparr>)"

definition pauseEffect :: "engine \<Rightarrow> engine" where
  "pauseEffect s = s\<lparr>isPausedRef := isPaused (gameState s)\<rparr>"

text \<open>
  What React runs after a render in which \<^verbatim>\<open>gameState\<close> changed from \<open>prev\<close>: the
  cleanups and bodies of the effects whose dependencies changed, in the order the
  component declares them. \<open>n1\<close> and \<open>n2\<close> are the clock readings of the two effects.
  The model commits a state change before the next animation frame.
\<close>

definition commitEffects :: "GameState \<Rightarrow> real \<Rightarrow> real \<Rightarrow> engine \<Rightarrow> engine" where
  "commitEffects prev n1 n2 s =
     (let s1 = (if isPlaying (gameState s) \<noteq> isPlaying prev \<or>
                   gameOver (gameState s) \<noteq> gameOver prev
                then loopEffect n2 (initEffect n1 (loopCleanup s))
                else s)
      in if isPaused (gameState s) \<noteq> isPaused prev then pauseEffect s1 else s1)"

definition handleStart :: "GameState \<Rightarrow> GameState" where
  "handleStart prev =
     prev\<lparr>isPlaying := True, isPaused := False, gameOver := False, score := 0, lives := 3\<rparr>"

definition handleRestart :: "GameState \<Rightarrow> GameState" where
  "handleRestart prev =
     prev\<lparr>isPlaying := True, isPaused := False, gameOver := False, score := 0, lives := 3\<rparr>"

definition handlePause :: "GameState \<Rightarrow> GameState" where
  "handlePause prev = prev\<lparr>isPaused := True\<rparr>"

definition handleResume :: "GameState \<Rightarrow> GameState" where
  "handleResume prev = prev\<lparr>isPaused := False\<rparr>"

definition onCameraReady :: "GameState \<Rightarrow> GameState" where
  "onCameraReady prev = prev\<lparr>cameraReady := True\<rparr>"

text \<open>The state of \<^verbatim>\<open>useState\<close> and of the \<^verbatim>\<open>useRef\<close>s at the first render.\<close>

definition initialGameState :: GameState where
  "initialGameState =
     \<lparr>isPlaying = False, isPaused = False, score = 0, gameOver = False, speed = 0,
      cameraReady = False, lastLaneChange = 0, lives = 3\<rparr>"

definition initialEngine :: engine where
  "initialEngine =
     \<lparr>gameState = initialGameState,
      playerState = \<lparr>lane = 1, isJumping = False, jumpStartTime = 0, yPosition = 0\<rparr>,
      lastHitTime = 0, obstacles = [], obstacleMeshes = Map.empty,
      decorations = [], decorationMeshes = Map.empty,
      speedRef = START_SPEED, scoreRef = 0, lastTime = 0, lastSpawnTime = 0,
      lastDecorSpawnTime = 0, isPlayingRef = False, isPausedRef = False,
      containerRef = True, rendererRef = False, cameraRef = False, sceneRef = None,
      lavaMaterial = None, playerGroupRef = None, nextHandle = 0, damageSounds = 0\<rparr>"

text \<open>
  A session is the list of things that happen to the mounted component: button clicks
  (each enabled as App.tsx renders its button), animation frames and pose updates.
  A click calls the setter of \<open>gameState\<close> with one of the handlers' updaters, and React
  commits. The input effect runs on every pose update and again when one of its three
  flags changes: each such run with \<^verbatim>\<open>poseData\<close> set is a \<open>Pose\<close> event, and a run
  without it changes nothing.
\<close>

datatype event =
    Start real real
  | Restart real real
  | Pause
  | Resume
  | CameraReady
  | Frame real "nat \<Rightarrow> real" draws real real
  | Pose gesture real

definition setGameState :: "(GameState \<Rightarrow> GameState) \<Rightarrow> real \<Rightarrow> real \<Rightarrow> engine \<Rightarrow> engine" where
  "setGameState f n1 n2 s = commitEffects (gameState s) n1 n2 (s\<lparr>gameState := f (gameState s)\<rparr>)"

fun step :: "engine \<Rightarrow> event \<Rightarrow> engine" where
  "step s (Start n1 n2) =
     (if (\<not> isPlaying (gameState s) \<or> gameOver (gameState s)) \<and> \<not> gameOver (gameState s) \<and>
         cameraReady (gameState s)
      then setGameState handleStart n1 n2 s else s)"
| "step s (Restart n1 n2) =
     (if (\<not> isPlaying (gameState s) \<or> gameOver (gameState s)) \<and> gameOver (gameState s)
      then setGameState handleRestart n1 n2 s else s)"
| "step s Pause =
     (if isPlaying (gameState s) \<and> \<not> gameOver (gameState s) \<and> \<not> isPaused (gameState s)
      then setGameState handlePause 0 0 s else s)"
| "step s Resume =
     (if isPlaying (gameState s) \<and> isPaused (gameState s) \<and> \<not> gameOver (gameState s)
      then setGameState handleResume 0 0 s else s)"
| "step s CameraReady = setGameState onCameraReady 0 0 s"
| "step s (Frame time clock rnd n1 n2) =
     commitEffects (gameState s) n1 n2 (animate time clock rnd s)"
| "step s (Pose g now) = inputEffect True g now s"

definition mounted :: "real \<Rightarrow> engine" where
  "mounted n1 = pauseEffect (loopEffect n1 (initEffect n1 initialEngine))"

definition session :: "real \<Rightarrow> event list \<Rightarrow> engine" where
  "session n1 evs = foldl step (mounted n1) evs"

text \<open>The spec's clamp, written from its words for comparison with the code.\<close>

definition clamp :: "real \<Rightarrow> real \<Rightarrow> real \<Rightarrow> real" where
  "clamp x lo hi = max lo (min hi x)"

subsection \<open>Notions used to state the properties\<close>

text \<open>
  Parts of the loop bodies under names of their own. \<open>moved\<close> is the first assignment of
  the obstacle loop's body and \<open>stepped\<close> the obstacle as the body leaves it; \<open>retiring\<close>
  and \<open>awarded\<close> are the two tests of its last block; \<open>hitCandidate\<close> is the conjunction of
  the three nested tests the collision block makes before it reads the clock. \<open>spawned\<close>
  and \<open>spawnedDecor\<close> are the records the two spawn functions push, and
  \<open>frameObstacles\<close> the obstacles of a frame as its collision checks see them.
\<close>

definition moved :: "real \<Rightarrow> real \<Rightarrow> Obstacle3D \<Rightarrow> Obstacle3D" where
  "moved spd dt ob = ob\<lparr>o_z := o_z ob + spd * dt\<rparr>"

definition stepped :: "real \<Rightarrow> real \<Rightarrow> Obstacle3D \<Rightarrow> Obstacle3D" where
  "stepped spd dt ob =
     (if o_z ob + spd * dt > 5 \<and> \<not> o_passed ob
      then (moved spd dt ob)\<lparr>o_passed := True\<rparr> else moved spd dt ob)"

definition retiring :: "real \<Rightarrow> real \<Rightarrow> Obstacle3D \<Rightarrow> bool" where
  "retiring spd dt ob = (o_z ob + spd * dt > 5)"

definition awarded :: "real \<Rightarrow> real \<Rightarrow> Obstacle3D \<Rightarrow> bool" where
  "awarded spd dt ob = (o_z ob + spd * dt > 5 \<and> \<not> o_passed ob)"

definition hitCandidate :: "Player3D \<Rightarrow> Obstacle3D \<Rightarrow> bool" where
  "hitCandidate p ob = (- 1 < o_z ob \<and> o_z ob < 1 \<and> o_lane ob = lane p \<and> yPosition p < 1.1)"

definition spawned :: "draws \<Rightarrow> Obstacle3D" where
  "spawned rnd =
     \<lparr>o_id = r_oid rnd, o_lane = \<lfloor>r_lane rnd * 3\<rfloor>, o_z = SPAWN_DISTANCE,
      o_type = ''lava_block'', o_passed = False\<rparr>"

definition spawnedDecor :: "decoDraws \<Rightarrow> Decoration3D" where
  "spawnedDecor r =
     \<lparr>d_id = r_did r,
      d_x = (if r_side r > 0.5 then - (8 + r_offset r * 50) else 8 + r_offset r * 50),
      d_z = SPAWN_DISTANCE - r_jitter r * 20, d_type = decoKindOf (r_kind r),
      d_rotation = r_rotation r * pi * 2\<rparr>"

definition frameObstacles :: "real \<Rightarrow> real \<Rightarrow> draws \<Rightarrow> engine \<Rightarrow> Obstacle3D list" where
  "frameObstacles dt time rnd s =
     map (moved (speedRef (beforeObstacles dt time rnd s)) dt)
       (obstacles (beforeObstacles dt time rnd s))"

subsection \<open>What a loop may write\<close>

text \<open>
  \<open>loopFrame\<close> and \<open>decorFrame\<close> say which refs the two loops may write. \<open>forgetHits\<close>
  blanks what a hit writes, and \<open>quietStep\<close> is the obstacle loop's body without its
  collision block; \<open>setGroup\<close> replaces the player's group.
\<close>

definition loopFrame :: "engine \<Rightarrow> engine \<Rightarrow> bool" where
  "loopFrame s s' = (s' = s\<lparr>obstacleMeshes := obstacleMeshes s', damageSounds := damageSounds s',
       lastHitTime := lastHitTime s', gameState := gameState s', scoreRef := scoreRef s'\<rparr>)"

definition decorFrame :: "engine \<Rightarrow> engine \<Rightarrow> bool" where
  "decorFrame s s' = (s' = s\<lparr>decorationMeshes := decorationMeshes s'\<rparr>)"

definition forgetHits :: "engine \<Rightarrow> engine" where
  "forgetHits s =
     s\<lparr>lastHitTime := 0, damageSounds := 0,
       gameState := (gameState s)\<lparr>lives := 0, gameOver := False, score := 0\<rparr>\<rparr>"

definition quietStep :: "real \<Rightarrow> Obstacle3D \<Rightarrow> engine \<Rightarrow> engine" where
  "quietStep dt ob u =
     (case obstacleMeshes u (o_id ob) of
        None \<Rightarrow> u
      | Some m \<Rightarrow> u\<lparr>obstacleMeshes :=
                      (obstacleMeshes u)(o_id ob \<mapsto> m\<lparr>m_z := o_z ob + speedRef u * dt\<rparr>)\<rparr>)
     \<lparr>scoreRef := scoreRef u + (if awarded (speedRef u) dt ob then 10 else 0)\<rparr>"

definition setGroup :: "playerGroup option \<Rightarrow> engine \<Rightarrow> engine" where
  "setGroup G s = s\<lparr>playerGroupRef := G\<rparr>"

subsection \<open>Invariants of a session\<close>

text \<open>
  \<open>drawnIds\<close> lists the id draws of the frames of a session. \<open>monotoneFrames\<close> says that
  no frame of a session has a time before the last recorded time; \<open>nearestFirst\<close> that
  the obstacle list is ordered from the nearest obstacle to the farthest, and \<open>reported\<close>
  that a game-over state shows the score accumulator's value.
\<close>

definition livesInv :: "GameState \<Rightarrow> bool" where
  "livesInv g = (0 \<le> lives g \<and> lives g \<le> 3 \<and> (gameOver g \<longleftrightarrow> lives g = 0))"

definition sessionInv :: "engine \<Rightarrow> bool" where
  "sessionInv s =
     (livesInv (gameState s) \<and>
      (isPlayingRef s \<longrightarrow> isPlaying (gameState s) \<and> \<not> gameOver (gameState s)) \<and>
      lane (playerState s) \<in> {0, 1, 2} \<and>
      0 \<le> scoreRef s)"

definition obstaclesInv :: "engine \<Rightarrow> bool" where
  "obstaclesInv s = (\<forall>ob\<in>set (obstacles s). \<not> o_passed ob \<and> o_z ob \<le> 5)"

fun drawnIds :: "event list \<Rightarrow> ident list" where
  "drawnIds [] = []"
| "drawnIds (Frame time clock rnd n1 n2 # es) = r_oid rnd # drawnIds es"
| "drawnIds (e # es) = drawnIds es"

definition idsInv :: "ident list \<Rightarrow> engine \<Rightarrow> bool" where
  "idsInv drawn s =
     (distinct (map o_id (obstacles s)) \<and> set (map o_id (obstacles s)) \<subseteq> set drawn)"

definition nearestFirst :: "Obstacle3D list \<Rightarrow> bool" where
  "nearestFirst xs = sorted_wrt (\<lambda>a b. o_z b \<le> o_z a) xs"

definition reported :: "engine \<Rightarrow> bool" where
  "reported s = (gameOver (gameState s) \<longrightarrow> score (gameState s) = scoreRef s)"

definition orderInv :: "engine \<Rightarrow> bool" where
  "orderInv s =
     (nearestFirst (obstacles s) \<and> (\<forall>ob\<in>set (obstacles s). SPAWN_DISTANCE \<le> o_z ob) \<and>
      0 \<le> scoreRef s)"

fun monotoneFrames :: "engine \<Rightarrow> event list \<Rightarrow> bool" where
  "monotoneFrames s [] = True"
| "monotoneFrames s (e # es) =
     ((case e of Frame time clock rnd n1 n2 \<Rightarrow> lastTime s \<le> time | _ \<Rightarrow> True) \<and>
      monotoneFrames (step s e) es)"

subsection \<open>Example states and sessions\<close>

text \<open>
  Concrete inputs for the witnesses and counterexamples: draws, a running game with one
  obstacle just ahead of the player in the player's lane, and sessions played from the
  mounted component. \<open>hitClock now\<close> is a clock that reads \<open>now\<close> at every obstacle.
\<close>

definition exampleDecor :: decoDraws where
  "exampleDecor = \<lparr>r_jitter = 0.5, r_side = 0.25, r_offset = 0.5, r_kind = 0.5,
                    r_did = 0.75, r_rotation = 0.5\<rparr>"

definition exampleDraws :: draws where
  "exampleDraws = \<lparr>r_lane = 0.5, r_oid = 0.125, r_decor0 = exampleDecor,
                    r_decor1 = exampleDecor\<lparr>r_did := 0.875\<rparr>\<rparr>"

definition exampleObstacle :: Obstacle3D where
  "exampleObstacle =
     \<lparr>o_id = 0.25, o_lane = 1, o_z = - 0.5, o_type = ''lava_block'', o_passed = False\<rparr>"

definition exampleEngine :: engine where
  "exampleEngine =
     (mounted 0)
       \<lparr>gameState := handleStart (onCameraReady initialGameState),
        isPlayingRef := True,
        obstacles := [exampleObstacle],
        obstacleMeshes := [0.25 \<mapsto> \<lparr>handle = 0, m_x = 0, m_y = 0.5, m_z = - 0.5\<rparr>],
        sceneRef := Some [0], nextHandle := 1,
        lastTime := 5000, lastSpawnTime := 5000, lastDecorSpawnTime := 5000\<rparr>"

definition exampleJumping :: engine where
  "exampleJumping =
     exampleEngine\<lparr>playerState :=
       \<lparr>lane = 1, isJumping = True, jumpStartTime = 4650, yPosition = 0\<rparr>\<rparr>"

definition examplePassing :: engine where
  "examplePassing = exampleEngine\<lparr>obstacles := [exampleObstacle\<lparr>o_z := 4.75\<rparr>]\<rparr>"

definition exampleDecorated :: engine where
  "exampleDecorated =
     exampleEngine\<lparr>decorations :=
       [\<lparr>d_id = 0.75, d_x = 33, d_z = - 70, d_type = Flower, d_rotation = 0\<rparr>]\<rparr>"

definition hitClock :: "real \<Rightarrow> nat \<Rightarrow> real" where
  "hitClock now k = now"

definition exampleSession :: "event list" where
  "exampleSession =
     [CameraReady, Start 0 0,
      Frame 4000 (hitClock 4000) exampleDraws 4000 4000,
      Frame 4000 (hitClock 7000) exampleDraws 7000 7000,
      Frame 4000 (hitClock 10000) exampleDraws 10000 10000]"

definition collidingSession :: "event list" where
  "collidingSession =
     [CameraReady, Start 0 0,
      Frame 2000 (hitClock 2000) exampleDraws 2000 2000,
      Frame 4000 (hitClock 2000) exampleDraws 4000 4000]"

definition scoringSession :: "event list" where
  "scoringSession =
     [CameraReady, Start 0 0,
      Frame 4000 (hitClock 4000) exampleDraws 4000 4000,
      Frame 6000 (hitClock 6000) (exampleDraws\<lparr>r_oid := 0.25\<rparr>) 6000 6000,
      Frame 8000 (hitClock 8000) (exampleDraws\<lparr>r_oid := 0.375\<rparr>) 8000 8000]"

section \<open>Properties\<close>

subsection \<open>What each phase of a frame writes\<close>

lemma loopFrame_refl: "loopFrame s s"
  by (simp add: loopFrame_def)

lemma loopFrame_trans: "loopFrame s s' \<Longrightarrow> loopFrame s' s'' \<Longrightarrow> loopFrame s s''"
  by (cases s; cases s'; cases s'') (simp add: loopFrame_def)

lemma loopFrame_fields:
  assumes "loopFrame s s'"
  shows "playerState s' = playerState s" "speedRef s' = speedRef s" "obstacles s' = obstacles s"
    "decorations s' = decorations s" "decorationMeshes s' = decorationMeshes s"
    "lastTime s' = lastTime s" "lastSpawnTime s' = lastSpawnTime s"
    "lastDecorSpawnTime s' = lastDecorSpawnTime s" "isPlayingRef s' = isPlayingRef s"
    "isPausedRef s' = isPausedRef s" "containerRef s' = containerRef s"
    "rendererRef s' = rendererRef s" "cameraRef s' = cameraRef s" "sceneRef s' = sceneRef s"
    "lavaMaterial s' = lavaMaterial s" "playerGroupRef s' = playerGroupRef s"
    "nextHandle s' = nextHandle s"
  using assms by (cases s; cases s'; simp add: loopFrame_def)+

lemma collision_eq:
  "collision now ob s =
     (if hitCandidate (playerState s) ob \<and> now - lastHitTime s > INVINCIBILITY_DURATION
      then s\<lparr>damageSounds := Suc (damageSounds s), lastHitTime := now,
             gameState := loseLife (scoreRef s) (gameState s)\<rparr>
      else s)"
  by (simp add: collision_def hitCandidate_def)

lemma obstacleStep_frame:
  "obstacleStep dt now ob (s, rem) = (ob', s', rem') \<Longrightarrow> loopFrame s s'"
  by (auto simp: obstacleStep_def loopFrame_def collision_def Let_def split: option.splits if_splits)

lemma obstacleLoop_frame:
  "obstacleLoop dt clock k xs (s, rem) = (ys, s', rem') \<Longrightarrow> loopFrame s s'"
proof (induction xs arbitrary: k s rem ys s' rem')
  case Nil
  then show ?case by (simp add: loopFrame_refl)
next
  case (Cons ob xs)
  obtain ob1 s1 rem1 where st: "obstacleStep dt (clock k) ob (s, rem) = (ob1, s1, rem1)"
    by (cases "obstacleStep dt (clock k) ob (s, rem)") auto
  obtain ys2 s2 rem2 where lp: "obstacleLoop dt clock (Suc k) xs (s1, rem1) = (ys2, s2, rem2)"
    by (cases "obstacleLoop dt clock (Suc k) xs (s1, rem1)") auto
  from Cons.prems st lp have "s' = s2" by simp
  with obstacleStep_frame[OF st] Cons.IH[OF lp] show ?case
    by (auto intro: loopFrame_trans)
qed

lemma obstacleStep_hit:
  assumes "obstacleStep dt now ob (s, rem) = (ob', s', rem')"
  shows "if hitCandidate (playerState s) (moved (speedRef s) dt ob) \<and>
            now - lastHitTime s > INVINCIBILITY_DURATION
         then damageSounds s' = Suc (damageSounds s) \<and> lastHitTime s' = now \<and>
              gameState s' = loseLife (scoreRef s) (gameState s)
         else damageSounds s' = damageSounds s \<and> lastHitTime s' = lastHitTime s \<and>
              gameState s' = gameState s"
  using assms
  by (auto simp: obstacleStep_def collision_eq moved_def hitCandidate_def Let_def
           split: option.splits if_splits)

lemma obstacleStep_score:
  assumes "obstacleStep dt now ob (s, rem) = (ob', s', rem')"
  shows "scoreRef s' =
           scoreRef s + (if o_z ob + speedRef s * dt > 5 \<and> \<not> o_passed ob then 10 else 0)"
  using assms
  by (auto simp: obstacleStep_def collision_def Let_def split: option.splits if_splits)

lemma obstacleLoop_score_mono:
  "obstacleLoop dt clock k xs (s, rem) = (ys, s', rem') \<Longrightarrow> scoreRef s \<le> scoreRef s'"
proof (induction xs arbitrary: k s rem ys s' rem')
  case Nil
  then show ?case by simp
next
  case (Cons ob xs)
  obtain ob1 s1 rem1 where st: "obstacleStep dt (clock k) ob (s, rem) = (ob1, s1, rem1)"
    by (cases "obstacleStep dt (clock k) ob (s, rem)") auto
  obtain ys2 s2 rem2 where lp: "obstacleLoop dt clock (Suc k) xs (s1, rem1) = (ys2, s2, rem2)"
    by (cases "obstacleLoop dt clock (Suc k) xs (s1, rem1)") auto
  from Cons.prems st lp have "s' = s2" by simp
  moreover have "scoreRef s \<le> scoreRef s1" using obstacleStep_score[OF st] by simp
  ultimately show ?case using Cons.IH[OF lp] by simp
qed

lemma INVINCIBILITY_nonneg: "\<not> now - now > INVINCIBILITY_DURATION"
  by (simp add: INVINCIBILITY_DURATION_def)

lemma obstacleLoop_hits:
  assumes "obstacleLoop dt (\<lambda>_. now) k xs (s, rem) = (ys, s', rem')"
  shows "if (\<exists>ob\<in>set xs. hitCandidate (playerState s) (moved (speedRef s) dt ob)) \<and>
            now - lastHitTime s > INVINCIBILITY_DURATION
         then damageSounds s' = Suc (damageSounds s) \<and> lastHitTime s' = now \<and>
              (\<exists>sc. scoreRef s \<le> sc \<and> sc \<le> scoreRef s' \<and>
                    gameState s' = loseLife sc (gameState s))
         else damageSounds s' = damageSounds s \<and> lastHitTime s' = lastHitTime s \<and>
              gameState s' = gameState s"
  using assms
proof (induction xs arbitrary: k s rem ys s' rem')
  case Nil
  then show ?case by simp
next
  case (Cons ob xs)
  obtain ob1 s1 rem1 where st: "obstacleStep dt now ob (s, rem) = (ob1, s1, rem1)"
    by (cases "obstacleStep dt now ob (s, rem)") auto
  obtain ys2 s2 rem2 where lp: "obstacleLoop dt (\<lambda>_. now) (Suc k) xs (s1, rem1) = (ys2, s2, rem2)"
    by (cases "obstacleLoop dt (\<lambda>_. now) (Suc k) xs (s1, rem1)") auto
  from Cons.prems st lp have s': "s' = s2" by simp
  note fr = loopFrame_fields(1,2)[OF obstacleStep_frame[OF st]]
  note h1 = obstacleStep_hit[OF st]
  note sc1 = obstacleStep_score[OF st]
  note sc2 = obstacleLoop_score_mono[OF lp]
  note ih = Cons.IH[OF lp]
  show ?case
  proof (cases "now - lastHitTime s > INVINCIBILITY_DURATION")
    case False
    with h1 have "lastHitTime s1 = lastHitTime s" "damageSounds s1 = damageSounds s"
      "gameState s1 = gameState s" by auto
    with ih False show ?thesis by (simp add: s')
  next
    case vulnerable: True
    show ?thesis
    proof (cases "hitCandidate (playerState s) (moved (speedRef s) dt ob)")
      case True
      with h1 vulnerable have a: "lastHitTime s1 = now" "damageSounds s1 = Suc (damageSounds s)"
        "gameState s1 = loseLife (scoreRef s) (gameState s)" by auto
      with ih INVINCIBILITY_nonneg have "damageSounds s2 = Suc (damageSounds s)"
        "lastHitTime s2 = now" "gameState s2 = loseLife (scoreRef s) (gameState s)" by auto
      moreover have "scoreRef s \<le> scoreRef s2" using sc1 sc2 by (simp split: if_splits)
      ultimately show ?thesis using True vulnerable by (auto simp: s')
    next
      case False
      with h1 have b: "lastHitTime s1 = lastHitTime s" "damageSounds s1 = damageSounds s"
        "gameState s1 = gameState s" by auto
      have c: "scoreRef s \<le> scoreRef s1" using sc1 by simp
      show ?thesis
      proof (cases "\<exists>ob\<in>set xs. hitCandidate (playerState s) (moved (speedRef s) dt ob)")
        case True
        with ih b vulnerable fr obtain sc where "damageSounds s2 = Suc (damageSounds s)"
          "lastHitTime s2 = now" "scoreRef s1 \<le> sc" "sc \<le> scoreRef s2"
          "gameState s2 = loseLife sc (gameState s)" by auto
        with c True vulnerable show ?thesis by (auto simp: s' intro!: exI[of _ sc])
      next
        case F2: False
        with ih b vulnerable fr False show ?thesis by (auto simp: s')
      qed
    qed
  qed
qed

lemma removeObstacleMeshes_fields:
  "gameState (removeObstacleMeshes ids s) = gameState s \<and>
   playerState (removeObstacleMeshes ids s) = playerState s \<and>
   lastHitTime (removeObstacleMeshes ids s) = lastHitTime s \<and>
   damageSounds (removeObstacleMeshes ids s) = damageSounds s \<and>
   scoreRef (removeObstacleMeshes ids s) = scoreRef s \<and>
   speedRef (removeObstacleMeshes ids s) = speedRef s \<and>
   obstacles (removeObstacleMeshes ids s) = obstacles s \<and>
   decorations (removeObstacleMeshes ids s) = decorations s \<and>
   isPlayingRef (removeObstacleMeshes ids s) = isPlayingRef s \<and>
   isPausedRef (removeObstacleMeshes ids s) = isPausedRef s \<and>
   lastTime (removeObstacleMeshes ids s) = lastTime s \<and>
   playerGroupRef (removeObstacleMeshes ids s) = playerGroupRef s"
  by (induction ids arbitrary: s) (auto split: option.splits)

lemma removeDecorationMeshes_fields:
  "gameState (removeDecorationMeshes ids s) = gameState s \<and>
   playerState (removeDecorationMeshes ids s) = playerState s \<and>
   lastHitTime (removeDecorationMeshes ids s) = lastHitTime s \<and>
   damageSounds (removeDecorationMeshes ids s) = damageSounds s \<and>
   scoreRef (removeDecorationMeshes ids s) = scoreRef s \<and>
   speedRef (removeDecorationMeshes ids s) = speedRef s \<and>
   obstacles (removeDecorationMeshes ids s) = obstacles s \<and>
   obstacleMeshes (removeDecorationMeshes ids s) = obstacleMeshes s \<and>
   lastSpawnTime (removeDecorationMeshes ids s) = lastSpawnTime s \<and>
   lavaMaterial (removeDecorationMeshes ids s) = lavaMaterial s \<and>
   isPlayingRef (removeDecorationMeshes ids s) = isPlayingRef s \<and>
   isPausedRef (removeDecorationMeshes ids s) = isPausedRef s \<and>
   lastTime (removeDecorationMeshes ids s) = lastTime s \<and>
   playerGroupRef (removeDecorationMeshes ids s) = playerGroupRef s \<and>
   (sceneRef (removeDecorationMeshes ids s) = None) = (sceneRef s = None)"
  by (induction ids arbitrary: s) (auto split: option.splits)

lemma decorFrame_trans: "decorFrame s s' \<Longrightarrow> decorFrame s' s'' \<Longrightarrow> decorFrame s s''"
  by (cases s; cases s'; cases s'') (simp add: decorFrame_def)

lemma decorStep_frame:
  "decorStep dt d (s, rem) = (d', s', rem') \<Longrightarrow> decorFrame s s'"
  by (auto simp: decorStep_def decorFrame_def Let_def split: option.splits)

lemma decorLoop_frame:
  "decorLoop dt xs (s, rem) = (ys, s', rem') \<Longrightarrow> decorFrame s s'"
proof (induction xs arbitrary: s rem ys s' rem')
  case Nil
  then show ?case by (simp add: decorFrame_def)
next
  case (Cons d xs)
  obtain d1 s1 rem1 where st: "decorStep dt d (s, rem) = (d1, s1, rem1)"
    by (cases "decorStep dt d (s, rem)") auto
  obtain ys2 s2 rem2 where lp: "decorLoop dt xs (s1, rem1) = (ys2, s2, rem2)"
    by (cases "decorLoop dt xs (s1, rem1)") auto
  from Cons.prems st lp have "s' = s2" by simp
  with decorStep_frame[OF st] Cons.IH[OF lp] show ?case
    by (auto intro: decorFrame_trans)
qed

lemma decorFrame_fields:
  assumes "decorFrame s s'"
  shows "gameState s' = gameState s" "playerState s' = playerState s"
    "lastHitTime s' = lastHitTime s" "damageSounds s' = damageSounds s"
    "scoreRef s' = scoreRef s" "speedRef s' = speedRef s" "obstacles s' = obstacles s"
    "obstacleMeshes s' = obstacleMeshes s" "lastSpawnTime s' = lastSpawnTime s"
    "lavaMaterial s' = lavaMaterial s" "isPlayingRef s' = isPlayingRef s"
    "isPausedRef s' = isPausedRef s" "lastTime s' = lastTime s"
    "playerGroupRef s' = playerGroupRef s" "sceneRef s' = sceneRef s"
  using assms by (cases s; cases s'; simp add: decorFrame_def)+

lemma spawnDecoration_fields:
  "gameState (spawnDecoration z r s) = gameState s \<and>
   playerState (spawnDecoration z r s) = playerState s \<and>
   lastHitTime (spawnDecoration z r s) = lastHitTime s \<and>
   damageSounds (spawnDecoration z r s) = damageSounds s \<and>
   scoreRef (spawnDecoration z r s) = scoreRef s \<and>
   speedRef (spawnDecoration z r s) = speedRef s \<and>
   obstacles (spawnDecoration z r s) = obstacles s \<and>
   obstacleMeshes (spawnDecoration z r s) = obstacleMeshes s \<and>
   lastSpawnTime (spawnDecoration z r s) = lastSpawnTime s \<and>
   lavaMaterial (spawnDecoration z r s) = lavaMaterial s \<and>
   isPlayingRef (spawnDecoration z r s) = isPlayingRef s \<and>
   isPausedRef (spawnDecoration z r s) = isPausedRef s \<and>
   lastTime (spawnDecoration z r s) = lastTime s \<and>
   playerGroupRef (spawnDecoration z r s) = playerGroupRef s \<and>
   (sceneRef (spawnDecoration z r s) = None) = (sceneRef s = None)"
  by (simp add: spawnDecoration_def Let_def split: option.splits)

lemma decorLogic_fields:
  "gameState (decorLogic dt time rnd s) = gameState s \<and>
   playerState (decorLogic dt time rnd s) = playerState s \<and>
   lastHitTime (decorLogic dt time rnd s) = lastHitTime s \<and>
   damageSounds (decorLogic dt time rnd s) = damageSounds s \<and>
   scoreRef (decorLogic dt time rnd s) = scoreRef s \<and>
   speedRef (decorLogic dt time rnd s) = speedRef s \<and>
   obstacles (decorLogic dt time rnd s) = obstacles s \<and>
   obstacleMeshes (decorLogic dt time rnd s) = obstacleMeshes s \<and>
   lastSpawnTime (decorLogic dt time rnd s) = lastSpawnTime s \<and>
   lavaMaterial (decorLogic dt time rnd s) = lavaMaterial s \<and>
   isPlayingRef (decorLogic dt time rnd s) = isPlayingRef s \<and>
   isPausedRef (decorLogic dt time rnd s) = isPausedRef s \<and>
   lastTime (decorLogic dt time rnd s) = lastTime s \<and>
   playerGroupRef (decorLogic dt time rnd s) = playerGroupRef s \<and>
   (sceneRef (decorLogic dt time rnd s) = None) = (sceneRef s = None)"
proof -
  define s1 where "s1 = (if decorSpawnDue time (lastDecorSpawnTime s) (speedRef s)
                then (spawnDecoration (SPAWN_DISTANCE - r_jitter (r_decor1 rnd) * 20) (r_decor1 rnd)
                       (spawnDecoration (SPAWN_DISTANCE - r_jitter (r_decor0 rnd) * 20)
                          (r_decor0 rnd) s))
                     \<lparr>lastDecorSpawnTime := time\<rparr>
                else s)"
  obtain ys s2 rem where lp: "decorLoop dt (decorations s1) (s1, []) = (ys, s2, rem)"
    by (cases "decorLoop dt (decorations s1) (s1, [])") auto
  have eq: "decorLogic dt time rnd s =
      (removeDecorationMeshes rem s2)\<lparr>decorations := filter (\<lambda>d. d_id d \<notin> set rem) ys\<rparr>"
    unfolding decorLogic_def Let_def s1_def[symmetric] lp by simp
  note c = decorFrame_fields[OF decorLoop_frame[OF lp]]
  have b: "gameState s1 = gameState s \<and> playerState s1 = playerState s \<and>
     lastHitTime s1 = lastHitTime s \<and> damageSounds s1 = damageSounds s \<and>
     scoreRef s1 = scoreRef s \<and> speedRef s1 = speedRef s \<and> obstacles s1 = obstacles s \<and>
     obstacleMeshes s1 = obstacleMeshes s \<and> lastSpawnTime s1 = lastSpawnTime s \<and>
     lavaMaterial s1 = lavaMaterial s \<and> isPlayingRef s1 = isPlayingRef s \<and>
     isPausedRef s1 = isPausedRef s \<and> lastTime s1 = lastTime s \<and>
     playerGroupRef s1 = playerGroupRef s \<and> (sceneRef s1 = None) = (sceneRef s = None)"
    unfolding s1_def by (simp add: spawnDecoration_fields)
  show ?thesis
    unfolding eq using removeDecorationMeshes_fields[of rem s2] b
    by (simp add: c)
qed

lemma obstacleSpawn_fields:
  "gameState (obstacleSpawn time rnd s) = gameState s \<and>
   playerState (obstacleSpawn time rnd s) = playerState s \<and>
   lastHitTime (obstacleSpawn time rnd s) = lastHitTime s \<and>
   damageSounds (obstacleSpawn time rnd s) = damageSounds s \<and>
   scoreRef (obstacleSpawn time rnd s) = scoreRef s \<and>
   speedRef (obstacleSpawn time rnd s) = speedRef s \<and>
   isPlayingRef (obstacleSpawn time rnd s) = isPlayingRef s \<and>
   isPausedRef (obstacleSpawn time rnd s) = isPausedRef s \<and>
   lastTime (obstacleSpawn time rnd s) = lastTime s \<and>
   playerGroupRef (obstacleSpawn time rnd s) = playerGroupRef s \<and>
   decorations (obstacleSpawn time rnd s) = decorations s"
  by (simp add: obstacleSpawn_def spawnObstacle_def Let_def split: option.splits)

lemma playerLogic_fields:
  "gameState (playerLogic dt time s) = gameState s \<and>
   lastHitTime (playerLogic dt time s) = lastHitTime s \<and>
   damageSounds (playerLogic dt time s) = damageSounds s \<and>
   scoreRef (playerLogic dt time s) = scoreRef s \<and>
   speedRef (playerLogic dt time s) = speedRef s \<and>
   obstacles (playerLogic dt time s) = obstacles s \<and>
   obstacleMeshes (playerLogic dt time s) = obstacleMeshes s \<and>
   lastSpawnTime (playerLogic dt time s) = lastSpawnTime s \<and>
   lavaMaterial (playerLogic dt time s) = lavaMaterial s \<and>
   sceneRef (playerLogic dt time s) = sceneRef s \<and>
   isPlayingRef (playerLogic dt time s) = isPlayingRef s \<and>
   isPausedRef (playerLogic dt time s) = isPausedRef s \<and>
   lastTime (playerLogic dt time s) = lastTime s"
  by (simp add: playerLogic_def Let_def split: option.splits)

lemma jumpPhysics_lane: "lane (jumpPhysics time p) = lane p"
  by (simp add: jumpPhysics_def Let_def)

lemma playerLogic_lane: "lane (playerState (playerLogic dt time s)) = lane (playerState s)"
  by (simp add: playerLogic_def Let_def jumpPhysics_lane split: option.splits)

lemma beforeObstacles_fields:
  "gameState (beforeObstacles dt time rnd s) = gameState s \<and>
   lastHitTime (beforeObstacles dt time rnd s) = lastHitTime s \<and>
   damageSounds (beforeObstacles dt time rnd s) = damageSounds s \<and>
   scoreRef (beforeObstacles dt time rnd s) = scoreRef s \<and>
   isPlayingRef (beforeObstacles dt time rnd s) = isPlayingRef s \<and>
   isPausedRef (beforeObstacles dt time rnd s) = isPausedRef s \<and>
   lastTime (beforeObstacles dt time rnd s) = lastTime s \<and>
   speedRef (beforeObstacles dt time rnd s) =
     min MAX_SPEED (START_SPEED + real_of_int (scoreRef s) / 50)"
  by (simp add: beforeObstacles_def obstacleSpawn_fields decorLogic_fields playerLogic_fields
      animateMaterials_def difficulty_def split: option.splits)

lemma beforeObstacles_player:
  "playerState (beforeObstacles dt time rnd s) =
     (case playerGroupRef s of None \<Rightarrow> playerState s
      | Some g \<Rightarrow> jumpPhysics time (playerState s))"
  by (simp add: beforeObstacles_def obstacleSpawn_fields decorLogic_fields playerLogic_def
      animateMaterials_def difficulty_def Let_def split: option.splits)

lemma obstacleSweep_eq:
  assumes "obstacleLoop dt clock 0 (obstacles s) (s, []) = (ys, s2, rem)"
  shows "obstacleSweep dt clock s =
           (removeObstacleMeshes rem s2)\<lparr>obstacles := filter (\<lambda>ob. o_id ob \<notin> set rem) ys\<rparr>"
  unfolding obstacleSweep_def assms by simp

lemma obstacleSweep_fields:
  "playerState (obstacleSweep dt clock s) = playerState s \<and>
   speedRef (obstacleSweep dt clock s) = speedRef s \<and>
   isPlayingRef (obstacleSweep dt clock s) = isPlayingRef s \<and>
   isPausedRef (obstacleSweep dt clock s) = isPausedRef s \<and>
   lastTime (obstacleSweep dt clock s) = lastTime s \<and>
   playerGroupRef (obstacleSweep dt clock s) = playerGroupRef s \<and>
   decorations (obstacleSweep dt clock s) = decorations s"
proof -
  obtain ys s2 rem where lp: "obstacleLoop dt clock 0 (obstacles s) (s, []) = (ys, s2, rem)"
    by (cases "obstacleLoop dt clock 0 (obstacles s) (s, [])") auto
  note c = loopFrame_fields[OF obstacleLoop_frame[OF lp]]
  show ?thesis
    unfolding obstacleSweep_eq[OF lp] using removeObstacleMeshes_fields[of rem s2]
    by (simp add: c)
qed

lemma obstacleSweep_hits:
  "if (\<exists>ob\<in>set (obstacles s). hitCandidate (playerState s) (moved (speedRef s) dt ob)) \<and>
      now - lastHitTime s > INVINCIBILITY_DURATION
   then damageSounds (obstacleSweep dt (\<lambda>_. now) s) = Suc (damageSounds s) \<and>
        lastHitTime (obstacleSweep dt (\<lambda>_. now) s) = now \<and>
        (\<exists>sc. scoreRef s \<le> sc \<and> sc \<le> scoreRef (obstacleSweep dt (\<lambda>_. now) s) \<and>
              gameState (obstacleSweep dt (\<lambda>_. now) s) = loseLife sc (gameState s))
   else damageSounds (obstacleSweep dt (\<lambda>_. now) s) = damageSounds s \<and>
        lastHitTime (obstacleSweep dt (\<lambda>_. now) s) = lastHitTime s \<and>
        gameState (obstacleSweep dt (\<lambda>_. now) s) = gameState s"
proof -
  obtain ys s2 rem where lp:
    "obstacleLoop dt (\<lambda>_. now) 0 (obstacles s) (s, []) = (ys, s2, rem)"
    by (cases "obstacleLoop dt (\<lambda>_. now) 0 (obstacles s) (s, [])") auto
  have f: "damageSounds (obstacleSweep dt (\<lambda>_. now) s) = damageSounds s2"
    "lastHitTime (obstacleSweep dt (\<lambda>_. now) s) = lastHitTime s2"
    "gameState (obstacleSweep dt (\<lambda>_. now) s) = gameState s2"
    "scoreRef (obstacleSweep dt (\<lambda>_. now) s) = scoreRef s2"
    unfolding obstacleSweep_eq[OF lp] using removeObstacleMeshes_fields[of rem s2] by simp_all
  show ?thesis unfolding f using obstacleLoop_hits[OF lp] .
qed

subsection \<open>The game state along a frame and a session\<close>

text \<open>
  Whatever holds of \<open>gameState\<close> and is kept by the updater \<open>loseLife\<close> is kept by a frame;
  \<open>sessionInv\<close> holds in every state of a session.
\<close>

lemma obstacleStep_gameState:
  assumes "\<And>sc g. P g \<Longrightarrow> P (loseLife sc g)" and "P (gameState s)"
    and "obstacleStep dt now ob (s, rem) = (ob', s', rem')"
  shows "P (gameState s')"
  using assms(2,3) assms(1)[of "gameState s" "scoreRef s"]
  by (auto simp: obstacleStep_def collision_def Let_def split: option.splits if_splits)

lemma obstacleLoop_gameState:
  assumes "\<And>sc g. P g \<Longrightarrow> P (loseLife sc g)"
  shows "P (gameState s) \<Longrightarrow> obstacleLoop dt clock k xs (s, rem) = (ys, s', rem') \<Longrightarrow>
         P (gameState s')"
proof (induction xs arbitrary: k s rem ys s' rem')
  case Nil
  then show ?case by simp
next
  case (Cons ob xs)
  obtain ob1 s1 rem1 where st: "obstacleStep dt (clock k) ob (s, rem) = (ob1, s1, rem1)"
    by (cases "obstacleStep dt (clock k) ob (s, rem)") auto
  obtain ys2 s2 rem2 where lp: "obstacleLoop dt clock (Suc k) xs (s1, rem1) = (ys2, s2, rem2)"
    by (cases "obstacleLoop dt clock (Suc k) xs (s1, rem1)") auto
  from Cons.prems(2) st lp have "s' = s2" by simp
  moreover have "P (gameState s1)"
    using obstacleStep_gameState[of P, OF assms Cons.prems(1) st] .
  ultimately show ?case using Cons.IH[OF _ lp] by simp
qed

lemma obstacleSweep_gameState:
  assumes "\<And>sc g. P g \<Longrightarrow> P (loseLife sc g)" and "P (gameState s)"
  shows "P (gameState (obstacleSweep dt clock s))"
proof -
  obtain ys s2 rem where lp: "obstacleLoop dt clock 0 (obstacles s) (s, []) = (ys, s2, rem)"
    by (cases "obstacleLoop dt clock 0 (obstacles s) (s, [])") auto
  have "gameState (obstacleSweep dt clock s) = gameState s2"
    unfolding obstacleSweep_eq[OF lp] using removeObstacleMeshes_fields[of rem s2] by simp
  then show ?thesis using obstacleLoop_gameState[of P, OF assms(1) assms(2) lp] by simp
qed

lemma obstacleSweep_score_mono: "scoreRef s \<le> scoreRef (obstacleSweep dt clock s)"
proof -
  obtain ys s2 rem where lp: "obstacleLoop dt clock 0 (obstacles s) (s, []) = (ys, s2, rem)"
    by (cases "obstacleLoop dt clock 0 (obstacles s) (s, [])") auto
  have "scoreRef (obstacleSweep dt clock s) = scoreRef s2"
    unfolding obstacleSweep_eq[OF lp] using removeObstacleMeshes_fields[of rem s2] by simp
  then show ?thesis using obstacleLoop_score_mono[OF lp] by simp
qed

lemma updateGameLogic_gameState:
  assumes "\<And>sc g. P g \<Longrightarrow> P (loseLife sc g)" and "P (gameState s)"
  shows "P (gameState (updateGameLogic dt time clock rnd s))"
proof -
  have "P (gameState (beforeObstacles dt time rnd s))"
    by (simp add: beforeObstacles_fields assms(2))
  then show ?thesis
    unfolding updateGameLogic_def using assms(1) by (rule obstacleSweep_gameState[of P, rotated])
qed

lemma updateGameLogic_fields:
  "isPlayingRef (updateGameLogic dt time clock rnd s) = isPlayingRef s \<and>
   isPausedRef (updateGameLogic dt time clock rnd s) = isPausedRef s \<and>
   lastTime (updateGameLogic dt time clock rnd s) = lastTime s \<and>
   speedRef (updateGameLogic dt time clock rnd s) =
     min MAX_SPEED (START_SPEED + real_of_int (scoreRef s) / 50) \<and>
   playerState (updateGameLogic dt time clock rnd s) =
     (case playerGroupRef s of None \<Rightarrow> playerState s
      | Some g \<Rightarrow> jumpPhysics time (playerState s)) \<and>
   scoreRef s \<le> scoreRef (updateGameLogic dt time clock rnd s)"
  unfolding updateGameLogic_def
  using obstacleSweep_score_mono[of "beforeObstacles dt time rnd s" dt clock]
  by (simp add: obstacleSweep_fields beforeObstacles_fields beforeObstacles_player)

lemma loseLife_livesInv: "livesInv g \<Longrightarrow> livesInv (loseLife sc g)"
  by (auto simp: livesInv_def loseLife_def Let_def)

lemma loseLife_flags:
  "isPlaying (loseLife sc g) = isPlaying g \<and> isPaused (loseLife sc g) = isPaused g \<and>
   cameraReady (loseLife sc g) = cameraReady g"
  by (simp add: loseLife_def Let_def)

lemma animate_gameState:
  assumes "\<And>sc g. P g \<Longrightarrow> P (loseLife sc g)" and "P (gameState s)"
  shows "P (gameState (animate time clock rnd s))"
proof -
  have "P (gameState (updateGameLogic ((time - lastTime s) / 1000) time clock rnd
          (s\<lparr>lastTime := time\<rparr>)))"
  proof (rule updateGameLogic_gameState[of P, OF assms(1)])
    have "gameState (s\<lparr>lastTime := time\<rparr>) = gameState s" by simp
    then show "P (gameState (s\<lparr>lastTime := time\<rparr>))" using assms(2) by simp
  qed
  then show ?thesis by (simp add: animate_def Let_def assms(2))
qed

lemma animate_fields:
  "isPlayingRef (animate time clock rnd s) = isPlayingRef s \<and>
   lane (playerState (animate time clock rnd s)) = lane (playerState s) \<and>
   scoreRef s \<le> scoreRef (animate time clock rnd s)"
  using updateGameLogic_fields[of "(time - lastTime s) / 1000" time clock rnd "s\<lparr>lastTime := time\<rparr>"]
  by (simp add: animate_def Let_def jumpPhysics_lane split: option.splits)

lemma commitEffects_inv:
  assumes "livesInv (gameState s)" "lane (playerState s) \<in> {0, 1, 2}" "0 \<le> scoreRef s"
    and "isPlaying (gameState s) = isPlaying prev \<Longrightarrow> gameOver (gameState s) = gameOver prev \<Longrightarrow>
         isPlayingRef s \<Longrightarrow> isPlaying (gameState s) \<and> \<not> gameOver (gameState s)"
  shows "sessionInv (commitEffects prev n1 n2 s)"
proof (cases "isPlaying (gameState s) \<noteq> isPlaying prev \<or> gameOver (gameState s) \<noteq> gameOver prev")
  case True
  then show ?thesis using assms(1,2,3)
    by (simp add: commitEffects_def sessionInv_def loopEffect_def initEffect_def loopCleanup_def
        pauseEffect_def Let_def)
next
  case False
  then show ?thesis using assms
    by (simp add: commitEffects_def sessionInv_def pauseEffect_def Let_def)
qed

lemma sessionInv_mounted: "sessionInv (mounted n1)"
  by (simp add: mounted_def sessionInv_def livesInv_def pauseEffect_def loopEffect_def
      initEffect_def initialEngine_def initialGameState_def)

lemma applyGesture_lane:
  "lane p \<in> {0, 1, 2} \<Longrightarrow> lane (applyGesture g now p) \<in> {0, 1, 2}"
  by (auto simp: applyGesture_def)

lemma setGameState_inv:
  assumes "sessionInv s" "livesInv (f (gameState s))"
  shows "sessionInv (setGameState f n1 n2 s)"
  unfolding setGameState_def
proof (rule commitEffects_inv)
  show "livesInv (gameState (s\<lparr>gameState := f (gameState s)\<rparr>))"
    using assms(2) by simp
  show "lane (playerState (s\<lparr>gameState := f (gameState s)\<rparr>)) \<in> {0, 1, 2}"
    using assms(1) by (simp add: sessionInv_def)
  show "0 \<le> scoreRef (s\<lparr>gameState := f (gameState s)\<rparr>)"
    using assms(1) by (simp add: sessionInv_def)
  show "isPlaying (gameState (s\<lparr>gameState := f (gameState s)\<rparr>)) \<and>
        \<not> gameOver (gameState (s\<lparr>gameState := f (gameState s)\<rparr>))"
    if "isPlaying (gameState (s\<lparr>gameState := f (gameState s)\<rparr>)) = isPlaying (gameState s)"
      "gameOver (gameState (s\<lparr>gameState := f (gameState s)\<rparr>)) = gameOver (gameState s)"
      "isPlayingRef (s\<lparr>gameState := f (gameState s)\<rparr>)"
    using that assms(1) by (simp add: sessionInv_def)
qed

lemma sessionInv_step: "sessionInv s \<Longrightarrow> sessionInv (step s e)"
proof (cases e)
  case (Start n1 n2)
  assume inv: "sessionInv s"
  have "livesInv (handleStart (gameState s))" by (simp add: livesInv_def handleStart_def)
  then show ?thesis unfolding Start using inv by (simp add: setGameState_inv)
next
  case (Restart n1 n2)
  assume inv: "sessionInv s"
  have "livesInv (handleRestart (gameState s))" by (simp add: livesInv_def handleRestart_def)
  then show ?thesis unfolding Restart using inv by (simp add: setGameState_inv)
next
  case Pause
  assume inv: "sessionInv s"
  then have "livesInv (handlePause (gameState s))"
    by (simp add: sessionInv_def livesInv_def handlePause_def)
  then show ?thesis unfolding Pause using inv by (simp add: setGameState_inv)
next
  case Resume
  assume inv: "sessionInv s"
  then have "livesInv (handleResume (gameState s))"
    by (simp add: sessionInv_def livesInv_def handleResume_def)
  then show ?thesis unfolding Resume using inv by (simp add: setGameState_inv)
next
  case CameraReady
  assume inv: "sessionInv s"
  then have "livesInv (onCameraReady (gameState s))"
    by (simp add: sessionInv_def livesInv_def onCameraReady_def)
  then show ?thesis unfolding CameraReady using inv by (simp add: setGameState_inv)
next
  case (Frame time clock rnd n1 n2)
  assume inv: "sessionInv s"
  have a: "livesInv (gameState (animate time clock rnd s))"
    by (rule animate_gameState[of livesInv, OF loseLife_livesInv])
      (use inv in \<open>simp_all add: sessionInv_def\<close>)
  have b: "isPlaying (gameState (animate time clock rnd s)) = isPlaying (gameState s)"
    by (rule animate_gameState[of "\<lambda>g. isPlaying g = isPlaying (gameState s)"])
      (simp_all add: loseLife_flags)
  show ?thesis unfolding Frame step.simps
    using inv a b animate_fields[of time clock rnd s]
    by (intro commitEffects_inv) (auto simp: sessionInv_def)
next
  case (Pose g now)
  assume inv: "sessionInv s"
  show ?thesis unfolding Pose step.simps
    using inv applyGesture_lane[of "playerState s" g now]
    by (simp add: inputEffect_def sessionInv_def)
qed

lemma sessionInv_foldl: "sessionInv s \<Longrightarrow> sessionInv (foldl step s evs)"
  by (induction evs arbitrary: s) (simp_all add: sessionInv_step)

lemma sessionInv_session: "sessionInv (session n1 evs)"
  unfolding session_def by (rule sessionInv_foldl[OF sessionInv_mounted])

lemma session_score_nonneg: "0 \<le> scoreRef (session n1 evs)"
  using sessionInv_session[of n1 evs] by (simp add: sessionInv_def)

subsection \<open>The hits of a frame\<close>

lemma loseLife_lives:
  "lives (loseLife sc g) = (if lives g - 1 \<le> 0 then 0 else lives g - 1)"
  by (simp add: loseLife_def Let_def)

lemma updateGameLogic_hits:
  "if (\<exists>ob\<in>set (frameObstacles dt time rnd s).
         hitCandidate (playerState (updateGameLogic dt time (\<lambda>_. now) rnd s)) ob) \<and>
      now - lastHitTime s > INVINCIBILITY_DURATION
   then damageSounds (updateGameLogic dt time (\<lambda>_. now) rnd s) = Suc (damageSounds s) \<and>
        lastHitTime (updateGameLogic dt time (\<lambda>_. now) rnd s) = now \<and>
        (\<exists>sc. scoreRef s \<le> sc \<and> sc \<le> scoreRef (updateGameLogic dt time (\<lambda>_. now) rnd s) \<and>
              gameState (updateGameLogic dt time (\<lambda>_. now) rnd s) = loseLife sc (gameState s))
   else damageSounds (updateGameLogic dt time (\<lambda>_. now) rnd s) = damageSounds s \<and>
        lastHitTime (updateGameLogic dt time (\<lambda>_. now) rnd s) = lastHitTime s \<and>
        gameState (updateGameLogic dt time (\<lambda>_. now) rnd s) = gameState s"
proof -
  define t where "t = beforeObstacles dt time rnd s"
  have u: "updateGameLogic dt time (\<lambda>_. now) rnd s = obstacleSweep dt (\<lambda>_. now) t"
    by (simp add: updateGameLogic_def t_def)
  have p: "playerState (obstacleSweep dt (\<lambda>_. now) t) = playerState t"
    by (simp add: obstacleSweep_fields)
  have f: "gameState t = gameState s" "lastHitTime t = lastHitTime s"
    "damageSounds t = damageSounds s" "scoreRef t = scoreRef s"
    by (simp_all add: t_def beforeObstacles_fields)
  have o: "frameObstacles dt time rnd s = map (moved (speedRef t) dt) (obstacles t)"
    by (simp add: frameObstacles_def t_def)
  show ?thesis
    using obstacleSweep_hits[of t dt now]
    unfolding u p o f by simp
qed

lemma updateGameLogic_hit:
  assumes "\<exists>ob\<in>set (frameObstacles dt time rnd s).
         hitCandidate (playerState (updateGameLogic dt time (\<lambda>_. now) rnd s)) ob"
    and "now - lastHitTime s > INVINCIBILITY_DURATION"
  shows "damageSounds (updateGameLogic dt time (\<lambda>_. now) rnd s) = Suc (damageSounds s)"
    and "lastHitTime (updateGameLogic dt time (\<lambda>_. now) rnd s) = now"
    and "\<exists>sc. scoreRef s \<le> sc \<and> sc \<le> scoreRef (updateGameLogic dt time (\<lambda>_. now) rnd s) \<and>
              gameState (updateGameLogic dt time (\<lambda>_. now) rnd s) = loseLife sc (gameState s)"
  using updateGameLogic_hits[of dt time rnd s now] assms by (simp_all only: simp_thms if_True)

lemma updateGameLogic_nohit:
  assumes "\<not> ((\<exists>ob\<in>set (frameObstacles dt time rnd s).
         hitCandidate (playerState (updateGameLogic dt time (\<lambda>_. now) rnd s)) ob) \<and>
      now - lastHitTime s > INVINCIBILITY_DURATION)"
  shows "damageSounds (updateGameLogic dt time (\<lambda>_. now) rnd s) = damageSounds s"
    and "lastHitTime (updateGameLogic dt time (\<lambda>_. now) rnd s) = lastHitTime s"
    and "gameState (updateGameLogic dt time (\<lambda>_. now) rnd s) = gameState s"
  using updateGameLogic_hits[of dt time rnd s now] assms by (simp_all only: if_False)

lemma session_playing_lives:
  "isPlayingRef (session n1 evs) \<Longrightarrow> 0 < lives (gameState (session n1 evs))"
  using sessionInv_session[of n1 evs] by (auto simp: sessionInv_def livesInv_def)

lemma jumpCurve_limit: "(jumpCurve \<longlongrightarrow> 0) (at_left 1)"
proof -
  have "((\<lambda>t. JUMP_HEIGHT * 4 * t * (1 - t)) \<longlongrightarrow> JUMP_HEIGHT * 4 * 1 * (1 - 1)) (at_left 1)"
    by (intro tendsto_intros)
  then show ?thesis by (simp add: jumpCurve_def[abs_def])
qed

lemma session_gameOver_frozen:
  assumes "gameOver (gameState (session n1 evs))"
  shows "animate time clock rnd (session n1 evs) = session n1 evs"
    and "step (session n1 evs) (Frame time clock rnd n2 n3) = session n1 evs"
    and "step (session n1 evs) (Pose g now) = session n1 evs"
proof -
  have np: "\<not> isPlayingRef (session n1 evs)"
    using sessionInv_session[of n1 evs] assms by (auto simp: sessionInv_def)
  then show a: "animate time clock rnd (session n1 evs) = session n1 evs"
    by (simp add: animate_def)
  show "step (session n1 evs) (Frame time clock rnd n2 n3) = session n1 evs"
    by (simp add: a commitEffects_def)
  show "step (session n1 evs) (Pose g now) = session n1 evs"
    using assms by (simp add: inputEffect_def)
qed

lemma frame_outcome:
  "(damageSounds (updateGameLogic dt time (\<lambda>_. now) rnd s) = Suc (damageSounds s) \<and>
    lastHitTime (updateGameLogic dt time (\<lambda>_. now) rnd s) = now \<and>
    (\<exists>sc. gameState (updateGameLogic dt time (\<lambda>_. now) rnd s) = loseLife sc (gameState s))) \<or>
   (damageSounds (updateGameLogic dt time (\<lambda>_. now) rnd s) = damageSounds s \<and>
    lastHitTime (updateGameLogic dt time (\<lambda>_. now) rnd s) = lastHitTime s \<and>
    gameState (updateGameLogic dt time (\<lambda>_. now) rnd s) = gameState s)"
proof (cases "(\<exists>ob\<in>set (frameObstacles dt time rnd s).
         hitCandidate (playerState (updateGameLogic dt time (\<lambda>_. now) rnd s)) ob) \<and>
      now - lastHitTime s > INVINCIBILITY_DURATION")
  case True
  then show ?thesis using updateGameLogic_hit[of dt time rnd s now] by blast
next
  case False
  then show ?thesis using updateGameLogic_nohit[of dt time rnd s now] by blast
qed

lemma frame_invincible:
  assumes "\<not> now - lastHitTime s > INVINCIBILITY_DURATION"
  shows "damageSounds (updateGameLogic dt time (\<lambda>_. now) rnd s) = damageSounds s \<and>
    lastHitTime (updateGameLogic dt time (\<lambda>_. now) rnd s) = lastHitTime s \<and>
    gameState (updateGameLogic dt time (\<lambda>_. now) rnd s) = gameState s"
  using updateGameLogic_nohit[of dt time rnd s now] assms by blast

lemma loseLife_lower: "lives g - 1 \<le> lives (loseLife sc g)"
  by (simp add: loseLife_def Let_def)

lemma session_lane: "lane (playerState (session n1 evs)) \<in> {0, 1, 2}"
  using sessionInv_session[of n1 evs] by (simp add: sessionInv_def)

subsection \<open>What the obstacle loop computes\<close>

lemma obstacleStep_result:
  assumes "obstacleStep dt now ob (s, rem) = (ob', s', rem')"
  shows "ob' = stepped (speedRef s) dt ob"
    and "rem' = rem @ (if retiring (speedRef s) dt ob then [o_id ob] else [])"
    and "scoreRef s' = scoreRef s + (if awarded (speedRef s) dt ob then 10 else 0)"
  using assms
  by (auto simp: obstacleStep_def collision_def stepped_def moved_def retiring_def awarded_def
      Let_def split: option.splits if_splits)

lemma obstacleLoop_result:
  assumes "obstacleLoop dt clock k xs (s, rem) = (ys, s', rem')"
  shows "ys = map (stepped (speedRef s) dt) xs \<and>
         rem' = rem @ map o_id (filter (retiring (speedRef s) dt) xs) \<and>
         scoreRef s' = scoreRef s + 10 * int (length (filter (awarded (speedRef s) dt) xs))"
  using assms
proof (induction xs arbitrary: k s rem ys s' rem')
  case Nil
  then show ?case by simp
next
  case (Cons ob xs)
  obtain ob1 s1 rem1 where st: "obstacleStep dt (clock k) ob (s, rem) = (ob1, s1, rem1)"
    by (cases "obstacleStep dt (clock k) ob (s, rem)") auto
  obtain ys2 s2 rem2 where lp: "obstacleLoop dt clock (Suc k) xs (s1, rem1) = (ys2, s2, rem2)"
    by (cases "obstacleLoop dt clock (Suc k) xs (s1, rem1)") auto
  from Cons.prems st lp have e: "ys = ob1 # ys2" "s' = s2" "rem' = rem2" by simp_all
  have sp: "speedRef s1 = speedRef s"
    using loopFrame_fields(2)[OF obstacleStep_frame[OF st]] .
  show ?case
    unfolding e using Cons.IH[OF lp] obstacleStep_result[OF st] by (simp add: sp)
qed

lemma obstacleSweep_result:
  "obstacles (obstacleSweep dt clock s) =
     filter (\<lambda>ob. o_id ob \<notin> o_id ` set (filter (retiring (speedRef s) dt) (obstacles s)))
       (map (stepped (speedRef s) dt) (obstacles s)) \<and>
   scoreRef (obstacleSweep dt clock s) =
     scoreRef s + 10 * int (length (filter (awarded (speedRef s) dt) (obstacles s)))"
proof -
  obtain ys s2 rem where lp: "obstacleLoop dt clock 0 (obstacles s) (s, []) = (ys, s2, rem)"
    by (cases "obstacleLoop dt clock 0 (obstacles s) (s, [])") auto
  show ?thesis
    unfolding obstacleSweep_eq[OF lp]
    using obstacleLoop_result[OF lp] removeObstacleMeshes_fields[of rem s2] by simp
qed

lemma obstacleSpawn_obstacles:
  "obstacles (obstacleSpawn time rnd s) = obstacles s \<or>
   obstacles (obstacleSpawn time rnd s) = obstacles s @ [spawned rnd]"
  by (simp add: obstacleSpawn_def spawnObstacle_def spawned_def Let_def split: option.splits)

lemma beforeObstacles_obstacles:
  "obstacles (beforeObstacles dt time rnd s) = obstacles s \<or>
   obstacles (beforeObstacles dt time rnd s) = obstacles s @ [spawned rnd]"
proof -
  define u where "u = decorLogic dt time rnd (playerLogic dt time (animateMaterials dt (difficulty s)))"
  have "obstacles u = obstacles s"
    by (simp add: u_def decorLogic_fields playerLogic_fields animateMaterials_def difficulty_def
        split: option.splits)
  then show ?thesis
    using obstacleSpawn_obstacles[of time rnd u] by (simp add: beforeObstacles_def u_def)
qed

lemma sweep_survivors:
  assumes "ob' \<in> set (obstacles (obstacleSweep dt clock s))"
  shows "\<exists>ob\<in>set (obstacles s). ob' = moved (speedRef s) dt ob \<and> \<not> retiring (speedRef s) dt ob"
proof -
  from assms obtain ob where ob: "ob \<in> set (obstacles s)" "ob' = stepped (speedRef s) dt ob"
    "o_id ob' \<notin> o_id ` set (filter (retiring (speedRef s) dt) (obstacles s))"
    by (auto simp: obstacleSweep_result)
  have id: "o_id ob' = o_id ob" using ob(2) by (simp add: stepped_def moved_def)
  have "\<not> retiring (speedRef s) dt ob" using ob(1,3) unfolding id by auto
  moreover from this have "ob' = moved (speedRef s) dt ob"
    using ob(2) by (simp add: stepped_def retiring_def)
  ultimately show ?thesis using ob(1) by blast
qed

lemma frame_survivors:
  assumes "ob' \<in> set (obstacles (updateGameLogic dt time clock rnd s))"
  shows "\<exists>ob\<in>set (obstacles s) \<union> {spawned rnd}.
           ob' = ob\<lparr>o_z := o_z ob + min MAX_SPEED (START_SPEED + real_of_int (scoreRef s) / 50) * dt\<rparr> \<and>
           o_z ob' \<le> 5"
proof -
  from sweep_survivors[OF assms[unfolded updateGameLogic_def]]
  obtain ob where ob: "ob \<in> set (obstacles (beforeObstacles dt time rnd s))"
    "ob' = moved (speedRef (beforeObstacles dt time rnd s)) dt ob"
    "\<not> retiring (speedRef (beforeObstacles dt time rnd s)) dt ob" by blast
  have "ob \<in> set (obstacles s) \<union> {spawned rnd}"
    using ob(1) beforeObstacles_obstacles[of dt time rnd s] by auto
  then show ?thesis
    using ob(2,3) by (auto simp: moved_def retiring_def beforeObstacles_fields)
qed

lemma updateGameLogic_obstaclesInv:
  assumes "obstaclesInv s"
  shows "obstaclesInv (updateGameLogic dt time clock rnd s)"
  unfolding obstaclesInv_def
proof
  fix ob' assume "ob' \<in> set (obstacles (updateGameLogic dt time clock rnd s))"
  from frame_survivors[OF this] assms show "\<not> o_passed ob' \<and> o_z ob' \<le> 5"
    by (auto simp: obstaclesInv_def spawned_def)
qed

lemma updateGameLogic_score:
  "scoreRef (updateGameLogic dt time clock rnd s) =
     scoreRef s + 10 * int (length (filter
        (awarded (min MAX_SPEED (START_SPEED + real_of_int (scoreRef s) / 50)) dt)
        (obstacles (beforeObstacles dt time rnd s))))"
  by (simp add: updateGameLogic_def obstacleSweep_result beforeObstacles_fields)

lemma commitEffects_obstacles:
  "obstacles (commitEffects prev n1 n2 s) = obstacles s \<or> obstacles (commitEffects prev n1 n2 s) = []"
  by (simp add: commitEffects_def loopEffect_def initEffect_def loopCleanup_def pauseEffect_def
      Let_def)

lemma commitEffects_obstaclesInv:
  "obstaclesInv s \<Longrightarrow> obstaclesInv (commitEffects prev n1 n2 s)"
  using commitEffects_obstacles[of prev n1 n2 s] by (auto simp: obstaclesInv_def)

lemma animate_obstaclesInv:
  assumes "obstaclesInv s"
  shows "obstaclesInv (animate time clock rnd s)"
proof -
  have "obstaclesInv (s\<lparr>lastTime := time\<rparr>)" using assms by (simp add: obstaclesInv_def)
  then show ?thesis
    using assms by (simp add: animate_def Let_def updateGameLogic_obstaclesInv)
qed

lemma obstaclesInv_step: "obstaclesInv s \<Longrightarrow> obstaclesInv (step s e)"
proof (cases e)
  case (Frame time clock rnd n1 n2)
  assume "obstaclesInv s"
  then show ?thesis unfolding Frame step.simps
    by (intro commitEffects_obstaclesInv animate_obstaclesInv)
next
  case (Pose g now)
  assume "obstaclesInv s"
  then show ?thesis unfolding Pose by (simp add: inputEffect_def obstaclesInv_def)
qed (auto simp: setGameState_def obstaclesInv_def intro!: commitEffects_obstaclesInv[unfolded obstaclesInv_def])

lemma obstaclesInv_foldl: "obstaclesInv s \<Longrightarrow> obstaclesInv (foldl step s evs)"
  by (induction evs arbitrary: s) (simp_all add: obstaclesInv_step)

lemma obstaclesInv_session: "obstaclesInv (session n1 evs)"
  unfolding session_def
  by (rule obstaclesInv_foldl)
    (simp add: obstaclesInv_def mounted_def pauseEffect_def loopEffect_def initEffect_def
      initialEngine_def)

lemma sweep_retired:
  assumes "ob \<in> set (obstacles s)" "retiring (speedRef s) dt ob"
  shows "o_id ob \<notin> o_id ` set (obstacles (obstacleSweep dt clock s))"
proof
  assume "o_id ob \<in> o_id ` set (obstacles (obstacleSweep dt clock s))"
  then obtain ob' where ob': "ob' \<in> set (obstacles (obstacleSweep dt clock s))"
    "o_id ob = o_id ob'" by auto
  then have "o_id ob' \<notin> o_id ` set (filter (retiring (speedRef s) dt) (obstacles s))"
    by (auto simp: obstacleSweep_result)
  moreover have "o_id ob \<in> o_id ` set (filter (retiring (speedRef s) dt) (obstacles s))"
    using assms by auto
  ultimately show False using ob'(2) by simp
qed

subsection \<open>What the decoration loop computes\<close>

lemma decorStep_result:
  assumes "decorStep dt d (s, rem) = (d', s', rem')"
  shows "d' = d\<lparr>d_z := d_z d + speedRef s * dt\<rparr>"
  using assms by (auto simp: decorStep_def Let_def)

lemma decorLoop_result:
  assumes "decorLoop dt xs (s, rem) = (ys, s', rem')"
  shows "ys = map (\<lambda>d. d\<lparr>d_z := d_z d + speedRef s * dt\<rparr>) xs"
  using assms
proof (induction xs arbitrary: s rem ys s' rem')
  case Nil
  then show ?case by simp
next
  case (Cons d xs)
  obtain d1 s1 rem1 where st: "decorStep dt d (s, rem) = (d1, s1, rem1)"
    by (cases "decorStep dt d (s, rem)") auto
  obtain ys2 s2 rem2 where lp: "decorLoop dt xs (s1, rem1) = (ys2, s2, rem2)"
    by (cases "decorLoop dt xs (s1, rem1)") auto
  from Cons.prems st lp have e: "ys = d1 # ys2" by simp
  have sp: "speedRef s1 = speedRef s"
    using decorFrame_fields(6)[OF decorStep_frame[OF st]] .
  show ?case unfolding e using Cons.IH[OF lp] decorStep_result[OF st] by (simp add: sp)
qed

lemma spawnDecoration_decorations:
  "decorations (spawnDecoration z r s) = decorations s \<or>
   decorations (spawnDecoration z r s) = decorations s @ [(spawnedDecor r)\<lparr>d_z := z\<rparr>]"
  by (simp add: spawnDecoration_def spawnedDecor_def Let_def split: option.splits)

lemma decorLogic_survivors:
  assumes "d' \<in> set (decorations (decorLogic dt time rnd s))"
  shows "\<exists>d\<in>set (decorations s) \<union> {spawnedDecor (r_decor0 rnd), spawnedDecor (r_decor1 rnd)}.
           d' = d\<lparr>d_z := d_z d + speedRef s * dt\<rparr>"
proof -
  define s1 where "s1 = (if decorSpawnDue time (lastDecorSpawnTime s) (speedRef s)
                then (spawnDecoration (SPAWN_DISTANCE - r_jitter (r_decor1 rnd) * 20) (r_decor1 rnd)
                       (spawnDecoration (SPAWN_DISTANCE - r_jitter (r_decor0 rnd) * 20)
                          (r_decor0 rnd) s))
                     \<lparr>lastDecorSpawnTime := time\<rparr>
                else s)"
  obtain ys s2 rem where lp: "decorLoop dt (decorations s1) (s1, []) = (ys, s2, rem)"
    by (cases "decorLoop dt (decorations s1) (s1, [])") auto
  have eq: "decorLogic dt time rnd s =
      (removeDecorationMeshes rem s2)\<lparr>decorations := filter (\<lambda>d. d_id d \<notin> set rem) ys\<rparr>"
    unfolding decorLogic_def Let_def s1_def[symmetric] lp by simp
  have z: "(spawnedDecor r)\<lparr>d_z := SPAWN_DISTANCE - r_jitter r * 20\<rparr> = spawnedDecor r" for r
    by (simp add: spawnedDecor_def)
  have sub: "set (decorations s1) \<subseteq>
      set (decorations s) \<union> {spawnedDecor (r_decor0 rnd), spawnedDecor (r_decor1 rnd)}"
    using spawnDecoration_decorations[of "SPAWN_DISTANCE - r_jitter (r_decor0 rnd) * 20"
        "r_decor0 rnd" s]
      spawnDecoration_decorations[of "SPAWN_DISTANCE - r_jitter (r_decor1 rnd) * 20"
        "r_decor1 rnd" "spawnDecoration (SPAWN_DISTANCE - r_jitter (r_decor0 rnd) * 20)
                          (r_decor0 rnd) s"]
    unfolding s1_def z by (auto split: if_splits)
  have sp: "speedRef s1 = speedRef s"
    by (simp add: s1_def spawnDecoration_fields)
  from assms have "d' \<in> set ys" unfolding eq by simp
  then obtain d where "d \<in> set (decorations s1)" "d' = d\<lparr>d_z := d_z d + speedRef s * dt\<rparr>"
    unfolding decorLoop_result[OF lp] sp by auto
  with sub show ?thesis by blast
qed

lemma frame_decorations:
  assumes "d' \<in> set (decorations (updateGameLogic dt time clock rnd s))"
  shows "\<exists>d\<in>set (decorations s) \<union> {spawnedDecor (r_decor0 rnd), spawnedDecor (r_decor1 rnd)}.
           d' = d\<lparr>d_z := d_z d + min MAX_SPEED (START_SPEED + real_of_int (scoreRef s) / 50) * dt\<rparr>"
proof -
  define u where "u = playerLogic dt time (animateMaterials dt (difficulty s))"
  have d: "decorations (updateGameLogic dt time clock rnd s) = decorations (decorLogic dt time rnd u)"
    by (simp add: updateGameLogic_def beforeObstacles_def obstacleSweep_fields
        obstacleSpawn_fields u_def)
  have f: "decorations u = decorations s"
    "speedRef u = min MAX_SPEED (START_SPEED + real_of_int (scoreRef s) / 50)"
    by (simp_all add: u_def playerLogic_def animateMaterials_def difficulty_def Let_def
        split: option.splits)
  show ?thesis
    using decorLogic_survivors[of d' dt time rnd u] assms unfolding d f by simp
qed

subsection \<open>Ids\<close>

lemma drawnIds_append: "drawnIds (xs @ ys) = drawnIds xs @ drawnIds ys"
  by (induction xs rule: drawnIds.induct) simp_all

lemma sweep_ids:
  "\<exists>P. map o_id (obstacles (obstacleSweep dt clock s)) = filter P (map o_id (obstacles s))"
proof -
  have id: "o_id (stepped spd dt ob) = o_id ob" for spd ob
    by (simp add: stepped_def moved_def)
  define R where "R = o_id ` set (filter (retiring (speedRef s) dt) (obstacles s))"
  have "map o_id (obstacles (obstacleSweep dt clock s)) =
      filter (\<lambda>i. i \<notin> R) (map o_id (obstacles s))"
    by (simp add: obstacleSweep_result R_def filter_map comp_def id)
  then show ?thesis by blast
qed

lemma frame_ids:
  "\<exists>P. map o_id (obstacles (updateGameLogic dt time clock rnd s)) =
         filter P (map o_id (obstacles s)) \<or>
       map o_id (obstacles (updateGameLogic dt time clock rnd s)) =
         filter P (map o_id (obstacles s) @ [r_oid rnd])"
proof -
  obtain P where P: "map o_id (obstacles (updateGameLogic dt time clock rnd s)) =
      filter P (map o_id (obstacles (beforeObstacles dt time rnd s)))"
    using sweep_ids[of dt clock "beforeObstacles dt time rnd s"]
    unfolding updateGameLogic_def by blast
  from beforeObstacles_obstacles[of dt time rnd s] show ?thesis
  proof
    assume "obstacles (beforeObstacles dt time rnd s) = obstacles s"
    with P show ?thesis by (intro exI[of _ P]) simp
  next
    assume "obstacles (beforeObstacles dt time rnd s) = obstacles s @ [spawned rnd]"
    with P have "map o_id (obstacles (updateGameLogic dt time clock rnd s)) =
         filter P (map o_id (obstacles s) @ [r_oid rnd])"
      by (simp add: spawned_def)
    then show ?thesis by (intro exI[of _ P]) simp
  qed
qed

lemma animate_ids:
  "\<exists>P. map o_id (obstacles (animate time clock rnd s)) = filter P (map o_id (obstacles s)) \<or>
       map o_id (obstacles (animate time clock rnd s)) =
         filter P (map o_id (obstacles s) @ [r_oid rnd])"
proof (cases "isPlayingRef s \<and> \<not> isPausedRef s")
  case True
  then have "animate time clock rnd s =
      updateGameLogic ((time - lastTime s) / 1000) time clock rnd (s\<lparr>lastTime := time\<rparr>)"
    by (simp add: animate_def Let_def)
  then show ?thesis
    using frame_ids[of "(time - lastTime s) / 1000" time clock rnd "s\<lparr>lastTime := time\<rparr>"]
    by simp
next
  case False
  then have "obstacles (animate time clock rnd s) = obstacles s"
    by (auto simp: animate_def)
  then have "map o_id (obstacles (animate time clock rnd s)) =
      filter (\<lambda>_. True) (map o_id (obstacles s))" by simp
  then show ?thesis by blast
qed

lemma idsInv_commit: "idsInv drawn s \<Longrightarrow> idsInv drawn (commitEffects prev n1 n2 s)"
  using commitEffects_obstacles[of prev n1 n2 s] by (auto simp: idsInv_def)

lemma idsInv_filter:
  assumes "distinct ys" "set ys \<subseteq> D" "xs = filter P ys"
  shows "distinct xs \<and> set xs \<subseteq> D"
  using assms by auto

lemma idsInv_animate:
  assumes "idsInv drawn s" "r_oid rnd \<notin> set drawn"
  shows "idsInv (drawn @ [r_oid rnd]) (animate time clock rnd s)"
proof -
  from animate_ids[of time clock rnd s] obtain P where
    c: "map o_id (obstacles (animate time clock rnd s)) = filter P (map o_id (obstacles s)) \<or>
     map o_id (obstacles (animate time clock rnd s)) =
       filter P (map o_id (obstacles s) @ [r_oid rnd])" by blast
  have d0: "distinct (map o_id (obstacles s))" "set (map o_id (obstacles s)) \<subseteq> set drawn"
    using assms(1) by (simp_all add: idsInv_def)
  have d1: "distinct (map o_id (obstacles s) @ [r_oid rnd])"
    using d0 assms(2) by auto
  have s0: "set (map o_id (obstacles s)) \<subseteq> set (drawn @ [r_oid rnd])"
    using d0(2) by auto
  have s1: "set (map o_id (obstacles s) @ [r_oid rnd]) \<subseteq> set (drawn @ [r_oid rnd])"
    using d0(2) by auto
  from c show ?thesis
  proof
    assume "map o_id (obstacles (animate time clock rnd s)) = filter P (map o_id (obstacles s))"
    from idsInv_filter[OF d0(1) s0 this] show ?thesis unfolding idsInv_def .
  next
    assume "map o_id (obstacles (animate time clock rnd s)) =
       filter P (map o_id (obstacles s) @ [r_oid rnd])"
    from idsInv_filter[OF d1 s1 this] show ?thesis unfolding idsInv_def .
  qed
qed

lemma idsInv_setGameState: "idsInv drawn s \<Longrightarrow> idsInv drawn (setGameState f n1 n2 s)"
  unfolding setGameState_def by (rule idsInv_commit) (simp add: idsInv_def)

lemma idsInv_step:
  assumes "idsInv drawn s" "distinct (drawn @ drawnIds [e])"
  shows "idsInv (drawn @ drawnIds [e]) (step s e)"
proof (cases e)
  case (Frame time clock rnd n1 n2)
  then have "r_oid rnd \<notin> set drawn" using assms(2) by simp
  from idsInv_animate[OF assms(1) this, of time clock]
  show ?thesis unfolding Frame by (simp add: idsInv_commit)
next
  case (Pose g now)
  then show ?thesis using assms(1) by (simp add: inputEffect_def idsInv_def)
next
  case (Start n1 n2)
  then show ?thesis using assms(1) by (simp add: idsInv_setGameState)
next
  case (Restart n1 n2)
  then show ?thesis using assms(1) by (simp add: idsInv_setGameState)
next
  case Pause
  then show ?thesis using assms(1) by (simp add: idsInv_setGameState)
next
  case Resume
  then show ?thesis using assms(1) by (simp add: idsInv_setGameState)
next
  case CameraReady
  then show ?thesis using assms(1) by (simp add: idsInv_setGameState)
qed

lemma idsInv_session:
  "distinct (drawnIds evs) \<Longrightarrow> idsInv (drawnIds evs) (session n1 evs)"
proof (induction evs rule: rev_induct)
  case Nil
  show ?case
    by (simp add: idsInv_def session_def mounted_def pauseEffect_def loopEffect_def
        initEffect_def initialEngine_def)
next
  case (snoc e evs)
  from snoc.prems have d: "distinct (drawnIds evs)" "distinct (drawnIds evs @ drawnIds [e])"
    by (simp_all add: drawnIds_append)
  from idsInv_step[OF snoc.IH[OF d(1)] d(2)]
  show ?case by (simp add: session_def drawnIds_append)
qed

lemma spawnObstacle_twice:
  assumes "sceneRef s \<noteq> None" "lavaMaterial s \<noteq> None"
  shows "map o_id (obstacles (spawnObstacle z2 l2 r2 (spawnObstacle z1 l1 r1 s))) =
           map o_id (obstacles s) @ [r1, r2]"
    and "r1 \<noteq> r2 \<Longrightarrow>
         \<exists>m1 m2. obstacleMeshes (spawnObstacle z2 l2 r2 (spawnObstacle z1 l1 r1 s)) r1 = Some m1 \<and>
                 obstacleMeshes (spawnObstacle z2 l2 r2 (spawnObstacle z1 l1 r1 s)) r2 = Some m2 \<and>
                 handle m1 \<noteq> handle m2"
  using assms by (auto simp: spawnObstacle_def Let_def)

subsection \<open>A frame with and without its hits\<close>

lemma loseLife_forget:
  "(loseLife sc g)\<lparr>lives := 0, gameOver := False, score := 0\<rparr> =
   g\<lparr>lives := 0, gameOver := False, score := 0\<rparr>"
  by (simp add: loseLife_def Let_def)

lemma forgetHits_collision: "forgetHits (collision now ob s) = forgetHits s"
  by (simp add: collision_def forgetHits_def loseLife_forget)

lemma forgetHits_fields:
  "speedRef (forgetHits s) = speedRef s" "obstacleMeshes (forgetHits s) = obstacleMeshes s"
  "scoreRef (forgetHits s) = scoreRef s" "obstacles (forgetHits s) = obstacles s"
  "sceneRef (forgetHits s) = sceneRef s" "playerState (forgetHits s) = playerState s"
  by (simp_all add: forgetHits_def)

lemma obstacleStep_forget:
  assumes "obstacleStep dt now ob (s, rem) = (ob', s', rem')"
  shows "forgetHits s' = quietStep dt ob (forgetHits s)"
proof -
  define s1 where "s1 = (case obstacleMeshes s (o_id ob) of None \<Rightarrow> s
      | Some m \<Rightarrow> s\<lparr>obstacleMeshes :=
            (obstacleMeshes s)(o_id ob \<mapsto> m\<lparr>m_z := o_z ob + speedRef s * dt\<rparr>)\<rparr>)"
  define s2 where "s2 = collision now (ob\<lparr>o_z := o_z ob + speedRef s * dt\<rparr>) s1"
  have sc: "scoreRef s2 = scoreRef s"
    by (simp add: s2_def s1_def collision_def split: option.splits)
  have s': "s' = s2\<lparr>scoreRef := scoreRef s + (if awarded (speedRef s) dt ob then 10 else 0)\<rparr>"
    using assms sc
    by (cases "obstacleMeshes s (o_id ob)")
      (auto simp: obstacleStep_def Let_def s1_def s2_def awarded_def split: if_splits)
  have f2: "forgetHits s2 = forgetHits s1"
    by (simp add: s2_def forgetHits_collision)
  have f1: "forgetHits s1 = (case obstacleMeshes s (o_id ob) of None \<Rightarrow> forgetHits s
      | Some m \<Rightarrow> (forgetHits s)\<lparr>obstacleMeshes :=
            (obstacleMeshes s)(o_id ob \<mapsto> m\<lparr>m_z := o_z ob + speedRef s * dt\<rparr>)\<rparr>)"
    by (simp add: s1_def forgetHits_def split: option.splits)
  have "forgetHits s' =
      (forgetHits s2)\<lparr>scoreRef := scoreRef s + (if awarded (speedRef s) dt ob then 10 else 0)\<rparr>"
    unfolding s' by (simp add: forgetHits_def)
  then show ?thesis
    unfolding f2 f1 quietStep_def forgetHits_fields by simp
qed

lemma quietStep_speed: "speedRef (quietStep dt ob u) = speedRef u"
  by (simp add: quietStep_def split: option.splits)

lemma obstacleLoop_forget:
  assumes "obstacleLoop dt clock k xs (s, rem) = (ys, s', rem')"
  shows "forgetHits s' = fold (quietStep dt) xs (forgetHits s)"
  using assms
proof (induction xs arbitrary: k s rem ys s' rem')
  case Nil
  then show ?case by simp
next
  case (Cons ob xs)
  obtain ob1 s1 rem1 where st: "obstacleStep dt (clock k) ob (s, rem) = (ob1, s1, rem1)"
    by (cases "obstacleStep dt (clock k) ob (s, rem)") auto
  obtain ys2 s2 rem2 where lp: "obstacleLoop dt clock (Suc k) xs (s1, rem1) = (ys2, s2, rem2)"
    by (cases "obstacleLoop dt clock (Suc k) xs (s1, rem1)") auto
  from Cons.prems st lp have e: "s' = s2" by simp
  show ?case
    unfolding e using Cons.IH[OF lp] obstacleStep_forget[OF st] by simp
qed

lemma removeObstacleMeshes_forget:
  "forgetHits (removeObstacleMeshes ids s) = removeObstacleMeshes ids (forgetHits s)"
proof (induction ids arbitrary: s)
  case Nil
  then show ?case by simp
next
  case (Cons i ids)
  define s1 where "s1 = (case (obstacleMeshes s i, sceneRef s) of
           (Some m, Some sc) \<Rightarrow> s\<lparr>sceneRef := Some (removeAll (handle m) sc)\<rparr>
         | _ \<Rightarrow> s)\<lparr>obstacleMeshes := (obstacleMeshes s)(i := None)\<rparr>"
  have "forgetHits s1 = (case (obstacleMeshes (forgetHits s) i, sceneRef (forgetHits s)) of
           (Some m, Some sc) \<Rightarrow> (forgetHits s)\<lparr>sceneRef := Some (removeAll (handle m) sc)\<rparr>
         | _ \<Rightarrow> forgetHits s)\<lparr>obstacleMeshes := (obstacleMeshes (forgetHits s))(i := None)\<rparr>"
    by (simp add: s1_def forgetHits_def split: option.splits)
  then show ?case
    using Cons.IH[of s1] by (simp add: s1_def)
qed

lemma obstacleSweep_forget:
  "forgetHits (obstacleSweep dt clock s) = forgetHits (obstacleSweep dt clock' s)"
proof -
  obtain ys s2 rem where lp: "obstacleLoop dt clock 0 (obstacles s) (s, []) = (ys, s2, rem)"
    by (cases "obstacleLoop dt clock 0 (obstacles s) (s, [])") auto
  obtain ys' s2' rem' where lp': "obstacleLoop dt clock' 0 (obstacles s) (s, []) = (ys', s2', rem')"
    by (cases "obstacleLoop dt clock' 0 (obstacles s) (s, [])") auto
  have r: "ys = ys'" "rem = rem'"
    using obstacleLoop_result[OF lp] obstacleLoop_result[OF lp'] by simp_all
  have f: "forgetHits s2 = forgetHits s2'"
    using obstacleLoop_forget[OF lp] obstacleLoop_forget[OF lp'] by simp
  have g: "forgetHits (t\<lparr>obstacles := xs\<rparr>) = (forgetHits t)\<lparr>obstacles := xs\<rparr>" for t xs
    by (simp add: forgetHits_def)
  show ?thesis
    unfolding obstacleSweep_eq[OF lp] obstacleSweep_eq[OF lp'] g removeObstacleMeshes_forget
      r f ..
qed

lemma updateGameLogic_forget:
  "forgetHits (updateGameLogic dt time clock rnd s) =
   forgetHits (updateGameLogic dt time clock' rnd s)"
  unfolding updateGameLogic_def by (rule obstacleSweep_forget)

lemma forgetHits_eq:
  assumes "forgetHits a = forgetHits b"
  shows "a = b\<lparr>lastHitTime := lastHitTime a, damageSounds := damageSounds a,
               gameState := (gameState b)\<lparr>lives := lives (gameState a),
                 gameOver := gameOver (gameState a), score := score (gameState a)\<rparr>\<rparr>"
proof -
  obtain g where g: "gameState a = g" by simp
  obtain h where h: "gameState b = h" by simp
  have gh: "g\<lparr>lives := 0, gameOver := False, score := 0\<rparr> =
            h\<lparr>lives := 0, gameOver := False, score := 0\<rparr>"
    using assms g h by (cases a; cases b) (simp add: forgetHits_def)
  have "g = h\<lparr>lives := lives g, gameOver := gameOver g, score := score g\<rparr>"
    using gh by (cases g; cases h) simp
  then show ?thesis
    using assms g h by (cases a; cases b) (simp add: forgetHits_def)
qed

subsection \<open>The score reported at game over\<close>

lemma obstacleStep_reported:
  assumes st: "obstacleStep dt now ob (s, rem) = (ob', s', rem')"
    and far: "\<forall>x\<in>set xs. o_z x \<le> o_z ob"
    and pre: "gameOver (gameState s) \<longrightarrow>
              score (gameState s) = scoreRef s \<and>
              (\<forall>x\<in>set (ob # xs). \<not> awarded (speedRef s) dt x)"
  shows "gameOver (gameState s') \<longrightarrow>
           score (gameState s') = scoreRef s' \<and> (\<forall>x\<in>set xs. \<not> awarded (speedRef s') dt x)"
proof
  assume go: "gameOver (gameState s')"
  have sp: "speedRef s' = speedRef s"
    using loopFrame_fields(2)[OF obstacleStep_frame[OF st]] .
  note sc = obstacleStep_result(3)[OF st]
  note h = obstacleStep_hit[OF st]
  show "score (gameState s') = scoreRef s' \<and> (\<forall>x\<in>set xs. \<not> awarded (speedRef s') dt x)"
  proof (cases "gameOver (gameState s)")
    case True
    with pre have p: "score (gameState s) = scoreRef s"
      "\<not> awarded (speedRef s) dt ob" "\<forall>x\<in>set xs. \<not> awarded (speedRef s) dt x" by auto
    from p(2) sc have e: "scoreRef s' = scoreRef s" by simp
    have "score (gameState s') = scoreRef s"
      using h p(1) by (auto simp: loseLife_def Let_def split: if_splits)
    then show ?thesis using e p(3) sp by simp
  next
    case False
    with go have ne: "gameState s' \<noteq> gameState s" by auto
    with h have c: "hitCandidate (playerState s) (moved (speedRef s) dt ob)"
      and g: "gameState s' = loseLife (scoreRef s) (gameState s)"
      by (auto split: if_splits)
    from c have z: "o_z ob + speedRef s * dt < 1" by (simp add: hitCandidate_def moved_def)
    then have "\<not> awarded (speedRef s) dt ob" by (simp add: awarded_def)
    with sc have e: "scoreRef s' = scoreRef s" by simp
    have "score (gameState s') = scoreRef s"
      using g go False by (auto simp: loseLife_def Let_def split: if_splits)
    moreover have "\<forall>x\<in>set xs. \<not> awarded (speedRef s) dt x"
    proof
      fix x assume "x \<in> set xs"
      with far have "o_z x \<le> o_z ob" by simp
      with z show "\<not> awarded (speedRef s) dt x" by (simp add: awarded_def)
    qed
    ultimately show ?thesis using e sp by simp
  qed
qed

lemma obstacleLoop_reported:
  assumes "obstacleLoop dt clock k xs (s, rem) = (ys, s', rem')" "nearestFirst xs"
    and "gameOver (gameState s) \<longrightarrow>
           score (gameState s) = scoreRef s \<and> (\<forall>x\<in>set xs. \<not> awarded (speedRef s) dt x)"
  shows "reported s'"
  using assms
proof (induction xs arbitrary: k s rem ys s' rem')
  case Nil
  then show ?case by (simp add: reported_def)
next
  case (Cons ob xs)
  obtain ob1 s1 rem1 where st: "obstacleStep dt (clock k) ob (s, rem) = (ob1, s1, rem1)"
    by (cases "obstacleStep dt (clock k) ob (s, rem)") auto
  obtain ys2 s2 rem2 where lp: "obstacleLoop dt clock (Suc k) xs (s1, rem1) = (ys2, s2, rem2)"
    by (cases "obstacleLoop dt clock (Suc k) xs (s1, rem1)") auto
  from Cons.prems(1) st lp have e: "s' = s2" by simp
  from Cons.prems(2) have far: "\<forall>x\<in>set xs. o_z x \<le> o_z ob" and nf: "nearestFirst xs"
    by (simp_all add: nearestFirst_def)
  from obstacleStep_reported[OF st far Cons.prems(3)]
  show ?case unfolding e by (rule Cons.IH[OF lp nf])
qed

lemma obstacleSweep_reported:
  assumes "nearestFirst (obstacles s)" "\<not> gameOver (gameState s)"
  shows "reported (obstacleSweep dt clock s)"
proof -
  obtain ys s2 rem where lp: "obstacleLoop dt clock 0 (obstacles s) (s, []) = (ys, s2, rem)"
    by (cases "obstacleLoop dt clock 0 (obstacles s) (s, [])") auto
  have "reported s2"
    by (rule obstacleLoop_reported[OF lp assms(1)]) (simp add: assms(2))
  then show ?thesis
    unfolding obstacleSweep_eq[OF lp] reported_def
    using removeObstacleMeshes_fields[of rem s2] by simp
qed

lemma beforeObstacles_orderInv:
  assumes "orderInv s"
  shows "nearestFirst (obstacles (beforeObstacles dt time rnd s)) \<and>
         (\<forall>ob\<in>set (obstacles (beforeObstacles dt time rnd s)). SPAWN_DISTANCE \<le> o_z ob)"
  using beforeObstacles_obstacles[of dt time rnd s] assms
  by (auto simp: orderInv_def nearestFirst_def sorted_wrt_append spawned_def)

lemma updateGameLogic_orderInv:
  assumes "orderInv s" "0 \<le> dt"
  shows "orderInv (updateGameLogic dt time clock rnd s)"
proof -
  define t where "t = beforeObstacles dt time rnd s"
  define spd where "spd = speedRef t"
  have t: "nearestFirst (obstacles t)" "\<forall>ob\<in>set (obstacles t). SPAWN_DISTANCE \<le> o_z ob"
    using beforeObstacles_orderInv[OF assms(1), of dt time rnd] by (simp_all add: t_def)
  have sc: "0 \<le> scoreRef s" using assms(1) by (simp add: orderInv_def)
  have "0 \<le> spd"
    using sc by (simp add: spd_def t_def beforeObstacles_fields MAX_SPEED_def START_SPEED_def min_def)
  then have sh: "0 \<le> spd * dt" using assms(2) by simp
  have z: "o_z (stepped spd dt ob) = o_z ob + spd * dt" for ob
    by (simp add: stepped_def moved_def)
  have o: "obstacles (updateGameLogic dt time clock rnd s) =
      filter (\<lambda>ob. o_id ob \<notin> o_id ` set (filter (retiring spd dt) (obstacles t)))
        (map (stepped spd dt) (obstacles t))"
    by (simp add: updateGameLogic_def obstacleSweep_result t_def spd_def)
  have a: "nearestFirst (obstacles (updateGameLogic dt time clock rnd s))"
    unfolding o nearestFirst_def
    using t(1) by (intro sorted_wrt_filter) (simp add: sorted_wrt_map z nearestFirst_def)
  have b: "\<forall>ob\<in>set (obstacles (updateGameLogic dt time clock rnd s)). SPAWN_DISTANCE \<le> o_z ob"
    unfolding o using t(2) sh by (auto simp: z intro: add_increasing2)
  have c: "0 \<le> scoreRef (updateGameLogic dt time clock rnd s)"
    using updateGameLogic_fields[of dt time clock rnd s] sc by linarith
  show ?thesis using a b c by (simp add: orderInv_def)
qed

lemma updateGameLogic_reported:
  assumes "orderInv s" "\<not> gameOver (gameState s)"
  shows "reported (updateGameLogic dt time clock rnd s)"
  unfolding updateGameLogic_def
  using beforeObstacles_orderInv[OF assms(1), of dt time rnd] assms(2)
  by (intro obstacleSweep_reported) (simp_all add: beforeObstacles_fields)

lemma orderInv_lastTime: "orderInv (s\<lparr>lastTime := t\<rparr>) = orderInv s"
  by (simp add: orderInv_def)

lemma animate_reported:
  assumes "orderInv s" "\<not> gameOver (gameState s)"
  shows "reported (animate time clock rnd s)"
proof -
  have "reported (updateGameLogic ((time - lastTime s) / 1000) time clock rnd
      (s\<lparr>lastTime := time\<rparr>))"
    by (rule updateGameLogic_reported) (simp_all add: orderInv_lastTime assms)
  then show ?thesis using assms(2) by (simp add: animate_def Let_def reported_def)
qed

lemma animate_orderInv:
  assumes "orderInv s" "lastTime s \<le> time"
  shows "orderInv (animate time clock rnd s)"
proof -
  have "orderInv (updateGameLogic ((time - lastTime s) / 1000) time clock rnd
      (s\<lparr>lastTime := time\<rparr>))"
    by (rule updateGameLogic_orderInv) (simp_all add: orderInv_lastTime assms)
  then show ?thesis using assms(1) by (simp add: animate_def Let_def orderInv_lastTime)
qed

lemma commitEffects_orderInv: "orderInv s \<Longrightarrow> orderInv (commitEffects prev n1 n2 s)"
  by (simp add: commitEffects_def loopEffect_def initEffect_def loopCleanup_def pauseEffect_def
      Let_def orderInv_def nearestFirst_def)

lemma setGameState_orderInv: "orderInv s \<Longrightarrow> orderInv (setGameState f n1 n2 s)"
  unfolding setGameState_def by (rule commitEffects_orderInv) (simp add: orderInv_def)

lemma orderInv_step:
  assumes "orderInv s" "monotoneFrames s [e]"
  shows "orderInv (step s e)"
proof (cases e)
  case (Frame time clock rnd n1 n2)
  with assms(2) have "lastTime s \<le> time" by simp
  from animate_orderInv[OF assms(1) this]
  show ?thesis unfolding Frame by (simp add: commitEffects_orderInv)
next
  case (Pose g now)
  then show ?thesis using assms(1) by (simp add: inputEffect_def orderInv_def)
qed (use assms(1) in \<open>simp_all add: setGameState_orderInv\<close>)

lemma orderInv_foldl:
  "orderInv s \<Longrightarrow> monotoneFrames s evs \<Longrightarrow> orderInv (foldl step s evs)"
proof (induction evs arbitrary: s)
  case Nil
  then show ?case by simp
next
  case (Cons e evs)
  from Cons.prems(2) have m: "monotoneFrames s [e]" "monotoneFrames (step s e) evs" by simp_all
  from Cons.IH[OF orderInv_step[OF Cons.prems(1) m(1)] m(2)] show ?case by simp
qed

lemma orderInv_session:
  "monotoneFrames (mounted n1) evs \<Longrightarrow> orderInv (session n1 evs)"
  unfolding session_def
  by (rule orderInv_foldl)
    (simp_all add: orderInv_def nearestFirst_def mounted_def pauseEffect_def loopEffect_def
      initEffect_def initialEngine_def)

lemma session_final_score:
  assumes "monotoneFrames (mounted n1) evs" "\<not> gameOver (gameState (session n1 evs))"
    "gameOver (gameState (animate time clock rnd (session n1 evs)))"
  shows "score (gameState (animate time clock rnd (session n1 evs))) =
         scoreRef (animate time clock rnd (session n1 evs))"
  using animate_reported[OF orderInv_session[OF assms(1)] assms(2), of time clock rnd] assms(3)
  by (simp add: reported_def)

subsection \<open>The player group\<close>

lemma setGroup_fields:
  "speedRef (setGroup G s) = speedRef s" "obstacles (setGroup G s) = obstacles s"
  "decorations (setGroup G s) = decorations s" "playerState (setGroup G s) = playerState s"
  "gameState (setGroup G s) = gameState s" "lastHitTime (setGroup G s) = lastHitTime s"
  "damageSounds (setGroup G s) = damageSounds s" "scoreRef (setGroup G s) = scoreRef s"
  "playerGroupRef (setGroup G s) = G"
  by (simp_all add: setGroup_def)

lemma setGroup_idem: "setGroup G (setGroup G' s) = setGroup G s"
  by (simp add: setGroup_def)

lemma spawnDecoration_group:
  "spawnDecoration z r (setGroup G s) = setGroup G (spawnDecoration z r s)"
  by (simp add: spawnDecoration_def setGroup_def Let_def split: option.splits)

lemma decorStep_group:
  "decorStep dt d (setGroup G s, rem) =
     (case decorStep dt d (s, rem) of (d', s', rem') \<Rightarrow> (d', setGroup G s', rem'))"
  by (simp add: decorStep_def setGroup_def Let_def split: option.splits)

lemma decorLoop_group:
  "decorLoop dt xs (setGroup G s, rem) =
     (case decorLoop dt xs (s, rem) of (ys, s', rem') \<Rightarrow> (ys, setGroup G s', rem'))"
proof (induction xs arbitrary: s rem)
  case Nil
  then show ?case by simp
next
  case (Cons d xs)
  obtain d1 s1 rem1 where st: "decorStep dt d (s, rem) = (d1, s1, rem1)"
    by (cases "decorStep dt d (s, rem)") auto
  obtain ys2 s2 rem2 where lp: "decorLoop dt xs (s1, rem1) = (ys2, s2, rem2)"
    by (cases "decorLoop dt xs (s1, rem1)") auto
  show ?case
    by (simp add: decorStep_group st Cons.IH lp)
qed

lemma removeDecorationMeshes_group:
  "removeDecorationMeshes ids (setGroup G s) = setGroup G (removeDecorationMeshes ids s)"
proof (induction ids arbitrary: s)
  case Nil
  then show ?case by simp
next
  case (Cons i ids)
  define s1 where "s1 = (case (decorationMeshes s i, sceneRef s) of
           (Some m, Some sc) \<Rightarrow> s\<lparr>sceneRef := Some (removeAll (handle m) sc)\<rparr>
         | _ \<Rightarrow> s)\<lparr>decorationMeshes := (decorationMeshes s)(i := None)\<rparr>"
  have "(case (decorationMeshes (setGroup G s) i, sceneRef (setGroup G s)) of
           (Some m, Some sc) \<Rightarrow> (setGroup G s)\<lparr>sceneRef := Some (removeAll (handle m) sc)\<rparr>
         | _ \<Rightarrow> setGroup G s)\<lparr>decorationMeshes := (decorationMeshes (setGroup G s))(i := None)\<rparr>
        = setGroup G s1"
    by (simp add: s1_def setGroup_def split: option.splits)
  then show ?case using Cons.IH[of s1] by (simp add: s1_def)
qed

lemma decorLogic_group:
  "decorLogic dt time rnd (setGroup G s) = setGroup G (decorLogic dt time rnd s)"
proof -
  define s1 where "s1 = (if decorSpawnDue time (lastDecorSpawnTime s) (speedRef s)
                then (spawnDecoration (SPAWN_DISTANCE - r_jitter (r_decor1 rnd) * 20) (r_decor1 rnd)
                       (spawnDecoration (SPAWN_DISTANCE - r_jitter (r_decor0 rnd) * 20)
                          (r_decor0 rnd) s))
                     \<lparr>lastDecorSpawnTime := time\<rparr>
                else s)"
  have g1: "(if decorSpawnDue time (lastDecorSpawnTime (setGroup G s)) (speedRef (setGroup G s))
                then (spawnDecoration (SPAWN_DISTANCE - r_jitter (r_decor1 rnd) * 20) (r_decor1 rnd)
                       (spawnDecoration (SPAWN_DISTANCE - r_jitter (r_decor0 rnd) * 20)
                          (r_decor0 rnd) (setGroup G s)))
                     \<lparr>lastDecorSpawnTime := time\<rparr>
                else setGroup G s) = setGroup G s1"
    unfolding spawnDecoration_group s1_def by (simp add: setGroup_def)
  obtain ys s2 rem where lp: "decorLoop dt (decorations s1) (s1, []) = (ys, s2, rem)"
    by (cases "decorLoop dt (decorations s1) (s1, [])") auto
  have d: "decorations (setGroup G s1) = decorations s1" by (simp add: setGroup_def)
  have u: "(setGroup G t)\<lparr>decorations := xs\<rparr> = setGroup G (t\<lparr>decorations := xs\<rparr>)" for t xs
    by (simp add: setGroup_def)
  show ?thesis
    unfolding decorLogic_def Let_def g1 d decorLoop_group s1_def[symmetric] lp
    by (simp add: removeDecorationMeshes_group u)
qed

lemma obstacleSpawn_group:
  "obstacleSpawn time rnd (setGroup G s) = setGroup G (obstacleSpawn time rnd s)"
  by (simp add: obstacleSpawn_def spawnObstacle_def setGroup_def Let_def split: option.splits)

lemma obstacleStep_group:
  "obstacleStep dt now ob (setGroup G s, rem) =
     (case obstacleStep dt now ob (s, rem) of (ob', s', rem') \<Rightarrow> (ob', setGroup G s', rem'))"
  by (cases "obstacleMeshes s (o_id ob)")
    (simp_all add: obstacleStep_def collision_def setGroup_def Let_def)

lemma obstacleLoop_group:
  "obstacleLoop dt clock k xs (setGroup G s, rem) =
     (case obstacleLoop dt clock k xs (s, rem) of (ys, s', rem') \<Rightarrow> (ys, setGroup G s', rem'))"
proof (induction xs arbitrary: k s rem)
  case Nil
  then show ?case by simp
next
  case (Cons ob xs)
  obtain ob1 s1 rem1 where st: "obstacleStep dt (clock k) ob (s, rem) = (ob1, s1, rem1)"
    by (cases "obstacleStep dt (clock k) ob (s, rem)") auto
  obtain ys2 s2 rem2 where lp: "obstacleLoop dt clock (Suc k) xs (s1, rem1) = (ys2, s2, rem2)"
    by (cases "obstacleLoop dt clock (Suc k) xs (s1, rem1)") auto
  show ?case
    by (simp add: obstacleStep_group st Cons.IH lp)
qed

lemma removeObstacleMeshes_group:
  "removeObstacleMeshes ids (setGroup G s) = setGroup G (removeObstacleMeshes ids s)"
proof (induction ids arbitrary: s)
  case Nil
  then show ?case by simp
next
  case (Cons i ids)
  define s1 where "s1 = (case (obstacleMeshes s i, sceneRef s) of
           (Some m, Some sc) \<Rightarrow> s\<lparr>sceneRef := Some (removeAll (handle m) sc)\<rparr>
         | _ \<Rightarrow> s)\<lparr>obstacleMeshes := (obstacleMeshes s)(i := None)\<rparr>"
  have "(case (obstacleMeshes (setGroup G s) i, sceneRef (setGroup G s)) of
           (Some m, Some sc) \<Rightarrow> (setGroup G s)\<lparr>sceneRef := Some (removeAll (handle m) sc)\<rparr>
         | _ \<Rightarrow> setGroup G s)\<lparr>obstacleMeshes := (obstacleMeshes (setGroup G s))(i := None)\<rparr>
        = setGroup G s1"
    by (simp add: s1_def setGroup_def split: option.splits)
  then show ?case using Cons.IH[of s1] by (simp add: s1_def)
qed

lemma obstacleSweep_group:
  "obstacleSweep dt clock (setGroup G s) = setGroup G (obstacleSweep dt clock s)"
proof -
  obtain ys s2 rem where lp: "obstacleLoop dt clock 0 (obstacles s) (s, []) = (ys, s2, rem)"
    by (cases "obstacleLoop dt clock 0 (obstacles s) (s, [])") auto
  have u: "(setGroup G t)\<lparr>obstacles := xs\<rparr> = setGroup G (t\<lparr>obstacles := xs\<rparr>)" for t xs
    by (simp add: setGroup_def)
  show ?thesis
    unfolding obstacleSweep_def setGroup_fields obstacleLoop_group lp
    by (simp add: removeObstacleMeshes_group u)
qed

lemma playerLogic_group:
  "playerLogic dt time (setGroup (Some g) s) =
   setGroup (playerGroupRef (playerLogic dt time (setGroup (Some g) s)))
     (playerLogic dt time (setGroup (Some g') s))"
  by (simp add: playerLogic_def setGroup_def Let_def)

lemma updateGameLogic_group:
  "updateGameLogic dt time clock rnd (setGroup (Some g) s) =
   setGroup (playerGroupRef (updateGameLogic dt time clock rnd (setGroup (Some g) s)))
     (updateGameLogic dt time clock rnd (setGroup (Some g') s))"
proof -
  define u where "u = (\<lambda>h. playerLogic dt time (animateMaterials dt (difficulty (setGroup (Some h) s))))"
  define rest where "rest = (\<lambda>t. obstacleSweep dt clock (obstacleSpawn time rnd (decorLogic dt time rnd t)))"
  have r: "rest (setGroup G t) = setGroup G (rest t)" for G t
    by (simp add: rest_def decorLogic_group obstacleSpawn_group obstacleSweep_group)
  have e: "updateGameLogic dt time clock rnd (setGroup (Some h) s) = rest (u h)" for h
    by (simp add: updateGameLogic_def beforeObstacles_def rest_def u_def)
  have c: "animateMaterials dt (difficulty (setGroup (Some h) s)) =
      setGroup (Some h) (animateMaterials dt (difficulty s))" for h
    by (simp add: animateMaterials_def difficulty_def setGroup_def split: option.splits)
  have p: "u g = setGroup (playerGroupRef (u g)) (u g')"
    unfolding u_def c by (rule playerLogic_group)
  have "rest (u g) = setGroup (playerGroupRef (u g)) (rest (u g'))"
    by (subst p) (simp add: r)
  moreover have "playerGroupRef (rest (u g)) = playerGroupRef (u g)"
    by (subst p) (simp add: r setGroup_fields)
  ultimately show ?thesis unfolding e by simp
qed

lemma updateGameLogic_playerGroup:
  "(playerGroupRef (updateGameLogic dt time clock rnd s) = None) = (playerGroupRef s = None)"
proof -
  have "playerGroupRef (updateGameLogic dt time clock rnd s) =
      playerGroupRef (playerLogic dt time (animateMaterials dt (difficulty s)))"
    by (simp add: updateGameLogic_def beforeObstacles_def obstacleSweep_fields
        obstacleSpawn_fields decorLogic_fields)
  then show ?thesis
    by (simp add: playerLogic_def animateMaterials_def difficulty_def Let_def
        split: option.splits)
qed

lemma step_playerGroup: "playerGroupRef s \<noteq> None \<Longrightarrow> playerGroupRef (step s e) \<noteq> None"
proof (cases e)
  case (Frame time clock rnd n1 n2)
  assume a: "playerGroupRef s \<noteq> None"
  have "playerGroupRef (animate time clock rnd s) \<noteq> None"
    using a updateGameLogic_playerGroup[of "(time - lastTime s) / 1000" time clock rnd
        "s\<lparr>lastTime := time\<rparr>"]
    by (auto simp: animate_def Let_def)
  then show ?thesis unfolding Frame
    by (simp add: commitEffects_def loopEffect_def initEffect_def loopCleanup_def
        pauseEffect_def Let_def)
qed (simp_all add: setGameState_def commitEffects_def loopEffect_def initEffect_def
      loopCleanup_def pauseEffect_def inputEffect_def Let_def)

lemma foldl_playerGroup:
  "playerGroupRef s \<noteq> None \<Longrightarrow> playerGroupRef (foldl step s evs) \<noteq> None"
proof (induction evs arbitrary: s)
  case Nil
  then show ?case by simp
next
  case (Cons e evs)
  from Cons.IH[OF step_playerGroup[OF Cons.prems]] show ?case by simp
qed

lemma session_playerGroup: "playerGroupRef (session n1 evs) \<noteq> None"
  unfolding session_def
  by (rule foldl_playerGroup)
    (simp add: mounted_def pauseEffect_def loopEffect_def initEffect_def initialEngine_def)

subsection \<open>The examples, evaluated\<close>

lemmas GAME_CONSTANTS =
  LANE_WIDTH_def JUMP_HEIGHT_def JUMP_DURATION_def START_SPEED_def MAX_SPEED_def
  SPAWN_DISTANCE_def SPAWN_INTERVAL_BASE_def INVINCIBILITY_DURATION_def

lemmas engine_defs =
  mounted_def pauseEffect_def loopEffect_def initEffect_def loopCleanup_def
  initialEngine_def initialGameState_def handleStart_def onCameraReady_def
  setGameState_def commitEffects_def

lemmas frame_defs =
  animate_def updateGameLogic_def beforeObstacles_def difficulty_def animateMaterials_def
  playerLogic_def jumpPhysics_def decorLogic_def decorSpawnDue_def spawnDecoration_def
  decoKindOf_def decorStep_def obstacleSpawn_def spawnDue_def spawnObstacle_def
  obstacleSweep_def obstacleStep_def collision_def loseLife_def
  exampleDraws_def exampleDecor_def hitClock_def Let_def

lemma exampleEngine_fields:
  "lives (gameState exampleEngine) = 3" "lastHitTime exampleEngine = 0"
  "damageSounds exampleEngine = 0" "scoreRef exampleEngine = 0"
  "playerState exampleEngine = \<lparr>lane = 1, isJumping = False, jumpStartTime = 0, yPosition = 0\<rparr>"
  "playerGroupRef exampleEngine = Some \<lparr>pos_x = 0, pos_y = 0, visible = True\<rparr>"
  "obstacles exampleEngine = [exampleObstacle]"
  by (simp_all add: exampleEngine_def mounted_def pauseEffect_def loopEffect_def initEffect_def
      initialEngine_def initialGameState_def handleStart_def onCameraReady_def)

lemma exampleEngine_before:
  "obstacles (beforeObstacles 0 5000 exampleDraws exampleEngine) = [exampleObstacle]"
  by (simp add: beforeObstacles_def obstacleSpawn_def spawnDue_def decorLogic_fields
      playerLogic_fields animateMaterials_def difficulty_def exampleEngine_def mounted_def
      pauseEffect_def loopEffect_def initEffect_def initialEngine_def initialGameState_def
      START_SPEED_def MAX_SPEED_def SPAWN_INTERVAL_BASE_def split: option.splits)

lemma exampleEngine_frameObstacles:
  "frameObstacles 0 5000 exampleDraws exampleEngine = [exampleObstacle]"
  by (simp add: frameObstacles_def exampleEngine_before moved_def)

lemma exampleSession_final:
  "gameState (session 0 exampleSession) =
     \<lparr>isPlaying = True, isPaused = False, score = 0, gameOver = True, speed = 0,
      cameraReady = True, lastLaneChange = 0, lives = 0\<rparr>"
  by (simp add: session_def exampleSession_def engine_defs frame_defs GAME_CONSTANTS)

lemma exampleEngine_no_spawn:
  "obstacles (beforeObstacles dt 5000 rnd (exampleEngine\<lparr>obstacles := xs\<rparr>)) = xs"
  by (simp add: beforeObstacles_def obstacleSpawn_def spawnDue_def decorLogic_fields
      playerLogic_fields animateMaterials_def difficulty_def exampleEngine_def mounted_def
      pauseEffect_def loopEffect_def initEffect_def initialEngine_def initialGameState_def
      START_SPEED_def MAX_SPEED_def SPAWN_INTERVAL_BASE_def split: option.splits)

lemma examplePassing_frames:
  "scoreRef (updateGameLogic (1 / 20) 5000 (hitClock 5000) exampleDraws examplePassing) = 10"
  "obstacles (updateGameLogic (1 / 20) 5000 (hitClock 5000) exampleDraws examplePassing) = []"
  "scoreRef (updateGameLogic (1 / 60) 5000 (hitClock 5000) exampleDraws examplePassing) = 0"
  "obstacles (updateGameLogic (1 / 60) 5000 (hitClock 5000) exampleDraws examplePassing) =
     [exampleObstacle\<lparr>o_z := 5\<rparr>]"
  by (simp_all add: examplePassing_def exampleEngine_def exampleObstacle_def engine_defs
      frame_defs GAME_CONSTANTS)

lemma exampleEngine_flags:
  "isPlayingRef exampleEngine" "\<not> isPausedRef exampleEngine" "lastTime exampleEngine = 5000"
  by (simp_all add: exampleEngine_def mounted_def pauseEffect_def loopEffect_def initEffect_def
      initialEngine_def initialGameState_def)

lemma exampleEngine_moved:
  "obstacles (updateGameLogic (1 / 20) 5000 (hitClock 5000) exampleDraws exampleEngine) =
     [exampleObstacle\<lparr>o_z := 0.25\<rparr>]"
  "decorations (updateGameLogic (1 / 20) 5000 (hitClock 5000) exampleDraws exampleDecorated) =
     [\<lparr>d_id = 0.75, d_x = 33, d_z = - 69.25, d_type = Flower, d_rotation = 0\<rparr>]"
  by (simp_all add: exampleDecorated_def exampleEngine_def exampleObstacle_def engine_defs
      frame_defs GAME_CONSTANTS)

lemma mounted_refs: "sceneRef (mounted 0) = Some []" "lavaMaterial (mounted 0) = Some 0"
  "obstacles (mounted 0) = []"
  by (simp_all add: mounted_def pauseEffect_def loopEffect_def initEffect_def initialEngine_def)

lemma scoringSession_eval:
  "monotoneFrames (mounted 0) scoringSession"
  "gameState (session 0 scoringSession) =
     \<lparr>isPlaying = True, isPaused = False, score = 0, gameOver = False, speed = 0,
      cameraReady = True, lastLaneChange = 0, lives = 1\<rparr>"
  "gameState (animate 8000 (hitClock 11000) exampleDraws (session 0 scoringSession)) =
     \<lparr>isPlaying = True, isPaused = False, score = 10, gameOver = True, speed = 0,
      cameraReady = True, lastLaneChange = 0, lives = 0\<rparr>"
  by (simp_all add: session_def scoringSession_def engine_defs frame_defs GAME_CONSTANTS)

lemma exampleSession_obstacles:
  "map o_id (obstacles (session 0 (take 4 exampleSession))) = [0.125]"
  "scoreRef (session 0 (take 4 exampleSession)) = 0"
  "obstacles (session 0 exampleSession) = []"
  by (simp_all add: session_def exampleSession_def engine_defs frame_defs GAME_CONSTANTS)

section \<open>The claims\<close>

text \<open>
  C1. In a frame whose collision checks read the clock value \<open>now\<close>, with at least one
  life left (as whenever the animation loop of a session is running), a life is lost exactly when some obstacle
  of the frame, at its position of this frame, has z strictly between -1 and 1 and the
  player's lane, the player's height of this frame is below 1.1, and
  \<open>now - lastHitTime > INVINCIBILITY_DURATION\<close>. Then lives drops by exactly 1,
  \<open>lastHitTime\<close> becomes \<open>now\<close> and the damage sound is played once; otherwise none of
  the three changes. At a height of 1.1 or more no life is lost.
\<close>

theorem C1_life_lost_exactly_on_hit:
  assumes "0 < lives (gameState s)"
  shows
    "let s' = updateGameLogic dt time (\<lambda>_. now) rnd s;
         p = playerState s';
         hit = ((\<exists>ob\<in>set (frameObstacles dt time rnd s).
                   - 1 < o_z ob \<and> o_z ob < 1 \<and> o_lane ob = lane p \<and> yPosition p < 1.1) \<and>
                now - lastHitTime s > INVINCIBILITY_DURATION)
     in (lives (gameState s') < lives (gameState s) \<longleftrightarrow> hit) \<and>
        (hit \<longrightarrow> lives (gameState s') = lives (gameState s) - 1 \<and> lastHitTime s' = now \<and>
                damageSounds s' = damageSounds s + 1) \<and>
        (\<not> hit \<longrightarrow> lives (gameState s') = lives (gameState s) \<and>
                lastHitTime s' = lastHitTime s \<and> damageSounds s' = damageSounds s) \<and>
        (1.1 \<le> yPosition p \<longrightarrow> lives (gameState s') = lives (gameState s)) \<and>
        lane p = lane (playerState s) \<and>
        (isPlayingRef (session n1 evs) \<longrightarrow> 0 < lives (gameState (session n1 evs)))"
proof -
  define s' where "s' = updateGameLogic dt time (\<lambda>_. now) rnd s"
  define hit where "hit = ((\<exists>ob\<in>set (frameObstacles dt time rnd s).
                   hitCandidate (playerState s') ob) \<and>
                now - lastHitTime s > INVINCIBILITY_DURATION)"
  have ln: "lane (playerState s') = lane (playerState s)"
    unfolding s'_def
    by (simp add: updateGameLogic_fields jumpPhysics_lane split: option.splits)
  have a: "lives (gameState s') = lives (gameState s) - 1" "lastHitTime s' = now"
    "damageSounds s' = damageSounds s + 1" if hit
    using updateGameLogic_hit[of dt time rnd s now] that assms
    unfolding s'_def hit_def by (auto simp: loseLife_lives)
  have b: "lives (gameState s') = lives (gameState s)" "lastHitTime s' = lastHitTime s"
    "damageSounds s' = damageSounds s" if "\<not> hit"
    using updateGameLogic_nohit[of dt time rnd s now] that
    unfolding s'_def hit_def by auto
  have c: "\<not> hit" if "1.1 \<le> yPosition (playerState s')"
    using that by (auto simp: hit_def hitCandidate_def)
  have "(lives (gameState s') < lives (gameState s) \<longleftrightarrow> hit) \<and>
        (hit \<longrightarrow> lives (gameState s') = lives (gameState s) - 1 \<and> lastHitTime s' = now \<and>
                damageSounds s' = damageSounds s + 1) \<and>
        (\<not> hit \<longrightarrow> lives (gameState s') = lives (gameState s) \<and>
                lastHitTime s' = lastHitTime s \<and> damageSounds s' = damageSounds s) \<and>
        (1.1 \<le> yPosition (playerState s') \<longrightarrow> lives (gameState s') = lives (gameState s)) \<and>
        lane (playerState s') = lane (playerState s) \<and>
        (isPlayingRef (session n1 evs) \<longrightarrow> 0 < lives (gameState (session n1 evs)))"
    using a b c ln session_playing_lives[of n1 evs] by (cases hit) auto
  then show ?thesis
    unfolding Let_def s'_def[symmetric] hit_def hitCandidate_def by simp
qed

theorem C1_hit_witness:
  "0 < lives (gameState exampleEngine) \<and>
   lives (gameState (updateGameLogic 0 5000 (\<lambda>_. 5000) exampleDraws exampleEngine)) = 2 \<and>
   lastHitTime (updateGameLogic 0 5000 (\<lambda>_. 5000) exampleDraws exampleEngine) = 5000 \<and>
   damageSounds (updateGameLogic 0 5000 (\<lambda>_. 5000) exampleDraws exampleEngine) = 1"
proof -
  have h: "0 < lives (gameState exampleEngine)" by (simp add: exampleEngine_fields)
  have p: "playerState (updateGameLogic 0 5000 (\<lambda>_. 5000) exampleDraws exampleEngine) =
      \<lparr>lane = 1, isJumping = False, jumpStartTime = 0, yPosition = 0\<rparr>"
    by (simp add: updateGameLogic_fields exampleEngine_fields jumpPhysics_def)
  show ?thesis
    using C1_life_lost_exactly_on_hit[OF h, of 0 5000 5000 exampleDraws]
    by (simp add: Let_def p exampleEngine_frameObstacles exampleEngine_fields
        exampleObstacle_def INVINCIBILITY_DURATION_def)
qed

text \<open>
  C2. While the player is jumping (and the player's group exists, as it does in every
  state of a session), a frame at \<open>time\<close> with
  \<open>(time - jumpStartTime) / 1000 < JUMP_DURATION\<close> sets \<open>yPosition\<close> to
  \<open>JUMP_HEIGHT * 4 * t * (1 - t)\<close> for \<open>t = (time - jumpStartTime) / 1000 / JUMP_DURATION\<close>
  and the player stays in the jump. The curve is 0 at \<open>t = 0\<close>, tends to 0 as \<open>t\<close> tends
  to 1 from below and is \<open>JUMP_HEIGHT\<close> at \<open>t = 1/2\<close>. A frame with
  \<open>(time - jumpStartTime) / 1000 \<ge> JUMP_DURATION\<close> ends the jump with \<open>yPosition = 0\<close>.
\<close>

theorem C2_jump_curve:
  "(isJumping (playerState s) \<and> playerGroupRef s \<noteq> None \<and>
    (time - jumpStartTime (playerState s)) / 1000 < JUMP_DURATION \<longrightarrow>
      yPosition (playerState (updateGameLogic dt time clock rnd s)) =
        JUMP_HEIGHT * 4 * ((time - jumpStartTime (playerState s)) / 1000 / JUMP_DURATION) *
          (1 - (time - jumpStartTime (playerState s)) / 1000 / JUMP_DURATION) \<and>
      isJumping (playerState (updateGameLogic dt time clock rnd s))) \<and>
   (\<forall>t. jumpCurve t = JUMP_HEIGHT * 4 * t * (1 - t)) \<and>
   jumpCurve 0 = 0 \<and> (jumpCurve \<longlongrightarrow> 0) (at_left 1) \<and> jumpCurve (1 / 2) = JUMP_HEIGHT \<and>
   (isJumping (playerState s) \<and> playerGroupRef s \<noteq> None \<and>
    (time - jumpStartTime (playerState s)) / 1000 \<ge> JUMP_DURATION \<longrightarrow>
      \<not> isJumping (playerState (updateGameLogic dt time clock rnd s)) \<and>
      yPosition (playerState (updateGameLogic dt time clock rnd s)) = 0) \<and>
   playerGroupRef (session n1 evs) \<noteq> None"
proof -
  have p: "playerState (updateGameLogic dt time clock rnd s) = jumpPhysics time (playerState s)"
    if "playerGroupRef s \<noteq> None"
    using that by (auto simp: updateGameLogic_fields)
  have a: "yPosition (jumpPhysics time (playerState s)) =
        JUMP_HEIGHT * 4 * ((time - jumpStartTime (playerState s)) / 1000 / JUMP_DURATION) *
          (1 - (time - jumpStartTime (playerState s)) / 1000 / JUMP_DURATION) \<and>
      isJumping (jumpPhysics time (playerState s))"
    if "isJumping (playerState s)" "(time - jumpStartTime (playerState s)) / 1000 < JUMP_DURATION"
    using that by (simp add: jumpPhysics_def Let_def jumpCurve_def)
  have b: "\<not> isJumping (jumpPhysics time (playerState s)) \<and>
      yPosition (jumpPhysics time (playerState s)) = 0"
    if "isJumping (playerState s)" "(time - jumpStartTime (playerState s)) / 1000 \<ge> JUMP_DURATION"
    using that by (simp add: jumpPhysics_def Let_def)
  have c: "jumpCurve 0 = 0" "jumpCurve (1 / 2) = JUMP_HEIGHT"
    by (simp_all add: jumpCurve_def)
  have d: "\<forall>t. jumpCurve t = JUMP_HEIGHT * 4 * t * (1 - t)"
    by (simp add: jumpCurve_def)
  show ?thesis using p a b c d jumpCurve_limit session_playerGroup[of n1 evs] by simp
qed

theorem C2_jump_witness:
  "isJumping (playerState exampleJumping) \<and> playerGroupRef exampleJumping \<noteq> None \<and>
   (5000 - jumpStartTime (playerState exampleJumping)) / 1000 < JUMP_DURATION \<and>
   yPosition (playerState (updateGameLogic 0.016 5000 (\<lambda>_. 5000) exampleDraws exampleJumping)) = 3.5 \<and>
   (5400 - jumpStartTime (playerState exampleJumping)) / 1000 \<ge> JUMP_DURATION \<and>
   yPosition (playerState (updateGameLogic 0.016 5400 (\<lambda>_. 5400) exampleDraws exampleJumping)) = 0 \<and>
   \<not> isJumping (playerState (updateGameLogic 0.016 5400 (\<lambda>_. 5400) exampleDraws exampleJumping))"
proof -
  have f: "playerState exampleJumping =
      \<lparr>lane = 1, isJumping = True, jumpStartTime = 4650, yPosition = 0\<rparr>"
    "playerGroupRef exampleJumping = Some \<lparr>pos_x = 0, pos_y = 0, visible = True\<rparr>"
    by (simp_all add: exampleJumping_def exampleEngine_fields)
  have h1: "isJumping (playerState exampleJumping) \<and> playerGroupRef exampleJumping \<noteq> None \<and>
      (5000 - jumpStartTime (playerState exampleJumping)) / 1000 < JUMP_DURATION"
    by (simp add: f JUMP_DURATION_def)
  have h2: "isJumping (playerState exampleJumping) \<and> playerGroupRef exampleJumping \<noteq> None \<and>
      (5400 - jumpStartTime (playerState exampleJumping)) / 1000 \<ge> JUMP_DURATION"
    by (simp add: f JUMP_DURATION_def)
  have a: "yPosition (playerState (updateGameLogic 0.016 5000 (\<lambda>_. 5000) exampleDraws
      exampleJumping)) = 3.5"
    using C2_jump_curve[of exampleJumping 5000 "0.016" "\<lambda>_. 5000" exampleDraws] h1
    by (simp add: f JUMP_DURATION_def JUMP_HEIGHT_def)
  have b: "yPosition (playerState (updateGameLogic 0.016 5400 (\<lambda>_. 5400) exampleDraws
      exampleJumping)) = 0 \<and>
      \<not> isJumping (playerState (updateGameLogic 0.016 5400 (\<lambda>_. 5400) exampleDraws exampleJumping))"
    using C2_jump_curve[of exampleJumping 5400 "0.016" "\<lambda>_. 5400" exampleDraws] h2
    by (simp add: f JUMP_DURATION_def)
  from h1 h2 a b show ?thesis by blast
qed

text \<open>
  C3. Every frame recomputes the speed from the score alone, as
  \<open>min MAX_SPEED (START_SPEED + score / 50)\<close>. For a score that is not negative (every
  score of a session is not) this is the spec's
  \<open>clamp (START_SPEED + score / 50) START_SPEED MAX_SPEED\<close>, it lies between
  \<open>START_SPEED = 15\<close> and \<open>MAX_SPEED = 40\<close>, and a larger score never gives a smaller
  speed.
\<close>

theorem C3_speed_from_score:
  "speedRef (updateGameLogic dt time clock rnd s) =
     min MAX_SPEED (START_SPEED + real_of_int (scoreRef s) / 50) \<and>
   (0 \<le> scoreRef s \<longrightarrow>
      speedRef (updateGameLogic dt time clock rnd s) =
        clamp (START_SPEED + real_of_int (scoreRef s) / 50) START_SPEED MAX_SPEED \<and>
      START_SPEED \<le> speedRef (updateGameLogic dt time clock rnd s) \<and>
      speedRef (updateGameLogic dt time clock rnd s) \<le> MAX_SPEED) \<and>
   speedRef (updateGameLogic dt time clock rnd (session n1 evs)) =
     clamp (START_SPEED + real_of_int (scoreRef (session n1 evs)) / 50) START_SPEED MAX_SPEED \<and>
   START_SPEED = 15 \<and> MAX_SPEED = 40 \<and>
   (scoreRef s \<le> scoreRef s' \<longrightarrow>
      speedRef (updateGameLogic dt time clock rnd s) \<le>
      speedRef (updateGameLogic dt' time' clock' rnd' s'))"
proof -
  have sp: "\<And>dt time clock rnd s. speedRef (updateGameLogic dt time clock rnd s) =
      min MAX_SPEED (START_SPEED + real_of_int (scoreRef s) / 50)"
    by (simp add: updateGameLogic_fields)
  have cl: "min MAX_SPEED (START_SPEED + real_of_int sc / 50) =
      clamp (START_SPEED + real_of_int sc / 50) START_SPEED MAX_SPEED" if "0 \<le> sc" for sc
    using that by (simp add: clamp_def START_SPEED_def MAX_SPEED_def max_def min_def)
  have mono: "min MAX_SPEED (START_SPEED + real_of_int a / 50) \<le>
      min MAX_SPEED (START_SPEED + real_of_int b / 50)" if "a \<le> b" for a b
    using that by (simp add: min_def)
  show ?thesis
    unfolding sp
    using cl[of "scoreRef s"] cl[OF session_score_nonneg[of n1 evs]] mono[of "scoreRef s" "scoreRef s'"]
    by (auto simp: clamp_def START_SPEED_def MAX_SPEED_def)
qed

theorem C3_speed_witness:
  "0 \<le> scoreRef (initialEngine\<lparr>scoreRef := 500\<rparr>) \<and>
   scoreRef (initialEngine\<lparr>scoreRef := 500\<rparr>) \<le> scoreRef (initialEngine\<lparr>scoreRef := 2000\<rparr>) \<and>
   speedRef (updateGameLogic 0 1000 (\<lambda>_. 1000) exampleDraws (initialEngine\<lparr>scoreRef := 500\<rparr>)) = 25 \<and>
   speedRef (updateGameLogic 0 1000 (\<lambda>_. 1000) exampleDraws (initialEngine\<lparr>scoreRef := 500\<rparr>)) \<le>
   speedRef (updateGameLogic 0 1000 (\<lambda>_. 1000) exampleDraws (initialEngine\<lparr>scoreRef := 2000\<rparr>))"
proof -
  note t = C3_speed_from_score[of 0 1000 "\<lambda>_. 1000" exampleDraws
      "initialEngine\<lparr>scoreRef := 500\<rparr>" 0 "[]" "initialEngine\<lparr>scoreRef := 2000\<rparr>"
      0 1000 "\<lambda>_. 1000" exampleDraws]
  have h1: "0 \<le> scoreRef (initialEngine\<lparr>scoreRef := 500\<rparr>)" by simp
  have h2: "scoreRef (initialEngine\<lparr>scoreRef := 500\<rparr>) \<le>
            scoreRef (initialEngine\<lparr>scoreRef := 2000\<rparr>)" by simp
  from t have "speedRef (updateGameLogic 0 1000 (\<lambda>_. 1000) exampleDraws
        (initialEngine\<lparr>scoreRef := 500\<rparr>)) =
      min MAX_SPEED (START_SPEED + real_of_int (scoreRef (initialEngine\<lparr>scoreRef := 500\<rparr>)) / 50)"
    by (rule conjunct1)
  then have a: "speedRef (updateGameLogic 0 1000 (\<lambda>_. 1000) exampleDraws
        (initialEngine\<lparr>scoreRef := 500\<rparr>)) = 25"
    by (simp add: START_SPEED_def MAX_SPEED_def)
  from t h2 have b: "speedRef (updateGameLogic 0 1000 (\<lambda>_. 1000) exampleDraws
        (initialEngine\<lparr>scoreRef := 500\<rparr>)) \<le>
      speedRef (updateGameLogic 0 1000 (\<lambda>_. 1000) exampleDraws
        (initialEngine\<lparr>scoreRef := 2000\<rparr>))"
    by blast
  from h1 h2 a b show ?thesis by blast
qed

text \<open>
  C4. In every state of a session lives is between 0 and 3. It is 3 when the component
  is mounted and after Start and Restart. A hit applied with a life left takes exactly
  one life and leaves lives at 0 or more; when that makes lives 0 the game-over flag is
  set and the score accumulator is copied into \<open>gameState\<close>. In a session lives is 0
  exactly in the game-over states, and there an animation frame and a pose update
  change nothing. When the frame times of a session never run backwards, the score a
  frame reports on ending the game is the accumulator's value at the end of that frame.
\<close>

theorem C4_lives_in_range:
  "0 \<le> lives (gameState (session n1 evs)) \<and> lives (gameState (session n1 evs)) \<le> 3 \<and>
   lives (gameState (session n1 [])) = 3 \<and>
   lives (handleStart g) = 3 \<and> lives (handleRestart g) = 3 \<and>
   (hitCandidate (playerState s) ob \<and> now - lastHitTime s > INVINCIBILITY_DURATION \<and>
    0 < lives (gameState s) \<longrightarrow>
      lives (gameState (collision now ob s)) = lives (gameState s) - 1 \<and>
      0 \<le> lives (gameState (collision now ob s)) \<and>
      (lives (gameState (collision now ob s)) = 0 \<longrightarrow>
         gameOver (gameState (collision now ob s)) \<and>
         score (gameState (collision now ob s)) = scoreRef s)) \<and>
   (lives (gameState (session n1 evs)) = 0 \<longleftrightarrow> gameOver (gameState (session n1 evs))) \<and>
   (gameOver (gameState (session n1 evs)) \<longrightarrow>
      animate time clock rnd (session n1 evs) = session n1 evs \<and>
      step (session n1 evs) (Frame time clock rnd n2 n3) = session n1 evs \<and>
      step (session n1 evs) (Pose g' now') = session n1 evs) \<and>
   (monotoneFrames (mounted n1) evs \<and> \<not> gameOver (gameState (session n1 evs)) \<and>
    gameOver (gameState (animate time clock rnd (session n1 evs))) \<longrightarrow>
      lives (gameState (animate time clock rnd (session n1 evs))) = 0 \<and>
      score (gameState (animate time clock rnd (session n1 evs))) =
        scoreRef (animate time clock rnd (session n1 evs)))"
proof -
  have inv: "livesInv (gameState (session n1 evs))"
    using sessionInv_session[of n1 evs] by (simp add: sessionInv_def)
  have m: "lives (gameState (session n1 [])) = 3"
    by (simp add: session_def mounted_def pauseEffect_def loopEffect_def initEffect_def
        initialEngine_def initialGameState_def)
  have h: "lives (handleStart g) = 3" "lives (handleRestart g) = 3"
    by (simp_all add: handleStart_def handleRestart_def)
  have c: "lives (gameState (collision now ob s)) = lives (gameState s) - 1 \<and>
      0 \<le> lives (gameState (collision now ob s)) \<and>
      (lives (gameState (collision now ob s)) = 0 \<longrightarrow>
         gameOver (gameState (collision now ob s)) \<and>
         score (gameState (collision now ob s)) = scoreRef s)"
    if "hitCandidate (playerState s) ob" "now - lastHitTime s > INVINCIBILITY_DURATION"
      "0 < lives (gameState s)"
    using that by (simp add: collision_eq loseLife_def Let_def)
  have li: "livesInv (gameState (animate time clock rnd (session n1 evs)))"
    by (rule animate_gameState[of livesInv, OF loseLife_livesInv]) (simp_all add: inv)
  have f: "lives (gameState (animate time clock rnd (session n1 evs))) = 0 \<and>
      score (gameState (animate time clock rnd (session n1 evs))) =
        scoreRef (animate time clock rnd (session n1 evs))"
    if "monotoneFrames (mounted n1) evs" "\<not> gameOver (gameState (session n1 evs))"
      "gameOver (gameState (animate time clock rnd (session n1 evs)))"
    using session_final_score[OF that] li that(3) by (simp add: livesInv_def)
  show ?thesis
    using inv m h c f session_gameOver_frozen[of n1 evs]
    by (simp add: livesInv_def)
qed

theorem C4_lives_witness:
  "hitCandidate (playerState exampleEngine) exampleObstacle \<and>
   5000 - lastHitTime exampleEngine > INVINCIBILITY_DURATION \<and>
   0 < lives (gameState exampleEngine) \<and>
   lives (gameState (collision 5000 exampleObstacle exampleEngine)) = 2 \<and>
   gameOver (gameState (session 0 exampleSession)) \<and>
   lives (gameState (session 0 exampleSession)) = 0 \<and>
   step (session 0 exampleSession) (Frame 11000 (hitClock 11000) exampleDraws 11000 11000) =
     session 0 exampleSession \<and>
   monotoneFrames (mounted 0) scoringSession \<and>
   \<not> gameOver (gameState (session 0 scoringSession)) \<and>
   gameOver (gameState (animate 8000 (hitClock 11000) exampleDraws (session 0 scoringSession))) \<and>
   scoreRef (animate 8000 (hitClock 11000) exampleDraws (session 0 scoringSession)) = 10"
proof -
  have h: "hitCandidate (playerState exampleEngine) exampleObstacle \<and>
      5000 - lastHitTime exampleEngine > INVINCIBILITY_DURATION \<and>
      0 < lives (gameState exampleEngine)"
    by (simp add: hitCandidate_def exampleEngine_fields exampleObstacle_def
        INVINCIBILITY_DURATION_def)
  have g: "gameOver (gameState (session 0 exampleSession))"
    by (simp add: exampleSession_final)
  note t = C4_lives_in_range[where ?n1.0 = 0 and evs = exampleSession and s = exampleEngine
      and ob = exampleObstacle and now = 5000 and time = 11000 and clock = "hitClock 11000"
      and rnd = exampleDraws and ?n2.0 = 11000 and ?n3.0 = 11000]
  from t h have "lives (gameState (collision 5000 exampleObstacle exampleEngine)) =
      lives (gameState exampleEngine) - 1" by blast
  then have a: "lives (gameState (collision 5000 exampleObstacle exampleEngine)) = 2"
    by (simp add: exampleEngine_fields)
  from t g have b: "lives (gameState (session 0 exampleSession)) = 0" by blast
  from t g have c: "step (session 0 exampleSession)
      (Frame 11000 (hitClock 11000) exampleDraws 11000 11000) = session 0 exampleSession"
    by blast
  have k: "monotoneFrames (mounted 0) scoringSession \<and>
      \<not> gameOver (gameState (session 0 scoringSession)) \<and>
      gameOver (gameState (animate 8000 (hitClock 11000) exampleDraws (session 0 scoringSession)))"
    by (simp add: scoringSession_eval)
  note u = C4_lives_in_range[where ?n1.0 = 0 and evs = scoringSession and time = 8000
      and clock = "hitClock 11000" and rnd = exampleDraws]
  from u k have "score (gameState (animate 8000 (hitClock 11000) exampleDraws
        (session 0 scoringSession))) =
      scoreRef (animate 8000 (hitClock 11000) exampleDraws (session 0 scoringSession))"
    by blast
  then have d: "scoreRef (animate 8000 (hitClock 11000) exampleDraws
      (session 0 scoringSession)) = 10"
    by (simp add: scoringSession_eval)
  from h g a b c k d show ?thesis by blast
qed

text \<open>
  C5, as the code has it. A frame adds 10 to the score for every obstacle of the frame
  whose new z exceeds 5 and that is not yet marked passed, and for nothing else; the
  same test \<open>z > 5\<close> retires the obstacle, so every obstacle left after a frame has
  \<open>z \<le> 5\<close>, is one of the frame's obstacles moved by \<open>speed * dt\<close> and nothing more, and
  an obstacle beyond 5 is gone from the live collection in that very frame: no obstacle
  is awarded twice, and in a session no live obstacle is ever marked passed. The award
  does not depend on the clock values the collision checks read. Frames never lower the
  score.
\<close>

theorem C5_award_on_retirement:
  "let spd = min MAX_SPEED (START_SPEED + real_of_int (scoreRef s) / 50);
       obs = obstacles (beforeObstacles dt time rnd s);
       s' = updateGameLogic dt time clock rnd s
   in scoreRef s' =
        scoreRef s + 10 * int (length (filter (\<lambda>ob. o_z ob + spd * dt > 5 \<and> \<not> o_passed ob) obs)) \<and>
      (\<forall>ob'\<in>set (obstacles s').
          o_z ob' \<le> 5 \<and> (\<exists>ob\<in>set obs. ob' = ob\<lparr>o_z := o_z ob + spd * dt\<rparr>)) \<and>
      (\<forall>ob\<in>set obs. o_z ob + spd * dt > 5 \<longrightarrow> o_id ob \<notin> o_id ` set (obstacles s')) \<and>
      scoreRef s \<le> scoreRef s' \<and>
      scoreRef (updateGameLogic dt time clock' rnd s) = scoreRef s' \<and>
      scoreRef s \<le> scoreRef (animate time clock rnd s) \<and>
      (\<forall>ob\<in>set (obstacles (session n1 evs)). \<not> o_passed ob \<and> o_z ob \<le> 5)"
proof -
  define spd where "spd = min MAX_SPEED (START_SPEED + real_of_int (scoreRef s) / 50)"
  define t where "t = beforeObstacles dt time rnd s"
  have sp: "speedRef t = spd" by (simp add: t_def spd_def beforeObstacles_fields)
  have aw: "awarded spd dt = (\<lambda>ob. o_z ob + spd * dt > 5 \<and> \<not> o_passed ob)"
    by (simp add: awarded_def fun_eq_iff)
  have a: "scoreRef (updateGameLogic dt time c rnd s) =
      scoreRef s + 10 * int (length (filter (\<lambda>ob. o_z ob + spd * dt > 5 \<and> \<not> o_passed ob)
        (obstacles t)))" for c
    using updateGameLogic_score[of dt time c rnd s]
    unfolding spd_def[symmetric] t_def[symmetric] aw .
  have b: "o_z ob' \<le> 5 \<and> (\<exists>ob\<in>set (obstacles t). ob' = ob\<lparr>o_z := o_z ob + spd * dt\<rparr>)"
    if "ob' \<in> set (obstacles (updateGameLogic dt time clock rnd s))" for ob'
    using sweep_survivors[OF that[unfolded updateGameLogic_def]]
    by (auto simp: t_def[symmetric] sp moved_def retiring_def)
  have c: "o_id ob \<notin> o_id ` set (obstacles (updateGameLogic dt time clock rnd s))"
    if "ob \<in> set (obstacles t)" "o_z ob + spd * dt > 5" for ob
    using sweep_retired[of ob t dt clock] that
    by (simp add: updateGameLogic_def t_def[symmetric] sp retiring_def)
  have d: "scoreRef s \<le> scoreRef (updateGameLogic dt time clock rnd s)"
    by (simp add: updateGameLogic_fields)
  have e: "scoreRef s \<le> scoreRef (animate time clock rnd s)"
    by (simp add: animate_fields)
  have f: "\<forall>ob\<in>set (obstacles (session n1 evs)). \<not> o_passed ob \<and> o_z ob \<le> 5"
    using obstaclesInv_session[of n1 evs] by (simp add: obstaclesInv_def)
  show ?thesis
    unfolding Let_def spd_def[symmetric] t_def[symmetric]
    using a b c d e f by (intro conjI ballI impI) auto
qed

theorem C5_same_threshold_counterexample:
  "scoreRef examplePassing = 0 \<and>
   map o_z (obstacles examplePassing) = [4.75] \<and>
   scoreRef (updateGameLogic (1 / 60) 5000 (hitClock 5000) exampleDraws examplePassing) = 0 \<and>
   obstacles (updateGameLogic (1 / 60) 5000 (hitClock 5000) exampleDraws examplePassing) =
     [exampleObstacle\<lparr>o_z := 5\<rparr>] \<and>
   o_passed (exampleObstacle\<lparr>o_z := 5\<rparr>) = False \<and>
   scoreRef (updateGameLogic (1 / 20) 5000 (hitClock 5000) exampleDraws examplePassing) = 10 \<and>
   obstacles (updateGameLogic (1 / 20) 5000 (hitClock 5000) exampleDraws examplePassing) = [] \<and>
   map o_id (obstacles (session 0 (take 4 exampleSession))) = [0.125] \<and>
   scoreRef (session 0 (take 4 exampleSession)) = 0 \<and>
   obstacles (session 0 exampleSession) = [] \<and>
   score (gameState (session 0 exampleSession)) = 0"
  by (simp add: examplePassing_frames exampleSession_final exampleSession_obstacles)
    (simp add: examplePassing_def exampleEngine_fields exampleObstacle_def)

theorem C5_award_witness:
  "exampleObstacle\<lparr>o_z := 4.75\<rparr> \<in>
     set (obstacles (beforeObstacles (1 / 20) 5000 exampleDraws examplePassing)) \<and>
   5 < o_z (exampleObstacle\<lparr>o_z := 4.75\<rparr>) +
         min MAX_SPEED (START_SPEED + real_of_int (scoreRef examplePassing) / 50) * (1 / 20) \<and>
   o_id (exampleObstacle\<lparr>o_z := 4.75\<rparr>) \<notin>
     o_id ` set (obstacles (updateGameLogic (1 / 20) 5000 (hitClock 5000) exampleDraws
                   examplePassing)) \<and>
   scoreRef (updateGameLogic (1 / 20) 5000 (hitClock 5000) exampleDraws examplePassing) = 10 \<and>
   exampleObstacle\<lparr>o_z := 5\<rparr> \<in>
     set (obstacles (updateGameLogic (1 / 60) 5000 (hitClock 5000) exampleDraws examplePassing)) \<and>
   o_z (exampleObstacle\<lparr>o_z := 5\<rparr>) \<le> 5"
proof -
  have sc: "scoreRef examplePassing = 0"
    by (simp add: examplePassing_def exampleEngine_fields)
  have a: "exampleObstacle\<lparr>o_z := 4.75\<rparr> \<in>
     set (obstacles (beforeObstacles (1 / 20) 5000 exampleDraws examplePassing))"
    by (simp add: examplePassing_def exampleEngine_no_spawn)
  have b: "5 < o_z (exampleObstacle\<lparr>o_z := 4.75\<rparr>) +
         min MAX_SPEED (START_SPEED + real_of_int (scoreRef examplePassing) / 50) * (1 / 20)"
    by (simp add: sc START_SPEED_def MAX_SPEED_def)
  note t = C5_award_on_retirement[of examplePassing "1 / 20" 5000 exampleDraws
      "hitClock 5000" "hitClock 5000" 0 "[]", unfolded Let_def]
  from t a b have c: "o_id (exampleObstacle\<lparr>o_z := 4.75\<rparr>) \<notin>
     o_id ` set (obstacles (updateGameLogic (1 / 20) 5000 (hitClock 5000) exampleDraws
                   examplePassing))" by blast
  have d: "exampleObstacle\<lparr>o_z := 5\<rparr> \<in>
     set (obstacles (updateGameLogic (1 / 60) 5000 (hitClock 5000) exampleDraws examplePassing))"
    by (simp add: examplePassing_frames)
  note u = C5_award_on_retirement[of examplePassing "1 / 60" 5000 exampleDraws
      "hitClock 5000" "hitClock 5000" 0 "[]", unfolded Let_def]
  from u d have e: "o_z (exampleObstacle\<lparr>o_z := 5\<rparr>) \<le> 5" by blast
  from a b c d e examplePassing_frames(1) show ?thesis by blast
qed

text \<open>
  C6. Two collision checks that read the same clock value apply at most one hit: a first
  hit sets \<open>lastHitTime\<close> to \<open>now\<close>, and \<open>now - now > INVINCIBILITY_DURATION\<close> is false
  because the duration is 2000. This holds for the collision block run twice (on any
  two obstacles) and for two whole frames run at the same clock value: the damage sound
  is played at most once more and at most one life is lost.
\<close>

theorem C6_one_hit_per_timestamp:
  "INVINCIBILITY_DURATION = 2000 \<and> \<not> now - now > INVINCIBILITY_DURATION \<and>
   (collision now ob s \<noteq> s \<longrightarrow>
      lastHitTime (collision now ob s) = now \<and>
      collision now ob' (collision now ob s) = collision now ob s) \<and>
   damageSounds (collision now ob' (collision now ob s)) \<le> Suc (damageSounds s) \<and>
   lives (gameState s) - 1 \<le> lives (gameState (collision now ob' (collision now ob s))) \<and>
   damageSounds (updateGameLogic dt' time' (\<lambda>_. now) rnd'
                  (updateGameLogic dt time (\<lambda>_. now) rnd s)) \<le> Suc (damageSounds s) \<and>
   lives (gameState s) - 1 \<le>
     lives (gameState (updateGameLogic dt' time' (\<lambda>_. now) rnd'
                        (updateGameLogic dt time (\<lambda>_. now) rnd s)))"
proof -
  have i: "INVINCIBILITY_DURATION = 2000" "\<not> now - now > INVINCIBILITY_DURATION"
    by (simp_all add: INVINCIBILITY_DURATION_def)
  have c1: "lastHitTime (collision now ob s) = now \<and>
      collision now ob' (collision now ob s) = collision now ob s"
    if "collision now ob s \<noteq> s"
    using that i(2) by (auto simp: collision_eq split: if_splits)
  have c2: "damageSounds (collision now ob' (collision now ob s)) \<le> Suc (damageSounds s)"
    using i(2) by (auto simp: collision_eq)
  have c3: "lives (gameState s) - 1 \<le> lives (gameState (collision now ob' (collision now ob s)))"
    using i(2) loseLife_lower[of "gameState s"] by (auto simp: collision_eq)
  define s1 where "s1 = updateGameLogic dt time (\<lambda>_. now) rnd s"
  define s2 where "s2 = updateGameLogic dt' time' (\<lambda>_. now) rnd' s1"
  have f: "damageSounds s2 \<le> Suc (damageSounds s) \<and> lives (gameState s) - 1 \<le> lives (gameState s2)"
  proof -
    consider (hit) sc where "damageSounds s1 = Suc (damageSounds s)" "lastHitTime s1 = now"
        "gameState s1 = loseLife sc (gameState s)"
      | (nohit) "damageSounds s1 = damageSounds s" "gameState s1 = gameState s"
      using frame_outcome[of dt time now rnd s] unfolding s1_def by blast
    then show ?thesis
    proof cases
      case hit
      then have "\<not> now - lastHitTime s1 > INVINCIBILITY_DURATION" using i(2) by simp
      from frame_invincible[OF this, of dt' time' rnd'] hit loseLife_lower[of "gameState s" sc]
      show ?thesis unfolding s2_def by simp
    next
      case nohit
      from frame_outcome[of dt' time' now rnd' s1] show ?thesis
        unfolding s2_def[symmetric]
        using nohit loseLife_lower[of "gameState s"] by auto
    qed
  qed
  show ?thesis using i c1 c2 c3 f unfolding s1_def s2_def by simp
qed

theorem C6_one_hit_witness:
  "collision 5000 exampleObstacle exampleEngine \<noteq> exampleEngine \<and>
   lives (gameState (collision 5000 exampleObstacle exampleEngine)) = 2 \<and>
   collision 5000 exampleObstacle (collision 5000 exampleObstacle exampleEngine) =
     collision 5000 exampleObstacle exampleEngine"
proof -
  have d: "damageSounds (collision 5000 exampleObstacle exampleEngine) = 1"
    "lives (gameState (collision 5000 exampleObstacle exampleEngine)) = 2"
    by (simp_all add: collision_def exampleEngine_fields exampleObstacle_def loseLife_def
        INVINCIBILITY_DURATION_def)
  then have h: "collision 5000 exampleObstacle exampleEngine \<noteq> exampleEngine"
    using exampleEngine_fields(3) by auto
  with C6_one_hit_per_timestamp[of 5000 exampleObstacle exampleEngine exampleObstacle]
  have "collision 5000 exampleObstacle (collision 5000 exampleObstacle exampleEngine) =
     collision 5000 exampleObstacle exampleEngine" by blast
  with h d show ?thesis by blast
qed

text \<open>
  C7. A LEFT intent takes one from the lane when the lane is above 0 and a RIGHT intent
  adds one when it is below 2; at lane 0 a LEFT and at lane 2 a RIGHT change nothing, so
  on the lanes 0, 1, 2 the new lane is the old one minus or plus 1 clamped to [0, 2].
  The input effect of a running, unpaused game writes the new lane at once and leaves
  the player's group (the visual position) alone. In every state of a session the lane is
  0, 1 or 2. The collision block compares the obstacle's lane with this lane: it never
  reads the group, and it changes nothing unless the two lanes are equal. A whole frame
  run from two different groups (two visual positions) ends in the same state but for
  the group itself: lives, hits and obstacles do not depend on the visual position.
\<close>

theorem C7_lane_intents:
  "(0 < lane p \<longrightarrow> lane (applyGesture LEFT now p) = lane p - 1) \<and>
   (lane p < 2 \<longrightarrow> lane (applyGesture RIGHT now p) = lane p + 1) \<and>
   (lane p = 0 \<longrightarrow> applyGesture LEFT now p = p) \<and>
   (lane p = 2 \<longrightarrow> applyGesture RIGHT now p = p) \<and>
   (lane p \<in> {0, 1, 2} \<longrightarrow>
      lane (applyGesture LEFT now p) = max 0 (min 2 (lane p - 1)) \<and>
      lane (applyGesture RIGHT now p) = max 0 (min 2 (lane p + 1)) \<and>
      lane (applyGesture g now p) \<in> {0, 1, 2}) \<and>
   (isPlaying (gameState s) \<and> \<not> gameOver (gameState s) \<and> \<not> isPaused (gameState s) \<longrightarrow>
      playerState (inputEffect True g now s) = applyGesture g now (playerState s)) \<and>
   playerGroupRef (inputEffect pose g now s) = playerGroupRef s \<and>
   lane (playerState (session n1 evs)) \<in> {0, 1, 2} \<and>
   collision now' ob (s\<lparr>playerGroupRef := grp\<rparr>) = (collision now' ob s)\<lparr>playerGroupRef := grp\<rparr> \<and>
   (collision now' ob s \<noteq> s \<longrightarrow> o_lane ob = lane (playerState s)) \<and>
   updateGameLogic dt time clock rnd (s\<lparr>playerGroupRef := Some g1\<rparr>) =
     (updateGameLogic dt time clock rnd (s\<lparr>playerGroupRef := Some g2\<rparr>))
       \<lparr>playerGroupRef :=
          playerGroupRef (updateGameLogic dt time clock rnd (s\<lparr>playerGroupRef := Some g1\<rparr>))\<rparr>"
proof -
  have a: "0 < lane p \<longrightarrow> lane (applyGesture LEFT now p) = lane p - 1"
    "lane p < 2 \<longrightarrow> lane (applyGesture RIGHT now p) = lane p + 1"
    "lane p = 0 \<longrightarrow> applyGesture LEFT now p = p"
    "lane p = 2 \<longrightarrow> applyGesture RIGHT now p = p"
    by (simp_all add: applyGesture_def)
  have b: "lane (applyGesture LEFT now p) = max 0 (min 2 (lane p - 1)) \<and>
      lane (applyGesture RIGHT now p) = max 0 (min 2 (lane p + 1)) \<and>
      lane (applyGesture g now p) \<in> {0, 1, 2}" if "lane p \<in> {0, 1, 2}"
    using that applyGesture_lane[of p g now] by (auto simp: applyGesture_def)
  have c: "playerState (inputEffect True g now s) = applyGesture g now (playerState s)"
    if "isPlaying (gameState s) \<and> \<not> gameOver (gameState s) \<and> \<not> isPaused (gameState s)"
    using that by (simp add: inputEffect_def)
  have d: "playerGroupRef (inputEffect pose g now s) = playerGroupRef s"
    by (simp add: inputEffect_def)
  have e: "collision now' ob (s\<lparr>playerGroupRef := grp\<rparr>) =
      (collision now' ob s)\<lparr>playerGroupRef := grp\<rparr>"
    by (simp add: collision_def)
  have f: "collision now' ob s \<noteq> s \<longrightarrow> o_lane ob = lane (playerState s)"
    by (simp add: collision_def)
  have u: "updateGameLogic dt time clock rnd (s\<lparr>playerGroupRef := Some g1\<rparr>) =
     (updateGameLogic dt time clock rnd (s\<lparr>playerGroupRef := Some g2\<rparr>))
       \<lparr>playerGroupRef :=
          playerGroupRef (updateGameLogic dt time clock rnd (s\<lparr>playerGroupRef := Some g1\<rparr>))\<rparr>"
    using updateGameLogic_group[of dt time clock rnd g1 s g2] by (simp add: setGroup_def)
  show ?thesis using a b c d e f u session_lane[of n1 evs] by blast
qed

theorem C7_lane_witness:
  "lane (playerState exampleEngine) = 1 \<and>
   lane (applyGesture LEFT 5000 (playerState exampleEngine)) = 0 \<and>
   lane (applyGesture RIGHT 5000 (playerState exampleEngine)) = 2 \<and>
   applyGesture LEFT 5001 (applyGesture LEFT 5000 (playerState exampleEngine)) =
     applyGesture LEFT 5000 (playerState exampleEngine) \<and>
   applyGesture RIGHT 5001 (applyGesture RIGHT 5000 (playerState exampleEngine)) =
     applyGesture RIGHT 5000 (playerState exampleEngine) \<and>
   lane (playerState (inputEffect True LEFT 5000 exampleEngine)) = 0 \<and>
   collision 5000 exampleObstacle exampleEngine \<noteq> exampleEngine \<and>
   o_lane exampleObstacle = lane (playerState exampleEngine)"
proof -
  have l: "lane (playerState exampleEngine) = 1" by (simp add: exampleEngine_fields)
  note t = C7_lane_intents[where p = "playerState exampleEngine" and now = 5000
      and s = exampleEngine and now' = 5000 and ob = exampleObstacle]
  from t l have a: "lane (applyGesture LEFT 5000 (playerState exampleEngine)) = 0"
    "lane (applyGesture RIGHT 5000 (playerState exampleEngine)) = 2" by simp_all
  from C7_lane_intents[of "applyGesture LEFT 5000 (playerState exampleEngine)" 5001] a(1)
  have b: "applyGesture LEFT 5001 (applyGesture LEFT 5000 (playerState exampleEngine)) =
     applyGesture LEFT 5000 (playerState exampleEngine)" by blast
  from C7_lane_intents[of "applyGesture RIGHT 5000 (playerState exampleEngine)" 5001] a(2)
  have c: "applyGesture RIGHT 5001 (applyGesture RIGHT 5000 (playerState exampleEngine)) =
     applyGesture RIGHT 5000 (playerState exampleEngine)" by blast
  have g: "isPlaying (gameState exampleEngine) \<and> \<not> gameOver (gameState exampleEngine) \<and>
      \<not> isPaused (gameState exampleEngine)"
    by (simp add: exampleEngine_def handleStart_def)
  from C7_lane_intents[where p = "playerState exampleEngine" and now = 5000 and g = LEFT
      and s = exampleEngine] g a(1)
  have d: "lane (playerState (inputEffect True LEFT 5000 exampleEngine)) = 0" by simp
  have "damageSounds (collision 5000 exampleObstacle exampleEngine) = 1"
    by (simp add: collision_def exampleEngine_fields exampleObstacle_def
        INVINCIBILITY_DURATION_def)
  then have h: "collision 5000 exampleObstacle exampleEngine \<noteq> exampleEngine"
    using exampleEngine_fields(3) by auto
  with t have e: "o_lane exampleObstacle = lane (playerState exampleEngine)" by blast
  from l a b c d h e show ?thesis by blast
qed

text \<open>
  C8, as the code has it. \<^verbatim>\<open>animate\<close> passes \<open>(time - lastTime) / 1000\<close> to the update as
  it is, with no clamp. Every obstacle and decoration left after a frame is one of the
  frame's entities (one the frame started with, or one it spawned) with \<open>speed * dt\<close>
  added to its z, where \<open>speed = min MAX_SPEED (START_SPEED + score / 50)\<close>. So with a
  score that is not negative no z decreases when \<open>dt \<ge> 0\<close>, no z changes when
  \<open>dt = 0\<close>, and every z decreases when \<open>dt < 0\<close>.
\<close>

theorem C8_delta_used_unclamped:
  "(isPlayingRef s \<and> \<not> isPausedRef s \<longrightarrow>
      animate time clock rnd s =
        updateGameLogic ((time - lastTime s) / 1000) time clock rnd (s\<lparr>lastTime := time\<rparr>)) \<and>
   (\<forall>ob'\<in>set (obstacles (updateGameLogic dt time clock rnd s)).
      \<exists>ob\<in>set (obstacles s) \<union> {spawned rnd}.
        ob' = ob\<lparr>o_z := o_z ob + min MAX_SPEED (START_SPEED + real_of_int (scoreRef s) / 50) * dt\<rparr> \<and>
        (0 \<le> dt \<and> 0 \<le> scoreRef s \<longrightarrow> o_z ob \<le> o_z ob') \<and>
        (dt = 0 \<longrightarrow> o_z ob' = o_z ob) \<and>
        (dt < 0 \<and> 0 \<le> scoreRef s \<longrightarrow> o_z ob' < o_z ob)) \<and>
   (\<forall>d'\<in>set (decorations (updateGameLogic dt time clock rnd s)).
      \<exists>d\<in>set (decorations s) \<union> {spawnedDecor (r_decor0 rnd), spawnedDecor (r_decor1 rnd)}.
        d' = d\<lparr>d_z := d_z d + min MAX_SPEED (START_SPEED + real_of_int (scoreRef s) / 50) * dt\<rparr> \<and>
        (0 \<le> dt \<and> 0 \<le> scoreRef s \<longrightarrow> d_z d \<le> d_z d') \<and>
        (dt = 0 \<longrightarrow> d_z d' = d_z d) \<and>
        (dt < 0 \<and> 0 \<le> scoreRef s \<longrightarrow> d_z d' < d_z d))"
proof -
  define spd where "spd = min MAX_SPEED (START_SPEED + real_of_int (scoreRef s) / 50)"
  have pos: "0 < spd" if "0 \<le> scoreRef s"
    using that by (simp add: spd_def MAX_SPEED_def START_SPEED_def min_def add_pos_nonneg)
  have a: "animate time clock rnd s =
        updateGameLogic ((time - lastTime s) / 1000) time clock rnd (s\<lparr>lastTime := time\<rparr>)"
    if "isPlayingRef s \<and> \<not> isPausedRef s"
    using that by (simp add: animate_def Let_def)
  have m: "(0 \<le> dt \<and> 0 \<le> scoreRef s \<longrightarrow> z \<le> z + spd * dt) \<and>
        (dt = 0 \<longrightarrow> z + spd * dt = z) \<and>
        (dt < 0 \<and> 0 \<le> scoreRef s \<longrightarrow> z + spd * dt < z)" for z
    using pos by (auto simp: mult_less_0_iff)
  have b: "\<exists>ob\<in>set (obstacles s) \<union> {spawned rnd}.
        ob' = ob\<lparr>o_z := o_z ob + spd * dt\<rparr> \<and>
        (0 \<le> dt \<and> 0 \<le> scoreRef s \<longrightarrow> o_z ob \<le> o_z ob') \<and>
        (dt = 0 \<longrightarrow> o_z ob' = o_z ob) \<and>
        (dt < 0 \<and> 0 \<le> scoreRef s \<longrightarrow> o_z ob' < o_z ob)"
    if "ob' \<in> set (obstacles (updateGameLogic dt time clock rnd s))" for ob'
  proof -
    from frame_survivors[OF that] obtain ob where
      ob: "ob \<in> set (obstacles s) \<union> {spawned rnd}" "ob' = ob\<lparr>o_z := o_z ob + spd * dt\<rparr>"
      unfolding spd_def by blast
    from ob(2) have "o_z ob' = o_z ob + spd * dt" by simp
    with m[of "o_z ob"] ob show ?thesis by auto
  qed
  have c: "\<exists>d\<in>set (decorations s) \<union> {spawnedDecor (r_decor0 rnd), spawnedDecor (r_decor1 rnd)}.
        d' = d\<lparr>d_z := d_z d + spd * dt\<rparr> \<and>
        (0 \<le> dt \<and> 0 \<le> scoreRef s \<longrightarrow> d_z d \<le> d_z d') \<and>
        (dt = 0 \<longrightarrow> d_z d' = d_z d) \<and>
        (dt < 0 \<and> 0 \<le> scoreRef s \<longrightarrow> d_z d' < d_z d)"
    if "d' \<in> set (decorations (updateGameLogic dt time clock rnd s))" for d'
  proof -
    from frame_decorations[OF that] obtain d where
      d: "d \<in> set (decorations s) \<union> {spawnedDecor (r_decor0 rnd), spawnedDecor (r_decor1 rnd)}"
      "d' = d\<lparr>d_z := d_z d + spd * dt\<rparr>"
      unfolding spd_def by blast
    from d(2) have "d_z d' = d_z d + spd * dt" by simp
    with m[of "d_z d"] d show ?thesis by auto
  qed
  show ?thesis unfolding spd_def[symmetric] using a b c by blast
qed

theorem C8_negative_delta_counterexample:
  "isPlayingRef exampleEngine \<and> \<not> isPausedRef exampleEngine \<and>
   (4000 - lastTime exampleEngine) / 1000 = - 1 \<and>
   map o_z (obstacles exampleEngine) = [- 0.5] \<and>
   map o_z (obstacles (animate 4000 (hitClock 4000) exampleDraws exampleEngine)) = [- 15.5]"
  by (simp add: exampleEngine_flags exampleEngine_fields)
    (simp add: exampleEngine_def exampleObstacle_def engine_defs frame_defs GAME_CONSTANTS)

theorem C8_delta_witness:
  "isPlayingRef exampleEngine \<and> \<not> isPausedRef exampleEngine \<and>
   animate 5050 (hitClock 5050) exampleDraws exampleEngine =
     updateGameLogic (1 / 20) 5050 (hitClock 5050) exampleDraws (exampleEngine\<lparr>lastTime := 5050\<rparr>) \<and>
   exampleObstacle\<lparr>o_z := 0.25\<rparr> \<in>
     set (obstacles (updateGameLogic (1 / 20) 5000 (hitClock 5000) exampleDraws exampleEngine)) \<and>
   0 \<le> scoreRef exampleEngine \<and>
   (\<exists>ob\<in>set (obstacles exampleEngine) \<union> {spawned exampleDraws}. o_z ob \<le> 0.25) \<and>
   \<lparr>d_id = 0.75, d_x = 33, d_z = - 69.25, d_type = Flower, d_rotation = 0\<rparr> \<in>
     set (decorations (updateGameLogic (1 / 20) 5000 (hitClock 5000) exampleDraws exampleDecorated)) \<and>
   (\<exists>d\<in>set (decorations exampleDecorated) \<union>
        {spawnedDecor (r_decor0 exampleDraws), spawnedDecor (r_decor1 exampleDraws)}.
      d_z d \<le> - 69.25)"
proof -
  have h: "isPlayingRef exampleEngine \<and> \<not> isPausedRef exampleEngine"
    by (simp add: exampleEngine_flags)
  from C8_delta_used_unclamped[where s = exampleEngine and time = 5050
      and clock = "hitClock 5050" and rnd = exampleDraws] h
  have a: "animate 5050 (hitClock 5050) exampleDraws exampleEngine =
     updateGameLogic (1 / 20) 5050 (hitClock 5050) exampleDraws (exampleEngine\<lparr>lastTime := 5050\<rparr>)"
    by (simp add: exampleEngine_flags)
  have m: "exampleObstacle\<lparr>o_z := 0.25\<rparr> \<in>
     set (obstacles (updateGameLogic (1 / 20) 5000 (hitClock 5000) exampleDraws exampleEngine))"
    by (simp add: exampleEngine_moved)
  have sc: "0 \<le> scoreRef exampleEngine" "0 \<le> scoreRef exampleDecorated"
    by (simp_all add: exampleDecorated_def exampleEngine_fields)
  note t = C8_delta_used_unclamped[where s = exampleEngine and dt = "1 / 20" and time = 5000
      and clock = "hitClock 5000" and rnd = exampleDraws]
  from t m obtain ob where "ob \<in> set (obstacles exampleEngine) \<union> {spawned exampleDraws}"
    "0 \<le> (1 / 20 :: real) \<and> 0 \<le> scoreRef exampleEngine \<longrightarrow> o_z ob \<le> o_z (exampleObstacle\<lparr>o_z := 0.25\<rparr>)"
    by blast
  with sc have b: "\<exists>ob\<in>set (obstacles exampleEngine) \<union> {spawned exampleDraws}. o_z ob \<le> 0.25"
    by auto
  have n: "\<lparr>d_id = 0.75, d_x = 33, d_z = - 69.25, d_type = Flower, d_rotation = 0\<rparr> \<in>
     set (decorations (updateGameLogic (1 / 20) 5000 (hitClock 5000) exampleDraws exampleDecorated))"
    by (simp add: exampleEngine_moved)
  note u = C8_delta_used_unclamped[where s = exampleDecorated and dt = "1 / 20" and time = 5000
      and clock = "hitClock 5000" and rnd = exampleDraws]
  from u n obtain d where "d \<in> set (decorations exampleDecorated) \<union>
        {spawnedDecor (r_decor0 exampleDraws), spawnedDecor (r_decor1 exampleDraws)}"
    "0 \<le> (1 / 20 :: real) \<and> 0 \<le> scoreRef exampleDecorated \<longrightarrow>
       d_z d \<le> d_z \<lparr>d_id = 0.75, d_x = 33, d_z = - 69.25, d_type = Flower, d_rotation = 0\<rparr>"
    by blast
  with sc have c: "\<exists>d\<in>set (decorations exampleDecorated) \<union>
        {spawnedDecor (r_decor0 exampleDraws), spawnedDecor (r_decor1 exampleDraws)}.
      d_z d \<le> - 69.25"
    by auto
  from h a m sc(1) b n c show ?thesis by blast
qed

text \<open>
  C9, as the code has it. The id of a spawned obstacle is its \<^verbatim>\<open>Math.random()\<close> draw and
  nothing else. Two obstacles spawned in immediate succession (scene and lava material
  present) get the two draws as ids; when the draws differ, the mesh map holds a mesh for
  each id and the two handles differ. Over a session, if the id draws of its frames are
  pairwise distinct, the live obstacles have pairwise distinct ids. Nothing in the code
  makes two draws differ.
\<close>

theorem C9_ids_are_the_draws:
  "(sceneRef s \<noteq> None \<and> lavaMaterial s \<noteq> None \<longrightarrow>
      map o_id (obstacles (spawnObstacle z2 l2 r2 (spawnObstacle z1 l1 r1 s))) =
        map o_id (obstacles s) @ [r1, r2] \<and>
      (r1 \<noteq> r2 \<longrightarrow>
         (\<exists>m1 m2. obstacleMeshes (spawnObstacle z2 l2 r2 (spawnObstacle z1 l1 r1 s)) r1 = Some m1 \<and>
                  obstacleMeshes (spawnObstacle z2 l2 r2 (spawnObstacle z1 l1 r1 s)) r2 = Some m2 \<and>
                  handle m1 \<noteq> handle m2))) \<and>
   (distinct (drawnIds evs) \<longrightarrow>
      distinct (map o_id (obstacles (session n1 evs))) \<and>
      set (map o_id (obstacles (session n1 evs))) \<subseteq> set (drawnIds evs))"
  using spawnObstacle_twice[where s = s and ?z1.0 = z1 and ?l1.0 = l1 and ?r1.0 = r1
      and ?z2.0 = z2 and ?l2.0 = l2 and ?r2.0 = r2] idsInv_session[of evs n1]
  by (simp add: idsInv_def)

theorem C9_equal_draws_counterexample:
  "map o_id (obstacles (spawnObstacle SPAWN_DISTANCE 0.2 0.125
                        (spawnObstacle SPAWN_DISTANCE 0.5 0.125 (mounted 0)))) = [0.125, 0.125] \<and>
   sceneRef (spawnObstacle SPAWN_DISTANCE 0.2 0.125
              (spawnObstacle SPAWN_DISTANCE 0.5 0.125 (mounted 0))) = Some [0, 1] \<and>
   map_option handle (obstacleMeshes (spawnObstacle SPAWN_DISTANCE 0.2 0.125
              (spawnObstacle SPAWN_DISTANCE 0.5 0.125 (mounted 0))) 0.125) = Some 1 \<and>
   map o_id (obstacles (session 0 collidingSession)) = [0.125, 0.125] \<and>
   map o_z (obstacles (session 0 collidingSession)) = [0, - 30]"
  by (simp add: spawnObstacle_def mounted_refs Let_def)
    (simp add: session_def collidingSession_def engine_defs frame_defs GAME_CONSTANTS)

theorem C9_ids_witness:
  "sceneRef (mounted 0) \<noteq> None \<and> lavaMaterial (mounted 0) \<noteq> None \<and>
   map o_id (obstacles (spawnObstacle SPAWN_DISTANCE 0.2 0.25
                        (spawnObstacle SPAWN_DISTANCE 0.5 0.125 (mounted 0)))) = [0.125, 0.25] \<and>
   (\<exists>m1 m2. obstacleMeshes (spawnObstacle SPAWN_DISTANCE 0.2 0.25
                (spawnObstacle SPAWN_DISTANCE 0.5 0.125 (mounted 0))) 0.125 = Some m1 \<and>
            obstacleMeshes (spawnObstacle SPAWN_DISTANCE 0.2 0.25
                (spawnObstacle SPAWN_DISTANCE 0.5 0.125 (mounted 0))) 0.25 = Some m2 \<and>
            handle m1 \<noteq> handle m2) \<and>
   distinct (drawnIds (take 3 exampleSession)) \<and>
   distinct (map o_id (obstacles (session 0 (take 3 exampleSession))))"
proof -
  have h: "sceneRef (mounted 0) \<noteq> None \<and> lavaMaterial (mounted 0) \<noteq> None"
    by (simp add: mounted_refs)
  have n: "(0.125 :: real) \<noteq> 0.25" by simp
  have d: "distinct (drawnIds (take 3 exampleSession))"
    by (simp add: exampleSession_def)
  note t = C9_ids_are_the_draws[where s = "mounted 0" and ?z1.0 = SPAWN_DISTANCE
      and ?l1.0 = "0.5" and ?r1.0 = "0.125" and ?z2.0 = SPAWN_DISTANCE and ?l2.0 = "0.2"
      and ?r2.0 = "0.25" and evs = "take 3 exampleSession" and ?n1.0 = 0]
  from t h have a: "map o_id (obstacles (spawnObstacle SPAWN_DISTANCE 0.2 0.25
                        (spawnObstacle SPAWN_DISTANCE 0.5 0.125 (mounted 0)))) = [0.125, 0.25]"
    by (simp add: mounted_refs)
  from t h n have b: "\<exists>m1 m2. obstacleMeshes (spawnObstacle SPAWN_DISTANCE 0.2 0.25
                (spawnObstacle SPAWN_DISTANCE 0.5 0.125 (mounted 0))) 0.125 = Some m1 \<and>
            obstacleMeshes (spawnObstacle SPAWN_DISTANCE 0.2 0.25
                (spawnObstacle SPAWN_DISTANCE 0.5 0.125 (mounted 0))) 0.25 = Some m2 \<and>
            handle m1 \<noteq> handle m2" by blast
  from t d have c: "distinct (map o_id (obstacles (session 0 (take 3 exampleSession))))"
    by blast
  from h a b d c show ?thesis by blast
qed

text \<open>
  C10. Whatever clock values the collision checks of a frame read, the frame ends in the
  same state except for \<open>lastHitTime\<close>, the count of damage sounds, and the fields
  \<open>lives\<close>, \<open>gameOver\<close> and \<open>score\<close> of \<open>gameState\<close>: compared with the same frame run
  with the player invincible (every check reading \<open>lastHitTime\<close> itself, so that no hit is
  applied), the obstacles with their z and passed flags, the score accumulator, the
  player state and every other ref are equal. An applied hit sets \<open>lastHitTime\<close>, plays
  the sound and takes a life, setting \<open>gameOver\<close> and copying the score only when no life
  is left. Player and obstacle being untouched, the same obstacle is hit again by a check
  that reads a clock value more than \<open>INVINCIBILITY_DURATION\<close> later.
\<close>

theorem C10_hit_writes_only_hit_fields:
  "updateGameLogic dt time clock rnd s =
     (updateGameLogic dt time (\<lambda>_. lastHitTime s) rnd s)
       \<lparr>lastHitTime := lastHitTime (updateGameLogic dt time clock rnd s),
        damageSounds := damageSounds (updateGameLogic dt time clock rnd s),
        gameState := (gameState s)
          \<lparr>lives := lives (gameState (updateGameLogic dt time clock rnd s)),
           gameOver := gameOver (gameState (updateGameLogic dt time clock rnd s)),
           score := score (gameState (updateGameLogic dt time clock rnd s))\<rparr>\<rparr> \<and>
   lastHitTime (updateGameLogic dt time (\<lambda>_. lastHitTime s) rnd s) = lastHitTime s \<and>
   damageSounds (updateGameLogic dt time (\<lambda>_. lastHitTime s) rnd s) = damageSounds s \<and>
   gameState (updateGameLogic dt time (\<lambda>_. lastHitTime s) rnd s) = gameState s \<and>
   obstacles (updateGameLogic dt time clock rnd s) =
     obstacles (updateGameLogic dt time (\<lambda>_. lastHitTime s) rnd s) \<and>
   scoreRef (updateGameLogic dt time clock rnd s) =
     scoreRef (updateGameLogic dt time (\<lambda>_. lastHitTime s) rnd s) \<and>
   playerState (updateGameLogic dt time clock rnd s) =
     playerState (updateGameLogic dt time (\<lambda>_. lastHitTime s) rnd s) \<and>
   (hitCandidate (playerState s) ob \<and> now - lastHitTime s > INVINCIBILITY_DURATION \<longrightarrow>
      collision now ob s =
        s\<lparr>damageSounds := Suc (damageSounds s), lastHitTime := now,
          gameState :=
            (if lives (gameState s) - 1 \<le> 0
             then (gameState s)\<lparr>lives := 0, gameOver := True, score := scoreRef s\<rparr>
             else (gameState s)\<lparr>lives := lives (gameState s) - 1\<rparr>)\<rparr> \<and>
      hitCandidate (playerState (collision now ob s)) ob \<and>
      (now' - now > INVINCIBILITY_DURATION \<longrightarrow>
         damageSounds (collision now' ob (collision now ob s)) = damageSounds s + 2))"
proof -
  define A where "A = updateGameLogic dt time clock rnd s"
  define B where "B = updateGameLogic dt time (\<lambda>_. lastHitTime s) rnd s"
  have fg: "forgetHits A = forgetHits B"
    unfolding A_def B_def by (rule updateGameLogic_forget)
  have q: "lastHitTime B = lastHitTime s \<and> damageSounds B = damageSounds s \<and>
      gameState B = gameState s"
    unfolding B_def using frame_invincible[of "lastHitTime s" s dt time rnd]
    by (simp add: INVINCIBILITY_DURATION_def)
  have e: "A = B\<lparr>lastHitTime := lastHitTime A, damageSounds := damageSounds A,
               gameState := (gameState s)\<lparr>lives := lives (gameState A),
                 gameOver := gameOver (gameState A), score := score (gameState A)\<rparr>\<rparr>"
    using forgetHits_eq[OF fg] q by simp
  have f: "obstacles A = obstacles B" "scoreRef A = scoreRef B" "playerState A = playerState B"
    using arg_cong[OF fg, of obstacles] arg_cong[OF fg, of scoreRef]
      arg_cong[OF fg, of playerState]
    by (simp_all add: forgetHits_fields)
  have c: "collision now ob s =
        s\<lparr>damageSounds := Suc (damageSounds s), lastHitTime := now,
          gameState :=
            (if lives (gameState s) - 1 \<le> 0
             then (gameState s)\<lparr>lives := 0, gameOver := True, score := scoreRef s\<rparr>
             else (gameState s)\<lparr>lives := lives (gameState s) - 1\<rparr>)\<rparr> \<and>
      hitCandidate (playerState (collision now ob s)) ob \<and>
      (now' - now > INVINCIBILITY_DURATION \<longrightarrow>
         damageSounds (collision now' ob (collision now ob s)) = damageSounds s + 2)"
    if "hitCandidate (playerState s) ob \<and> now - lastHitTime s > INVINCIBILITY_DURATION"
    using that by (simp add: collision_eq loseLife_def Let_def)
  show ?thesis
    using e q f c unfolding A_def B_def by blast
qed

theorem C10_hit_again_witness:
  "hitCandidate (playerState exampleEngine) exampleObstacle \<and>
   5000 - lastHitTime exampleEngine > INVINCIBILITY_DURATION \<and>
   8000 - (5000 :: real) > INVINCIBILITY_DURATION \<and>
   damageSounds exampleEngine = 0 \<and>
   damageSounds (collision 8000 exampleObstacle (collision 5000 exampleObstacle exampleEngine)) = 2 \<and>
   obstacles (collision 5000 exampleObstacle exampleEngine) = obstacles exampleEngine \<and>
   scoreRef (collision 5000 exampleObstacle exampleEngine) = scoreRef exampleEngine \<and>
   playerState (collision 5000 exampleObstacle exampleEngine) = playerState exampleEngine"
proof -
  have h: "hitCandidate (playerState exampleEngine) exampleObstacle \<and>
      5000 - lastHitTime exampleEngine > INVINCIBILITY_DURATION"
    by (simp add: hitCandidate_def exampleEngine_fields exampleObstacle_def
        INVINCIBILITY_DURATION_def)
  have h2: "8000 - (5000 :: real) > INVINCIBILITY_DURATION"
    by (simp add: INVINCIBILITY_DURATION_def)
  note t = C10_hit_writes_only_hit_fields[where s = exampleEngine and ob = exampleObstacle
      and now = 5000 and now' = 8000]
  from t h h2 have a: "damageSounds (collision 8000 exampleObstacle
      (collision 5000 exampleObstacle exampleEngine)) = damageSounds exampleEngine + 2"
    by blast
  from t h have b: "collision 5000 exampleObstacle exampleEngine =
        exampleEngine\<lparr>damageSounds := Suc (damageSounds exampleEngine), lastHitTime := 5000,
          gameState :=
            (if lives (gameState exampleEngine) - 1 \<le> 0
             then (gameState exampleEngine)\<lparr>lives := 0, gameOver := True,
                    score := scoreRef exampleEngine\<rparr>
             else (gameState exampleEngine)\<lparr>lives := lives (gameState exampleEngine) - 1\<rparr>)\<rparr>"
    by blast
  have c: "obstacles (collision 5000 exampleObstacle exampleEngine) = obstacles exampleEngine"
    "scoreRef (collision 5000 exampleObstacle exampleEngine) = scoreRef exampleEngine"
    "playerState (collision 5000 exampleObstacle exampleEngine) = playerState exampleEngine"
    by (subst b, simp)+
  from h h2 a c show ?thesis by (simp add: exampleEngine_fields)
qed

end
